theory Spec2Isabelle
  imports Main "HOL-Library.Word"
begin

section \<open>akbootimg: Android boot image layout and assembly\<close>

text \<open>
  A shallow embedding of \<^verbatim>\<open>akbootimg.c\<close>. The C type \<^verbatim>\<open>unsigned\<close> is a
  32-bit word: addition, subtraction and multiplication wrap around and division
  truncates, as in the program. Bytes and characters are \<^typ>\<open>char\<close>; files and
  buffers are lists of them.
\<close>

type_synonym u32 = "32 word"

subsection \<open>The header record\<close>

text \<open>
  The fields of \<^verbatim>\<open>boot_img_hdr\<close> that the program reads or writes. The remaining
  fields of the structure are never touched by the program and are kept together in
  \<open>reserved\<close>.
\<close>

record boot_img_hdr =
  magic :: string
  kernel_size :: u32
  kernel_addr :: u32
  ramdisk_size :: u32
  ramdisk_addr :: u32
  second_size :: u32
  second_addr :: u32
  tags_addr :: u32
  page_size :: u32
  cmdline :: string
  reserved :: string

subsection \<open>Page arithmetic\<close>

text \<open>
  The expression \<^verbatim>\<open>(sz + page_size - 1) / page_size\<close>, which the program repeats
  for every segment in \<^verbatim>\<open>check_boot_img_header\<close>, \<^verbatim>\<open>update_images\<close>,
  \<^verbatim>\<open>write_bootimg\<close> and \<^verbatim>\<open>extract_ramdisk\<close>.
\<close>

definition npages :: "u32 \<Rightarrow> u32 \<Rightarrow> u32" where
  "npages psize sz = (sz + psize - 1) div psize"

text \<open>
  \<^verbatim>\<open>total_size = (1+n+m+o)*page_size\<close>, computed in \<^verbatim>\<open>check_boot_img_header\<close>
  (lines 226 to 230) and again at the end of \<^verbatim>\<open>update_images\<close> (lines 528 to 531).
\<close>

definition total_size :: "u32 \<Rightarrow> u32 \<Rightarrow> u32 \<Rightarrow> u32 \<Rightarrow> u32" where
  "total_size psize ksz rsz ssz =
     (let n = npages psize ksz;
          m = npages psize rsz;
          o' = npages psize ssz
      in (1 + n + m + o') * psize)"

definition hdr_total_size :: "boot_img_hdr \<Rightarrow> u32" where
  "hdr_total_size h =
     total_size (page_size h) (kernel_size h) (ramdisk_size h) (second_size h)"

text \<open>
  The offsets of \<^verbatim>\<open>update_images\<close> (lines 427 to 432), taken from the header as it
  is when the function is entered.
\<close>

definition update_images_roffset :: "boot_img_hdr \<Rightarrow> u32" where
  "update_images_roffset h =
     (let psize = page_size h;
          n = npages psize (kernel_size h)
      in (1 + n) * psize)"

definition update_images_soffset :: "boot_img_hdr \<Rightarrow> u32" where
  "update_images_soffset h =
     (let psize = page_size h;
          n = npages psize (kernel_size h);
          m = npages psize (ramdisk_size h)
      in (1 + n + m) * psize)"

text \<open>
  The offsets at which \<^verbatim>\<open>write_bootimg\<close> places the ramdisk (line 577) and the
  second stage (line 590).
\<close>

definition write_bootimg_roffset :: "boot_img_hdr \<Rightarrow> u32" where
  "write_bootimg_roffset h =
     (let psize = page_size h;
          n = npages psize (kernel_size h)
      in (1 + n) * psize)"

definition write_bootimg_soffset :: "boot_img_hdr \<Rightarrow> u32" where
  "write_bootimg_soffset h =
     (let psize = page_size h;
          n = npages psize (kernel_size h);
          m = npages psize (ramdisk_size h)
      in (1 + n + m) * psize)"

text \<open>
  The offset of \<^verbatim>\<open>extract_ramdisk\<close> (lines 664 and 665) and the one of
  \<^verbatim>\<open>extract_second\<close> (lines 702 and 703). The latter rounds the sum of the two
  sizes: \<^verbatim>\<open>n = (rsize + ksize + psize - 1) / psize\<close>.
\<close>

definition extract_ramdisk_roffset :: "boot_img_hdr \<Rightarrow> u32" where
  "extract_ramdisk_roffset h =
     (let psize = page_size h;
          ksize = kernel_size h;
          n = (ksize + psize - 1) div psize
      in (1 + n) * psize)"

definition extract_second_soffset :: "boot_img_hdr \<Rightarrow> u32" where
  "extract_second_soffset h =
     (let psize = page_size h;
          ksize = kernel_size h;
          rsize = ramdisk_size h;
          n = (rsize + ksize + psize - 1) div psize
      in (1 + n) * psize)"

text \<open>
  The layout as the specification words it, over unbounded naturals: every segment takes
  \<open>ceil (size / page_size)\<close> pages and the header takes one page.
\<close>

definition spec_pages :: "nat \<Rightarrow> nat \<Rightarrow> nat" where
  "spec_pages p sz = (sz + p - 1) div p"

definition spec_total :: "nat \<Rightarrow> nat \<Rightarrow> nat \<Rightarrow> nat \<Rightarrow> nat" where
  "spec_total p k r s = (1 + spec_pages p k + spec_pages p r + spec_pages p s) * p"

subsection \<open>C strings and the C library\<close>

text \<open>
  A \<^verbatim>\<open>char*\<close> argument is the list of characters from the pointer on; the string it
  denotes ends before the first NUL (or at the end of the list).
\<close>

abbreviation NUL :: char where "NUL \<equiv> CHR 0x00"
abbreviation TAB :: char where "TAB \<equiv> CHR 0x09"
abbreviation NEWLINE :: char where "NEWLINE \<equiv> CHR 0x0A"

definition c_str :: "string \<Rightarrow> string" where
  "c_str s = takeWhile (\<lambda>c. c \<noteq> NUL) s"

text \<open>\<^verbatim>\<open>strcmp(a, b) == 0\<close> and \<^verbatim>\<open>strncmp(a, b, n) == 0\<close>.\<close>

definition strcmp_eq :: "string \<Rightarrow> string \<Rightarrow> bool" where
  "strcmp_eq a b \<longleftrightarrow> c_str a = c_str b"

definition strncmp_eq :: "string \<Rightarrow> string \<Rightarrow> nat \<Rightarrow> bool" where
  "strncmp_eq a b n \<longleftrightarrow> take n (c_str a) = take n (c_str b)"

definition strspn :: "string \<Rightarrow> string \<Rightarrow> nat" where
  "strspn s accept = length (takeWhile (\<lambda>c. c \<in> set accept) (c_str s))"

definition strcspn :: "string \<Rightarrow> string \<Rightarrow> nat" where
  "strcspn s reject = length (takeWhile (\<lambda>c. c \<notin> set reject) (c_str s))"

text \<open>
  \<^verbatim>\<open>strtoul(s, NULL, 0)\<close>: white space, an optional sign, the prefix \<^verbatim>\<open>0x\<close> for
  base 16 or \<^verbatim>\<open>0\<close> for base 8, then the digits of that base; no digits give 0, a value
  beyond \<^verbatim>\<open>ULONG_MAX\<close> gives \<^verbatim>\<open>ULONG_MAX\<close>, a minus sign negates modulo
  \<open>2 ^ lb\<close>. Here \<open>lb\<close> is the width of \<^verbatim>\<open>unsigned long\<close>, \<^verbatim>\<open>long\<close> and
  \<^verbatim>\<open>size_t\<close> on the platform (32 or 64 on Linux).
\<close>

definition isspace :: "char \<Rightarrow> bool" where
  "isspace c \<longleftrightarrow> c \<in> {CHR '' '', TAB, NEWLINE, CHR 0x0B, CHR 0x0C, CHR 0x0D}"

definition digit_val :: "char \<Rightarrow> nat option" where
  "digit_val c =
     (let n = (of_char c :: nat)
      in if 48 \<le> n \<and> n \<le> 57 then Some (n - 48)
         else if 97 \<le> n \<and> n \<le> 122 then Some (n - 87)
         else if 65 \<le> n \<and> n \<le> 90 then Some (n - 55)
         else None)"

fun strtoul_digits :: "nat \<Rightarrow> nat \<Rightarrow> string \<Rightarrow> nat" where
  "strtoul_digits base acc [] = acc"
| "strtoul_digits base acc (c # cs) =
     (case digit_val c of
        None \<Rightarrow> acc
      | Some d \<Rightarrow> if d < base then strtoul_digits base (acc * base + d) cs else acc)"

definition strtoul_sign :: "string \<Rightarrow> bool \<times> string" where
  "strtoul_sign s =
     (case s of
        [] \<Rightarrow> (False, s)
      | c # cs \<Rightarrow> if c = CHR ''-'' then (True, cs)
                 else if c = CHR ''+'' then (False, cs)
                 else (False, s))"

definition strtoul_base :: "string \<Rightarrow> nat \<times> string" where
  "strtoul_base s =
     (case s of
        [] \<Rightarrow> (10, s)
      | c # cs \<Rightarrow>
          if c = CHR ''0'' then
            (case cs of
               [] \<Rightarrow> (8, s)
             | x # ds \<Rightarrow> if x = CHR ''x'' \<or> x = CHR ''X'' then (16, ds) else (8, s))
          else (10, s))"

definition strtoul :: "nat \<Rightarrow> string \<Rightarrow> nat" where
  "strtoul lb s =
     (let (neg, s2) = strtoul_sign (dropWhile isspace (c_str s));
          (base, s3) = strtoul_base s2;
          v = strtoul_digits base 0 s3
      in if 2 ^ lb - 1 < v then 2 ^ lb - 1
         else if neg then (2 ^ lb - v) mod 2 ^ lb
         else v)"

text \<open>The conversion \<^verbatim>\<open>%x\<close> of \<^verbatim>\<open>printf\<close>: lower-case hexadecimal, no leading zeros.\<close>

definition hex_char :: "nat \<Rightarrow> char" where
  "hex_char d = ''0123456789abcdef'' ! d"

function hex_digits :: "nat \<Rightarrow> string" where
  "hex_digits n = (if n < 16 then [hex_char n] else hex_digits (n div 16) @ [hex_char (n mod 16)])"
  by pat_completeness auto
termination
  by (relation "measure id") auto

declare hex_digits.simps [simp del]

text \<open>
  \<^verbatim>\<open>getline\<close> in a loop: the lines of a text, each with its newline, the last one
  also when it has none.
\<close>

fun getlines :: "string \<Rightarrow> string list" where
  "getlines [] = []"
| "getlines (c # cs) =
     (if c = NEWLINE then [c] # getlines cs
      else (case getlines cs of [] \<Rightarrow> [[c]] | l # ls \<Rightarrow> (c # l) # ls))"

subsection \<open>Files and streams\<close>

text \<open>
  A file of the file system is a regular file or a block device, with its bytes. The
  bytes of a block device are fixed in number.
\<close>

datatype disk_file = Regular string | BlockDevice string

definition file_bytes :: "disk_file \<Rightarrow> string" where
  "file_bytes f = (case f of Regular b \<Rightarrow> b | BlockDevice b \<Rightarrow> b)"

text \<open>
  A \<^verbatim>\<open>FILE*\<close>: the bytes of the file as the descriptor of the stream sees them, the
  offset of the descriptor, the end-of-file indicator, the bytes that \<^verbatim>\<open>fwrite\<close> has
  accepted and that are still in the buffer of the stream, and whether the file is a block
  device. The buffered bytes belong at the offset of the descriptor, so the position of
  the stream, \<^verbatim>\<open>ftell\<close>, is that offset plus their number. Reads are taken from the file
  at the offset of the descriptor; the program never reads from a stream after it has
  written to it. Device errors are not modelled, so \<^verbatim>\<open>ferror\<close> is always false;
  a write beyond the end of a block device is such an error, so what is said below about
  the bytes that were written is said for regular files.
\<close>

record stream =
  content :: string
  pos :: nat
  eof :: bool
  pending :: string
  is_dev :: bool

text \<open>
  \<^verbatim>\<open>fopen\<close> with the modes \<^verbatim>\<open>r\<close> and \<^verbatim>\<open>r+\<close> on a regular file of the given
  bytes and on any file, and with the mode \<^verbatim>\<open>w\<close>, which creates the file when there
  is none and truncates a regular file to length zero; a block device keeps its bytes.
\<close>

definition fopen_stream :: "string \<Rightarrow> stream" where
  "fopen_stream bytes = \<lparr> content = bytes, pos = 0, eof = False, pending = [], is_dev = False \<rparr>"

definition fopen_file :: "disk_file \<Rightarrow> stream" where
  "fopen_file f =
     (case f of
        Regular b \<Rightarrow> fopen_stream b
      | BlockDevice b \<Rightarrow> (fopen_stream b)\<lparr>is_dev := True\<rparr>)"

definition fopen_w :: "disk_file option \<Rightarrow> stream" where
  "fopen_w dest =
     (case dest of
        None \<Rightarrow> fopen_stream []
      | Some (Regular b) \<Rightarrow> fopen_stream []
      | Some (BlockDevice b) \<Rightarrow> (fopen_stream b)\<lparr>is_dev := True\<rparr>)"

definition ftell :: "stream \<Rightarrow> nat" where
  "ftell st = pos st + length (pending st)"

text \<open>
  A write of the descriptor at an offset: the bytes replace what the file holds there, and
  a gap between the end of the file and the offset reads as zeros.
\<close>

definition overwrite :: "string \<Rightarrow> nat \<Rightarrow> string \<Rightarrow> string" where
  "overwrite old p new =
     take p old @ replicate (p - length old) NUL @ new @ drop (p + length new) old"

text \<open>
  The stream passes the first \<open>k\<close> buffered bytes to the descriptor; \<^verbatim>\<open>fflush\<close>
  passes all of them. \<^verbatim>\<open>exit\<close> flushes every open stream, so the bytes of the file
  after the program has ended are those of \<open>at_exit\<close>.
\<close>

definition flush_some :: "nat \<Rightarrow> stream \<Rightarrow> stream" where
  "flush_some k st =
     (let bs = take k (pending st)
      in if bs = [] then st
         else st\<lparr>content := overwrite (content st) (pos st) bs,
                 pos := pos st + length bs,
                 pending := drop k (pending st)\<rparr>)"

definition fflush :: "stream \<Rightarrow> stream" where
  "fflush st = flush_some (length (pending st)) st"

definition at_exit :: "stream \<Rightarrow> string" where
  "at_exit st = content (fflush st)"

text \<open>
  \<^verbatim>\<open>fseek(stream, off, SEEK_SET)\<close> with an \<^verbatim>\<open>unsigned\<close> offset converted to
  \<^verbatim>\<open>long\<close>: a value from \<open>2 ^ (lb - 1)\<close> on is negative and the call fails. The call
  flushes the buffer of the stream.
\<close>

definition fseek :: "nat \<Rightarrow> u32 \<Rightarrow> stream \<Rightarrow> stream option" where
  "fseek lb off st =
     (if 2 ^ (lb - 1) \<le> unat off then None
      else Some ((fflush st)\<lparr>pos := unat off, eof := False\<rparr>))"

text \<open>
  \<^verbatim>\<open>fread(buf, sz, 1, stream)\<close>: the number of items read (0 or 1), the bytes and the
  stream afterwards. A size of 0 reads nothing and returns 0.
\<close>

definition fread :: "nat \<Rightarrow> stream \<Rightarrow> nat \<times> string \<times> stream" where
  "fread sz st =
     (let avail = drop (pos st) (content st)
      in if sz = 0 then (0, [], st)
         else if sz \<le> length avail then (1, take sz avail, st\<lparr>pos := pos st + sz\<rparr>)
         else (0, avail, st\<lparr>pos := pos st + length avail, eof := True\<rparr>))"

datatype error =
    Perror string
  | CannotReadHeader
  | NotValidImage
  | CmdlineTooLong nat
  | BlkdevResize
  | BadConfigEntry string
  | PageSizeNull
  | CannotRead string
  | TooBig u32 u32
  | SanityChecksFailed
  | ValidPartition string
  | Undefined

text \<open>
  When the stream passes buffered bytes to the descriptor is left to the C library. A
  buffering policy says, for an \<^verbatim>\<open>fwrite\<close> of the bytes \<open>d\<close> to the stream \<open>st\<close>,
  how many of the bytes then in the buffer, in the order in which they were written, are
  passed on; the rest stays in the buffer until a later \<^verbatim>\<open>fwrite\<close>, an \<^verbatim>\<open>fseek\<close>
  or the end of the program. Two policies: every byte is passed on at once; whole blocks
  of \<open>b\<close> bytes are passed on.
\<close>

type_synonym policy = "stream \<Rightarrow> string \<Rightarrow> nat"

definition unbuffered :: policy where
  "unbuffered st d = length (pending st) + length d"

definition block_buffered :: "nat \<Rightarrow> policy" where
  "block_buffered b st d = ((length (pending st) + length d) div b) * b"

text \<open>
  \<^verbatim>\<open>fwrite(buf, sz, 1, stream)\<close> from a buffer of the given allocated contents
  (\<open>None\<close> is the null pointer): the bytes are appended to the buffer of the stream and
  the policy is applied. A size of 0 writes nothing. Reading more than the buffer holds,
  or from the null pointer, is undefined behaviour.
\<close>

definition fwrite :: "policy \<Rightarrow> string option \<Rightarrow> nat \<Rightarrow> stream \<Rightarrow> error + stream" where
  "fwrite pol buf sz st =
     (if sz = 0 then Inr st
      else case buf of
             None \<Rightarrow> Inl Undefined
           | Some b \<Rightarrow>
               if length b < sz then Inl Undefined
               else Inr (flush_some (pol st (take sz b))
                          (st\<lparr>pending := pending st @ take sz b\<rparr>)))"

text \<open>
  \<^verbatim>\<open>ftruncate(fd, size)\<close> with an \<^verbatim>\<open>unsigned\<close> size converted to a signed offset
  of \<open>lb\<close> bits: a negative length fails, as does the call on a block device, and the
  program ignores the result. The call acts on the file of the descriptor; the bytes in
  the buffer of the stream are not touched.
\<close>

definition ftruncate :: "nat \<Rightarrow> u32 \<Rightarrow> stream \<Rightarrow> stream" where
  "ftruncate lb len st =
     (if 2 ^ (lb - 1) \<le> unat len \<or> is_dev st then st
      else st\<lparr>content := take (unat len) (content st)
                 @ replicate (unat len - length (content st)) NUL\<rparr>)"

text \<open>
  The steps of the program either return a value or abort. An abort of a step that works
  on the stream of the image carries the stream as it is at that moment.
\<close>

definition bindE :: "'e + 'a \<Rightarrow> ('a \<Rightarrow> 'e + 'b) \<Rightarrow> 'e + 'b" where
  "bindE m f = (case m of Inl e \<Rightarrow> Inl e | Inr x \<Rightarrow> f x)"

definition at_stream :: "stream \<Rightarrow> error + 'a \<Rightarrow> (error \<times> stream) + 'a" where
  "at_stream st m = (case m of Inl e \<Rightarrow> Inl (e, st) | Inr x \<Rightarrow> Inr x)"

subsection \<open>The declarations of bootimg.h and the program state\<close>

text \<open>
  The header file \<^verbatim>\<open>bootimg.h\<close> is not part of the sources at hand. Its macros, the
  size of \<^verbatim>\<open>boot_img_hdr\<close>, the size of the fields that the program never
  accesses and the object representation of the structure are parameters of the model.
\<close>

record bootimg_h =
  BOOT_MAGIC :: string
  BOOT_MAGIC_SIZE :: nat
  BOOT_ARGS_SIZE :: nat
  sizeof_hdr :: nat
  reserved_size :: nat
  hdr_bytes :: "boot_img_hdr \<Rightarrow> string"
  hdr_of_bytes :: "string \<Rightarrow> boot_img_hdr"

record t_akbootimg =
  img_size :: u32
  is_blkdev :: bool
  fname :: string
  config_fname :: "string option"
  kernel_fname :: "string option"
  ramdisk_fname :: "string option"
  second_fname :: "string option"
  stream :: stream
  header :: boot_img_hdr
  kernel :: "string option"
  ramdisk :: "string option"
  second :: "string option"

subsection \<open>check_boot_img_header\<close>

datatype diag = NoMagic | KernelSizeNull | RamdiskSizeNull | PageSizeNullDiag | SizesMismatch

text \<open>The messages printed on \<^verbatim>\<open>stderr\<close> and the value returned.\<close>

definition check_boot_img_header :: "bootimg_h \<Rightarrow> t_akbootimg \<Rightarrow> diag list \<times> int" where
  "check_boot_img_header bh img =
     (if \<not> strncmp_eq (magic (header img)) (BOOT_MAGIC bh) (BOOT_MAGIC_SIZE bh)
      then ([NoMagic], 1)
      else if kernel_size (header img) = 0 then ([KernelSizeNull], 1)
      else
        let msgs = (if ramdisk_size (header img) = 0 then [RamdiskSizeNull] else []);
            psize = page_size (header img)
        in if psize = 0 then (msgs @ [PageSizeNullDiag], 1)
           else
             let total = total_size psize (kernel_size (header img))
                           (ramdisk_size (header img)) (second_size (header img))
             in if img_size img < total then (msgs @ [SizesMismatch], 1)
                else (msgs, 0))"

subsection \<open>update_header_entry and update_header\<close>

text \<open>
  One configuration line. The line is cut at its newline; \<open>p1\<close> is the text from the
  token on, which is what the first error message prints, since the token is only
  terminated after the \<^verbatim>\<open>=\<close> has been found. \<^verbatim>\<open>strlen(value)\<close> is stored in an
  \<^verbatim>\<open>unsigned\<close>.
\<close>

definition update_header_entry ::
  "bootimg_h \<Rightarrow> nat \<Rightarrow> t_akbootimg \<Rightarrow> string \<Rightarrow> error + t_akbootimg" where
  "update_header_entry bh lb img cmd =
     (let line = takeWhile (\<lambda>c. c \<noteq> NEWLINE) (c_str cmd);
          p1 = drop (strspn line [CHR '' '', TAB]) line;
          token = take (strcspn p1 [CHR '' '', CHR ''='', TAB]) p1;
          p2 = drop (strcspn p1 [CHR '' '', CHR ''='', TAB]) p1;
          p3 = drop (strspn p2 [CHR '' '', TAB]) p2
      in case p3 of
           [] \<Rightarrow> Inl (BadConfigEntry p1)
         | c # p4 \<Rightarrow>
             if c \<noteq> CHR ''='' then Inl (BadConfigEntry p1)
             else
               let val = drop (strspn p4 [CHR '' '', TAB]) p4;
                   valuenum = (of_nat (strtoul lb val) :: u32);
                   h = header img
               in if strcmp_eq token ''cmdline'' then
                    (let len = length val mod 2 ^ 32
                     in if BOOT_ARGS_SIZE bh \<le> len then Inl (CmdlineTooLong len)
                        else if BOOT_ARGS_SIZE bh \<le> length val then Inl Undefined
                        else Inr (img\<lparr>header := h\<lparr>cmdline :=
                               val @ replicate (BOOT_ARGS_SIZE bh - length val) NUL\<rparr>\<rparr>))
                  else if strncmp_eq token ''bootsize'' 8 then
                    (if is_blkdev img \<and> img_size img \<noteq> valuenum then Inl BlkdevResize
                     else Inr (img\<lparr>img_size := valuenum\<rparr>))
                  else if strncmp_eq token ''pagesize'' 8 then
                    Inr (img\<lparr>header := h\<lparr>page_size := valuenum\<rparr>\<rparr>)
                  else if strncmp_eq token ''kerneladdr'' 10 then
                    Inr (img\<lparr>header := h\<lparr>kernel_addr := valuenum\<rparr>\<rparr>)
                  else if strncmp_eq token ''ramdiskaddr'' 11 then
                    Inr (img\<lparr>header := h\<lparr>ramdisk_addr := valuenum\<rparr>\<rparr>)
                  else if strncmp_eq token ''secondaddr'' 10 then
                    Inr (img\<lparr>header := h\<lparr>second_addr := valuenum\<rparr>\<rparr>)
                  else if strncmp_eq token ''tagsaddr'' 8 then
                    Inr (img\<lparr>header := h\<lparr>tags_addr := valuenum\<rparr>\<rparr>)
                  else Inl (BadConfigEntry token))"

text \<open>The \<^verbatim>\<open>getline\<close> loop over the lines of one configuration source.\<close>

fun update_header_lines ::
  "bootimg_h \<Rightarrow> nat \<Rightarrow> string list \<Rightarrow> t_akbootimg \<Rightarrow> error + t_akbootimg" where
  "update_header_lines bh lb [] img = Inr img"
| "update_header_lines bh lb (l # ls) img =
     bindE (update_header_entry bh lb img l) (update_header_lines bh lb ls)"

text \<open>
  The configuration file, when one is named, then the global buffer \<^verbatim>\<open>config_args\<close>
  that holds the \<^verbatim>\<open>-c\<close> arguments. \<open>fs\<close> maps the names of the other files to their
  contents.
\<close>

definition update_header ::
  "bootimg_h \<Rightarrow> nat \<Rightarrow> (string \<Rightarrow> string option) \<Rightarrow> string \<Rightarrow> t_akbootimg
     \<Rightarrow> error + t_akbootimg" where
  "update_header bh lb fs config_args img =
     bindE
       (case config_fname img of
          None \<Rightarrow> Inr img
        | Some cf \<Rightarrow>
            (case fs cf of
               None \<Rightarrow> Inl (Perror cf)
             | Some txt \<Rightarrow> update_header_lines bh lb (getlines txt) img))
       (\<lambda>img1. if length (c_str config_args) = 0 then Inr img1
               else update_header_lines bh lb (getlines (c_str config_args)) img1)"

subsection \<open>update_images\<close>

text \<open>
  The block that loads a replacement file: \<^verbatim>\<open>fopen\<close>, \<^verbatim>\<open>fstat\<close>, the size stored
  in an \<^verbatim>\<open>unsigned\<close>, \<^verbatim>\<open>malloc\<close> (taken to succeed) and one \<^verbatim>\<open>fread\<close> of the
  whole size. The block is written three times in the source, with the name of the
  segment in the last message.
\<close>

definition read_whole_file ::
  "(string \<Rightarrow> string option) \<Rightarrow> string \<Rightarrow> string \<Rightarrow> error + u32 \<times> string" where
  "read_whole_file fs name what =
     (case fs name of
        None \<Rightarrow> Inl (Perror name)
      | Some bytes \<Rightarrow>
          let sz = (of_nat (length bytes) :: u32);
              (rb, buf, st) = fread (unat sz) (fopen_stream bytes)
          in if rb \<noteq> 1 then Inl (Perror name)
             else if eof st then Inl (CannotRead what)
             else Inr (sz, buf))"

definition fseekE :: "nat \<Rightarrow> string \<Rightarrow> u32 \<Rightarrow> stream \<Rightarrow> error + stream" where
  "fseekE lb name off st =
     (case fseek lb off st of None \<Rightarrow> Inl (Perror name) | Some st1 \<Rightarrow> Inr st1)"

text \<open>
  The block that copies a segment from the image that is open. An abort in
  \<^verbatim>\<open>update_images\<close> carries the stream of the image.
\<close>

definition carry_over ::
  "nat \<Rightarrow> t_akbootimg \<Rightarrow> u32 \<Rightarrow> u32 \<Rightarrow> string \<Rightarrow> (error \<times> stream) + string \<times> stream" where
  "carry_over lb img off sz what =
     bindE (at_stream (stream img) (fseekE lb (fname img) off (stream img)))
       (\<lambda>st1. let (rb, buf, st2) = fread (unat sz) st1
              in if rb \<noteq> 1 then Inl (Perror (fname img), st2)
                 else if eof st2 then Inl (CannotRead what, st2)
                 else Inr (buf, st2))"

definition update_images_kernel ::
  "(string \<Rightarrow> string option) \<Rightarrow> t_akbootimg \<Rightarrow> (error \<times> stream) + t_akbootimg" where
  "update_images_kernel fs img =
     (case kernel_fname img of
        None \<Rightarrow> Inr img
      | Some kf \<Rightarrow>
          bindE (at_stream (stream img) (read_whole_file fs kf ''kernel''))
            (\<lambda>(ksize, k). Inr (img\<lparr>header := (header img)\<lparr>kernel_size := ksize\<rparr>,
                                    kernel := Some k\<rparr>)))"

definition update_images_ramdisk ::
  "nat \<Rightarrow> (string \<Rightarrow> string option) \<Rightarrow> u32 \<Rightarrow> u32 \<Rightarrow> t_akbootimg
     \<Rightarrow> (error \<times> stream) + t_akbootimg" where
  "update_images_ramdisk lb fs roffset rsize img =
     (case ramdisk_fname img of
        Some rf \<Rightarrow>
          bindE (at_stream (stream img) (read_whole_file fs rf ''ramdisk''))
            (\<lambda>(rsz, r). Inr (img\<lparr>header := (header img)\<lparr>ramdisk_size := rsz\<rparr>,
                                  ramdisk := Some r\<rparr>))
      | None \<Rightarrow>
          if kernel img \<noteq> None then
            bindE (carry_over lb img roffset rsize ''ramdisk'')
              (\<lambda>(r, st). Inr (img\<lparr>stream := st, ramdisk := Some r\<rparr>))
          else Inr img)"

definition update_images_second ::
  "nat \<Rightarrow> (string \<Rightarrow> string option) \<Rightarrow> u32 \<Rightarrow> u32 \<Rightarrow> t_akbootimg
     \<Rightarrow> (error \<times> stream) + t_akbootimg" where
  "update_images_second lb fs soffset ssize img =
     (case second_fname img of
        Some sf \<Rightarrow>
          bindE (at_stream (stream img) (read_whole_file fs sf ''second stage''))
            (\<lambda>(ssz, s). Inr (img\<lparr>header := (header img)\<lparr>second_size := ssz\<rparr>,
                                  second := Some s\<rparr>))
      | None \<Rightarrow>
          if ramdisk img \<noteq> None \<and> second_size (header img) \<noteq> 0 then
            bindE (carry_over lb img soffset ssize ''second stage'')
              (\<lambda>(s, st). Inr (img\<lparr>stream := st, second := Some s\<rparr>))
          else Inr img)"

text \<open>Lines 528 to 536: the total of the updated header against the size of the image.\<close>

definition update_images_total :: "u32 \<Rightarrow> t_akbootimg \<Rightarrow> (error \<times> stream) + t_akbootimg" where
  "update_images_total psize img =
     (let total = total_size psize (kernel_size (header img)) (ramdisk_size (header img))
                    (second_size (header img))
      in if img_size img = 0 then Inr (img\<lparr>img_size := total\<rparr>)
         else if img_size img < total then Inl (TooBig total (img_size img), stream img)
         else Inr img)"

definition update_images ::
  "nat \<Rightarrow> (string \<Rightarrow> string option) \<Rightarrow> t_akbootimg \<Rightarrow> (error \<times> stream) + t_akbootimg" where
  "update_images lb fs img =
     (let psize = page_size (header img);
          rsize = ramdisk_size (header img);
          ssize = second_size (header img)
      in if psize = 0 then Inl (PageSizeNull, stream img)
         else
           let roffset = update_images_roffset (header img);
               soffset = update_images_soffset (header img)
           in bindE (update_images_kernel fs img)
                (\<lambda>img1. bindE (update_images_ramdisk lb fs roffset rsize img1)
                  (\<lambda>img2. bindE (update_images_second lb fs soffset ssize img2)
                    (update_images_total psize))))"

subsection \<open>write_bootimg\<close>

text \<open>
  The length of the padding after the header, \<^verbatim>\<open>psize - sizeof(img->header)\<close>: the
  operand \<^verbatim>\<open>sizeof\<close> has type \<^verbatim>\<open>size_t\<close>, so the difference is taken modulo
  \<open>2 ^ lb\<close>.
\<close>

definition hdr_padding_len :: "bootimg_h \<Rightarrow> nat \<Rightarrow> u32 \<Rightarrow> nat" where
  "hdr_padding_len bh lb psize = (unat psize + 2 ^ lb - sizeof_hdr bh) mod 2 ^ lb"

text \<open>
  A segment followed by its padding, \<^verbatim>\<open>psize - (size % psize)\<close> bytes of the zeroed
  page \<^verbatim>\<open>padding\<close>.
\<close>

definition write_segment ::
  "policy \<Rightarrow> u32 \<Rightarrow> string option \<Rightarrow> u32 \<Rightarrow> stream \<Rightarrow> error + stream" where
  "write_segment pol psize buf sz st =
     bindE (fwrite pol buf (unat sz) st)
       (fwrite pol (Some (replicate (unat psize) NUL)) (unat (psize - sz mod psize)))"

text \<open>
  \<^verbatim>\<open>write_bootimg\<close>: the header and its padding, the segments that are in memory, each
  with its padding, and \<^verbatim>\<open>ftruncate\<close> on the descriptor of the stream. The stream is
  not flushed before \<^verbatim>\<open>ftruncate\<close>, and it is still open when the function returns.
\<close>

definition write_bootimg ::
  "policy \<Rightarrow> bootimg_h \<Rightarrow> nat \<Rightarrow> t_akbootimg \<Rightarrow> error + t_akbootimg" where
  "write_bootimg pol bh lb img =
     (let h = header img;
          psize = page_size h
      in if psize = 0 then Inl Undefined
         else
           bindE (fseekE lb (fname img) 0 (stream img))
            (\<lambda>st0. bindE (fwrite pol (Some (hdr_bytes bh h)) (sizeof_hdr bh) st0)
            (\<lambda>st1. bindE (fwrite pol (Some (replicate (unat psize) NUL))
                             (hdr_padding_len bh lb psize) st1)
            (\<lambda>st2. bindE (if kernel img \<noteq> None
                           then write_segment pol psize (kernel img) (kernel_size h) st2
                           else Inr st2)
            (\<lambda>st3. bindE (if ramdisk img \<noteq> None
                           then bindE (fseekE lb (fname img) (write_bootimg_roffset h) st3)
                                  (write_segment pol psize (ramdisk img) (ramdisk_size h))
                           else Inr st3)
            (\<lambda>st4. bindE (if second_size h \<noteq> 0
                           then bindE (fseekE lb (fname img) (write_bootimg_soffset h) st4)
                                  (write_segment pol psize (second img) (second_size h))
                           else Inr st4)
            (\<lambda>st5. Inr (img\<lparr>stream := ftruncate lb (img_size img) st5\<rparr>))))))))"

subsection \<open>write_bootimg_config and the extraction of the segments\<close>

text \<open>
  The lines of the configuration file. The command line is printed with \<^verbatim>\<open>%s\<close>, up
  to its first NUL; a field without NUL is taken in full, where the program reads on
  into the fields that follow it.
\<close>

definition config_lines :: "boot_img_hdr \<Rightarrow> string list" where
  "config_lines h =
     [ ''pagesize = 0x'' @ hex_digits (unat (page_size h)) @ [NEWLINE],
       ''kerneladdr = 0x'' @ hex_digits (unat (kernel_addr h)) @ [NEWLINE],
       ''ramdiskaddr = 0x'' @ hex_digits (unat (ramdisk_addr h)) @ [NEWLINE],
       ''secondaddr = 0x'' @ hex_digits (unat (second_addr h)) @ [NEWLINE],
       ''tagsaddr = 0x'' @ hex_digits (unat (tags_addr h)) @ [NEWLINE],
       ''cmdline = '' @ c_str (cmdline h) @ [NEWLINE] ]"

text \<open>The text written to the configuration file.\<close>

definition write_bootimg_config :: "t_akbootimg \<Rightarrow> string" where
  "write_bootimg_config img = concat (config_lines (header img))"

text \<open>The bytes that an extraction function writes to its output file.\<close>

definition extract_kernel :: "nat \<Rightarrow> t_akbootimg \<Rightarrow> error + string" where
  "extract_kernel lb img =
     (let psize = page_size (header img);
          ksize = kernel_size (header img)
      in bindE (fseekE lb (fname img) psize (stream img))
           (\<lambda>st. let (rb, buf, st1) = fread (unat ksize) st
                 in if rb \<noteq> 1 then Inl (Perror (fname img)) else Inr buf))"

definition extract_ramdisk :: "nat \<Rightarrow> t_akbootimg \<Rightarrow> error + string" where
  "extract_ramdisk lb img =
     (let rsize = ramdisk_size (header img);
          roffset = extract_ramdisk_roffset (header img)
      in bindE (fseekE lb (fname img) roffset (stream img))
           (\<lambda>st. let (rb, buf, st1) = fread (unat rsize) st
                 in if rb \<noteq> 1 then Inl (Perror (fname img)) else Inr buf))"

text \<open>
  \<^verbatim>\<open>extract_second\<close> returns at once when there is no second stage. Its buffer has
  \<^verbatim>\<open>ksize\<close> bytes, so a longer second stage overruns it.
\<close>

definition extract_second :: "nat \<Rightarrow> t_akbootimg \<Rightarrow> error + string option" where
  "extract_second lb img =
     (let ksize = kernel_size (header img);
          ssize = second_size (header img)
      in if ssize = 0 then Inr None
         else
           let soffset = extract_second_soffset (header img)
           in bindE (fseekE lb (fname img) soffset (stream img))
                (\<lambda>st. if ksize < ssize then Inl Undefined
                      else let (rb, buf, st1) = fread (unat ssize) st
                           in if rb \<noteq> 1 then Inl (Perror (fname img)) else Inr (Some buf)))"

subsection \<open>main: the update and create commands\<close>

text \<open>
  \<^verbatim>\<open>new_bootimg\<close>: a zeroed record with the default file names, the magic and a page
  size of 2048. The stream is null until \<^verbatim>\<open>open_bootimg\<close>.
\<close>

definition new_bootimg :: "bootimg_h \<Rightarrow> t_akbootimg" where
  "new_bootimg bh =
     \<lparr> img_size = 0, is_blkdev = False, fname = [],
       config_fname = Some ''boot.info'', kernel_fname = Some ''Image'',
       ramdisk_fname = Some ''ramdisk.img'', second_fname = Some ''stage2.img'',
       stream = fopen_stream [],
       header = \<lparr> magic = take (BOOT_MAGIC_SIZE bh) (BOOT_MAGIC bh @ [NUL]),
                  kernel_size = 0, kernel_addr = 0, ramdisk_size = 0, ramdisk_addr = 0,
                  second_size = 0, second_addr = 0, tags_addr = 0, page_size = 2048,
                  cmdline = replicate (BOOT_ARGS_SIZE bh) NUL,
                  reserved = replicate (reserved_size bh) NUL \<rparr>,
       kernel = None, ramdisk = None, second = None \<rparr>"

text \<open>
  What \<^verbatim>\<open>parse_args\<close> leaves in the record for \<^verbatim>\<open>-u\<close> and \<^verbatim>\<open>-t\<close>: the name of
  the image and the names given with \<^verbatim>\<open>-f\<close>, \<^verbatim>\<open>-k\<close>, \<^verbatim>\<open>-r\<close> and \<^verbatim>\<open>-s\<close>,
  null when the option is absent.
\<close>

definition parse_args_files ::
  "string \<Rightarrow> string option \<Rightarrow> string option \<Rightarrow> string option \<Rightarrow> string option
     \<Rightarrow> t_akbootimg \<Rightarrow> t_akbootimg" where
  "parse_args_files f cf kf rf sf img =
     img\<lparr>fname := f, config_fname := cf, kernel_fname := kf, ramdisk_fname := rf,
         second_fname := sf\<rparr>"

text \<open>
  \<^verbatim>\<open>read_header\<close>: the header is read, the size of the image is the length of the
  file or the size of the block device, stored in an \<^verbatim>\<open>unsigned\<close>, and the header is
  checked.
\<close>

definition read_header :: "bootimg_h \<Rightarrow> t_akbootimg \<Rightarrow> (error \<times> stream) + t_akbootimg" where
  "read_header bh img =
     (let (rb, buf, st) = fread (sizeof_hdr bh) (stream img)
      in if rb \<noteq> 1 then Inl (Perror (fname img), st)
         else if eof st then Inl (CannotReadHeader, st)
         else
           let img1 = img\<lparr>header := hdr_of_bytes bh buf, stream := st,
                           img_size := of_nat (length (content st)), is_blkdev := is_dev st\<rparr>
           in if snd (check_boot_img_header bh img1) \<noteq> 0 then Inl (NotValidImage, st)
              else Inr img1)"

text \<open>
  \<^verbatim>\<open>check_if_block_device\<close>, called by the command \<^verbatim>\<open>-t\<close> before the image is
  opened. Its body is compiled only with \<^verbatim>\<open>HAS_BLKID\<close>: then a block device that
  \<^verbatim>\<open>blkid\<close> knows the type of is refused, and the size of any other block device
  becomes the size of the image. When there is no file, \<^verbatim>\<open>stat\<close> leaves its buffer
  unset and the test of \<^verbatim>\<open>st_mode\<close> reads an unset value; if the test holds, the
  \<^verbatim>\<open>open\<close> of the missing file fails. The parameters are what
  \<^verbatim>\<open>blkid_get_tag_value\<close> returns for the name of the image and whether the test holds
  on the unset buffer; \<open>None\<close> stands for a program compiled without \<^verbatim>\<open>HAS_BLKID\<close>.
\<close>

record blkid_env =
  blkid_type :: "string option"
  unset_mode_is_blk :: bool

definition check_if_block_device ::
  "blkid_env option \<Rightarrow> disk_file option \<Rightarrow> t_akbootimg \<Rightarrow> error + t_akbootimg" where
  "check_if_block_device blk dest img =
     (case blk of
        None \<Rightarrow> Inr img
      | Some env \<Rightarrow>
          (case dest of
             None \<Rightarrow>
               if unset_mode_is_blk env then
                 (case blkid_type env of
                    Some t \<Rightarrow> Inl (ValidPartition t)
                  | None \<Rightarrow> Inl (Perror (fname img)))
               else Inr img
           | Some (Regular b) \<Rightarrow> Inr img
           | Some (BlockDevice b) \<Rightarrow>
               (case blkid_type env of
                  Some t \<Rightarrow> Inl (ValidPartition t)
                | None \<Rightarrow> Inr (img\<lparr>is_blkdev := True, img_size := of_nat (length b)\<rparr>))))"

text \<open>
  The result of a run: the image was written and the destination has the given bytes
  after the program has ended; or the run was aborted before \<^verbatim>\<open>write_bootimg\<close> and
  the destination has the given bytes after the program has ended (\<open>None\<close> when there is
  no such file); or \<^verbatim>\<open>write_bootimg\<close> itself failed; or the usage text was printed.
  The bytes of the destination are taken from the stream as it is when the program ends,
  after the flush of \<^verbatim>\<open>exit\<close>.
\<close>

datatype outcome =
    Written string
  | Aborted error "string option"
  | WriteFailed error
  | Usage "string option"

text \<open>
  The command \<^verbatim>\<open>-u\<close>, on the record that \<^verbatim>\<open>parse_args\<close> returns and the
  destination. The image is opened with mode \<^verbatim>\<open>r+\<close>. \<^verbatim>\<open>update_header\<close> does not
  use the stream of the image, so an abort there finds the stream as it was.
\<close>

definition main_update ::
  "policy \<Rightarrow> bootimg_h \<Rightarrow> nat \<Rightarrow> (string \<Rightarrow> string option) \<Rightarrow> string \<Rightarrow> t_akbootimg
     \<Rightarrow> disk_file option \<Rightarrow> outcome" where
  "main_update pol bh lb fs config_args img dest =
     (case dest of
        None \<Rightarrow> Aborted (Perror (fname img)) None
      | Some f \<Rightarrow>
          (case bindE (read_header bh (img\<lparr>stream := fopen_file f\<rparr>))
                  (\<lambda>img1. bindE (at_stream (stream img1)
                                   (update_header bh lb fs config_args img1))
                            (update_images lb fs)) of
             Inl (e, st) \<Rightarrow> Aborted e (Some (at_exit st))
           | Inr img3 \<Rightarrow>
               (case write_bootimg pol bh lb img3 of
                  Inl e \<Rightarrow> WriteFailed e
                | Inr img4 \<Rightarrow> Written (at_exit (stream img4)))))"

text \<open>
  The command \<^verbatim>\<open>-t\<close>. The image is opened with mode \<^verbatim>\<open>w\<close>. The reads of
  \<^verbatim>\<open>update_images\<close> from this stream are reads of 0 bytes, since the sizes of the new
  header are 0, and such a read returns 0 on any stream.
\<close>

definition main_create ::
  "policy \<Rightarrow> blkid_env option \<Rightarrow> bootimg_h \<Rightarrow> nat \<Rightarrow> (string \<Rightarrow> string option)
     \<Rightarrow> string \<Rightarrow> t_akbootimg \<Rightarrow> disk_file option \<Rightarrow> outcome" where
  "main_create pol blk bh lb fs config_args img dest =
     (if kernel_fname img = None then Usage (map_option file_bytes dest)
      else
        (case check_if_block_device blk dest img of
           Inl e \<Rightarrow> Aborted e (map_option file_bytes dest)
         | Inr imgb \<Rightarrow>
             (case bindE (at_stream (fopen_w dest)
                            (update_header bh lb fs config_args (imgb\<lparr>stream := fopen_w dest\<rparr>)))
                     (\<lambda>img1. bindE (update_images lb fs img1)
                       (\<lambda>img2. if snd (check_boot_img_header bh img2) \<noteq> 0
                               then Inl (SanityChecksFailed, stream img2) else Inr img2)) of
                Inl (e, st) \<Rightarrow> Aborted e (Some (at_exit st))
              | Inr img3 \<Rightarrow>
                  (case write_bootimg pol bh lb img3 of
                     Inl e \<Rightarrow> WriteFailed e
                   | Inr img4 \<Rightarrow> Written (at_exit (stream img4))))))"

subsection \<open>An instance of bootimg.h\<close>

text \<open>
  The header of the classic Android boot image, used to evaluate the model on concrete
  inputs: a magic of 8 bytes, eight little-endian 32-bit fields, 8 unused bytes, a name of
  16 bytes, a command line of 512 bytes and an identifier of 32 bytes, 608 bytes in all.
\<close>

definition le32 :: "u32 \<Rightarrow> string" where
  "le32 w = map (\<lambda>i. char_of (unat w div 256 ^ i)) [0, 1, 2, 3]"

definition le32_val :: "string \<Rightarrow> u32" where
  "le32_val bs = of_nat (foldr (\<lambda>c n. of_char c + 256 * n) bs 0)"

definition android_hdr_bytes :: "boot_img_hdr \<Rightarrow> string" where
  "android_hdr_bytes h =
     take 608
       (magic h @ le32 (kernel_size h) @ le32 (kernel_addr h) @ le32 (ramdisk_size h)
        @ le32 (ramdisk_addr h) @ le32 (second_size h) @ le32 (second_addr h)
        @ le32 (tags_addr h) @ le32 (page_size h) @ take 24 (reserved h) @ cmdline h
        @ drop 24 (reserved h) @ replicate 608 NUL)"

definition android_hdr_of_bytes :: "string \<Rightarrow> boot_img_hdr" where
  "android_hdr_of_bytes bs =
     \<lparr> magic = take 8 bs,
       kernel_size = le32_val (take 4 (drop 8 bs)),
       kernel_addr = le32_val (take 4 (drop 12 bs)),
       ramdisk_size = le32_val (take 4 (drop 16 bs)),
       ramdisk_addr = le32_val (take 4 (drop 20 bs)),
       second_size = le32_val (take 4 (drop 24 bs)),
       second_addr = le32_val (take 4 (drop 28 bs)),
       tags_addr = le32_val (take 4 (drop 32 bs)),
       page_size = le32_val (take 4 (drop 36 bs)),
       cmdline = take 512 (drop 64 bs),
       reserved = take 24 (drop 40 bs) @ take 32 (drop 576 bs) \<rparr>"

definition android_h :: bootimg_h where
  "android_h =
     \<lparr> BOOT_MAGIC = ''ANDROID!'', BOOT_MAGIC_SIZE = 8, BOOT_ARGS_SIZE = 512,
       sizeof_hdr = 608, reserved_size = 56,
       hdr_bytes = android_hdr_bytes, hdr_of_bytes = android_hdr_of_bytes \<rparr>"

subsection \<open>Notions used in the statements\<close>

text \<open>
  The parts of a configuration line as \<^verbatim>\<open>update_header_entry\<close> cuts them: the line up
  to its newline, the token, and the text from the first non-blank character after the
  token.
\<close>

definition is_blank :: "char \<Rightarrow> bool" where
  "is_blank c \<longleftrightarrow> c = CHR '' '' \<or> c = TAB"

definition is_key_char :: "char \<Rightarrow> bool" where
  "is_key_char c \<longleftrightarrow> c \<noteq> CHR '' '' \<and> c \<noteq> CHR ''='' \<and> c \<noteq> TAB"

definition entry_line :: "string \<Rightarrow> string" where
  "entry_line cmd = takeWhile (\<lambda>c. c \<noteq> NEWLINE) (c_str cmd)"

definition entry_token :: "string \<Rightarrow> string" where
  "entry_token cmd = takeWhile is_key_char (dropWhile is_blank (entry_line cmd))"

definition entry_rest :: "string \<Rightarrow> string" where
  "entry_rest cmd = dropWhile is_blank (dropWhile is_key_char (dropWhile is_blank (entry_line cmd)))"

text \<open>
  The key of a line in the words of the specification: the text before the first
  \<^verbatim>\<open>=\<close>, with the blanks around it removed. The numeric keys are listed with the
  lengths that the program passes to \<^verbatim>\<open>strncmp\<close>.
\<close>

definition trim :: "string \<Rightarrow> string" where
  "trim s = rev (dropWhile is_blank (rev (dropWhile is_blank s)))"

definition spec_key :: "string \<Rightarrow> string" where
  "spec_key cmd = trim (takeWhile (\<lambda>c. c \<noteq> CHR ''='') (entry_line cmd))"

definition numeric_keys :: "(string \<times> nat) list" where
  "numeric_keys = [(''bootsize'', 8), (''pagesize'', 8), (''kerneladdr'', 10),
     (''ramdiskaddr'', 11), (''secondaddr'', 10), (''tagsaddr'', 8)]"

text \<open>
  Two image records agree on the file names, the stream, the segments in memory, and the
  magic and the three sizes of the header.
\<close>

definition same_segments :: "t_akbootimg \<Rightarrow> t_akbootimg \<Rightarrow> bool" where
  "same_segments a b \<longleftrightarrow>
     fname a = fname b \<and> kernel_fname a = kernel_fname b \<and> ramdisk_fname a = ramdisk_fname b
     \<and> second_fname a = second_fname b \<and> stream a = stream b
     \<and> kernel a = kernel b \<and> ramdisk a = ramdisk b \<and> second a = second b
     \<and> magic (header a) = magic (header b)
     \<and> kernel_size (header a) = kernel_size (header b)
     \<and> ramdisk_size (header a) = ramdisk_size (header b)
     \<and> second_size (header a) = second_size (header b)"

text \<open>
  Inputs for the evaluation of examples: a header with the defaults of
  \<^verbatim>\<open>new_bootimg\<close>, an image file of a given length that starts with a given header and
  is zero elsewhere, a file system with a kernel, a ramdisk and a second stage, and an
  image record as \<^verbatim>\<open>parse_args\<close> leaves it.
\<close>

definition hdr0 :: boot_img_hdr where
  "hdr0 = \<lparr> magic = ''ANDROID!'', kernel_size = 0, kernel_addr = 0, ramdisk_size = 0,
            ramdisk_addr = 0, second_size = 0, second_addr = 0, tags_addr = 0,
            page_size = 2048, cmdline = replicate 512 NUL, reserved = replicate 56 NUL \<rparr>"

definition sample_image :: "boot_img_hdr \<Rightarrow> nat \<Rightarrow> string" where
  "sample_image h n = android_hdr_bytes h @ replicate (n - 608) NUL"

definition fs0 :: "string \<Rightarrow> string option" where
  "fs0 = [''zImage'' \<mapsto> replicate 3000 (CHR ''k''),
          ''initrd.img'' \<mapsto> replicate 3000 (CHR ''r''),
          ''stage2.img'' \<mapsto> [CHR ''s'']]"

definition img0 :: t_akbootimg where
  "img0 = parse_args_files ''boot.img'' None None None None (new_bootimg android_h)"

text \<open>
  The record for \<^verbatim>\<open>-k zImage\<close> alone, and the one for \<^verbatim>\<open>-k zImage -r initrd.img\<close>.
\<close>

definition imgk :: t_akbootimg where
  "imgk = parse_args_files ''boot.img'' None (Some ''zImage'') None None (new_bootimg android_h)"

definition imgc :: t_akbootimg where
  "imgc = parse_args_files ''boot.img'' None (Some ''zImage'') (Some ''initrd.img'') None
            (new_bootimg android_h)"


text \<open>
  The position of the stream after the last \<^verbatim>\<open>fwrite\<close> of \<^verbatim>\<open>write_bootimg\<close>: the
  end of the padding of the last segment written, or of the padding of the header when no
  segment is written. \<open>last_size\<close> is the size of that segment, and
  \<open>last_padding_partial\<close> says that its padding is less than a page.
\<close>

definition write_end :: "bootimg_h \<Rightarrow> nat \<Rightarrow> t_akbootimg \<Rightarrow> nat" where
  "write_end bh lb img =
     (let h = header img;
          p = page_size h;
          seg = (\<lambda>off sz. off + unat sz + unat (p - sz mod p))
      in if second_size h \<noteq> 0 then seg (unat (write_bootimg_soffset h)) (second_size h)
         else if ramdisk img \<noteq> None then seg (unat (write_bootimg_roffset h)) (ramdisk_size h)
         else if kernel img \<noteq> None
           then seg (sizeof_hdr bh + hdr_padding_len bh lb p) (kernel_size h)
         else sizeof_hdr bh + hdr_padding_len bh lb p)"



text \<open>
  An image file of 16384 bytes with a kernel of 100 bytes (all zero) in page 1 and a
  ramdisk of 3000 bytes \<^verbatim>\<open>R\<close> in page 2, and the image record after \<^verbatim>\<open>-k zImage\<close> and
  \<^verbatim>\<open>read_header\<close> on that file.
\<close>

definition sample_source :: string where
  "sample_source =
     android_hdr_bytes (hdr0\<lparr>kernel_size := 100, ramdisk_size := 3000\<rparr>)
     @ replicate 3488 NUL @ replicate 3000 (CHR ''R'') @ replicate 9288 NUL"

definition img_read :: t_akbootimg where
  "img_read = imgk\<lparr>header := hdr0\<lparr>kernel_size := 100, ramdisk_size := 3000\<rparr>,
                   img_size := 16384,
                   stream := \<lparr>content = sample_source, pos = 608, eof = False,
                               pending = [], is_dev = False\<rparr>\<rparr>"


definition config_page_3000 :: string where
  "config_page_3000 = ''pagesize=3000'' @ [NEWLINE]"

text \<open>
  What is observed of a run that wrote the image: the bytes that the destination has
  after the end of the program, and their number.
\<close>

definition written_bytes :: "outcome \<Rightarrow> string option" where
  "written_bytes out = (case out of Written c \<Rightarrow> Some c | _ \<Rightarrow> None)"

definition written_length :: "outcome \<Rightarrow> nat option" where
  "written_length out = map_option length (written_bytes out)"

section \<open>Properties of the layout arithmetic\<close>

text \<open>
  C1. The claim: the second-stage offset of the extraction path equals the one of the
  assembly path, \<open>(1 + ceil (kernel_size / page_size) + ceil (ramdisk_size / page_size)) *
  page_size\<close>. It fails: for a page size of 2048, a kernel of 3000 bytes and a ramdisk of
  3000 bytes, \<^verbatim>\<open>update_images\<close> and \<^verbatim>\<open>write_bootimg\<close> place the second stage at
  \<open>5 * 2048 = 10240\<close> (two pages each), while \<^verbatim>\<open>extract_second\<close> reads it at
  \<open>4 * 2048 = 8192\<close>, inside the ramdisk. The ramdisk offsets of the two paths agree.
\<close>

theorem extract_second_offset_differs:
  "update_images_soffset (hdr0\<lparr>kernel_size := 3000, ramdisk_size := 3000, second_size := 1\<rparr>) = 10240
   \<and> write_bootimg_soffset (hdr0\<lparr>kernel_size := 3000, ramdisk_size := 3000, second_size := 1\<rparr>) = 10240
   \<and> extract_second_soffset (hdr0\<lparr>kernel_size := 3000, ramdisk_size := 3000, second_size := 1\<rparr>) = 8192
   \<and> extract_ramdisk_roffset (hdr0\<lparr>kernel_size := 3000, ramdisk_size := 3000, second_size := 1\<rparr>)
       = update_images_roffset (hdr0\<lparr>kernel_size := 3000, ramdisk_size := 3000, second_size := 1\<rparr>)"
  by (simp add: update_images_soffset_def write_bootimg_soffset_def extract_second_soffset_def
      extract_ramdisk_roffset_def update_images_roffset_def npages_def hdr0_def)

subsection \<open>The computed total against the layout over the naturals\<close>

lemma unat_npages:
  assumes p: "psize \<noteq> 0" and fit: "unat sz + unat psize - 1 < 2 ^ 32"
  shows "unat (npages psize sz) = spec_pages (unat psize) (unat sz)"
proof -
  have p1: "unat (psize - 1) = unat psize - 1" using p by (rule unat_minus_one)
  have pos: "0 < unat psize" using p by (simp add: unat_gt_0)
  have "unat sz + unat (psize - 1) < 2 ^ LENGTH(32)" using fit p1 pos by simp
  then have "unat (sz + (psize - 1)) = unat sz + unat (psize - 1)"
    by (simp only: unat_add_lem)
  then have "unat (sz + psize - 1) = unat sz + unat psize - 1"
    using p1 pos by (simp add: add_diff_eq)
  then show ?thesis by (simp add: npages_def spec_pages_def unat_div)
qed

lemma spec_pages_covers: "0 < p \<Longrightarrow> sz \<le> spec_pages p sz * p"
proof -
  assume p: "0 < p"
  have "sz + p - 1 = (sz + p - 1) div p * p + (sz + p - 1) mod p" by simp
  moreover have "(sz + p - 1) mod p < p" using p by simp
  ultimately have "sz + p - 1 < (sz + p - 1) div p * p + p" by linarith
  then show ?thesis using p by (simp add: spec_pages_def)
qed

lemma spec_pages_mono: "a \<le> b \<Longrightarrow> spec_pages p a \<le> spec_pages p b"
  by (simp add: spec_pages_def div_le_mono)

lemma spec_total_mono:
  "k \<le> k' \<Longrightarrow> r \<le> r' \<Longrightarrow> s \<le> s' \<Longrightarrow> spec_total p k r s \<le> spec_total p k' r' s'"
  unfolding spec_total_def
  by (intro mult_le_mono1 add_mono spec_pages_mono order_refl)

lemma spec_total_bounds:
  assumes p: "0 < p"
  shows "p + k \<le> spec_total p k r s" "p + r \<le> spec_total p k r s" "p + s \<le> spec_total p k r s"
    "1 + spec_pages p k + spec_pages p r + spec_pages p s \<le> spec_total p k r s"
proof -
  have k: "k \<le> spec_pages p k * p" and r: "r \<le> spec_pages p r * p" and s: "s \<le> spec_pages p s * p"
    using p by (rule spec_pages_covers)+
  have e: "spec_total p k r s = p + spec_pages p k * p + spec_pages p r * p + spec_pages p s * p"
    by (simp add: spec_total_def algebra_simps)
  show "p + k \<le> spec_total p k r s" using k e by linarith
  show "p + r \<le> spec_total p k r s" using r e by linarith
  show "p + s \<le> spec_total p k r s" using s e by linarith
  have "(1 + spec_pages p k + spec_pages p r + spec_pages p s) * 1
      \<le> (1 + spec_pages p k + spec_pages p r + spec_pages p s) * p"
    using p by (intro mult_le_mono2) simp
  then show "1 + spec_pages p k + spec_pages p r + spec_pages p s \<le> spec_total p k r s"
    unfolding spec_total_def by simp
qed

lemma unat_page_counts:
  assumes p: "psize \<noteq> 0"
    and fit: "spec_total (unat psize) (unat ksz) (unat rsz) (unat ssz) < 2 ^ 32"
  shows "unat (npages psize ksz) = spec_pages (unat psize) (unat ksz)"
    and "unat (npages psize rsz) = spec_pages (unat psize) (unat rsz)"
    and "unat (npages psize ssz) = spec_pages (unat psize) (unat ssz)"
proof -
  let ?p = "unat psize" and ?k = "unat ksz" and ?r = "unat rsz" and ?s = "unat ssz"
  have pos: "0 < ?p" using p by (simp add: unat_gt_0)
  note b = spec_total_bounds [OF pos, where k = ?k and r = ?r and s = ?s]
  show "unat (npages psize ksz) = spec_pages ?p ?k"
    using b(1) fit pos by (intro unat_npages [OF p]) linarith
  show "unat (npages psize rsz) = spec_pages ?p ?r"
    using b(2) fit pos by (intro unat_npages [OF p]) linarith
  show "unat (npages psize ssz) = spec_pages ?p ?s"
    using b(3) fit pos by (intro unat_npages [OF p]) linarith
qed

lemma unat_total_size:
  assumes p: "psize \<noteq> 0"
    and fit: "spec_total (unat psize) (unat ksz) (unat rsz) (unat ssz) < 2 ^ 32"
  shows "unat (total_size psize ksz rsz ssz)
    = spec_total (unat psize) (unat ksz) (unat rsz) (unat ssz)"
proof -
  let ?p = "unat psize" and ?k = "unat ksz" and ?r = "unat rsz" and ?s = "unat ssz"
  have pos: "0 < ?p" using p by (simp add: unat_gt_0)
  note b = spec_total_bounds [OF pos, where k = ?k and r = ?r and s = ?s]
  note n = unat_page_counts(1) [OF p fit] and m = unat_page_counts(2) [OF p fit]
    and o = unat_page_counts(3) [OF p fit]
  have cnt: "1 + spec_pages ?p ?k + spec_pages ?p ?r + spec_pages ?p ?s < 2 ^ 32"
    using b(4) fit by linarith
  have s1: "unat (1 + npages psize ksz) = 1 + spec_pages ?p ?k"
    using cnt n by (simp add: unat_add_lem [THEN iffD1])
  have s2: "unat (1 + npages psize ksz + npages psize rsz)
      = 1 + spec_pages ?p ?k + spec_pages ?p ?r"
    using cnt s1 m by (simp add: unat_add_lem [THEN iffD1])
  have s3: "unat (1 + npages psize ksz + npages psize rsz + npages psize ssz)
      = 1 + spec_pages ?p ?k + spec_pages ?p ?r + spec_pages ?p ?s"
    using cnt s2 o by (simp add: unat_add_lem [THEN iffD1])
  have "unat ((1 + npages psize ksz + npages psize rsz + npages psize ssz) * psize)
      = unat (1 + npages psize ksz + npages psize rsz + npages psize ssz) * ?p"
    using fit s3 by (simp add: unat_mult_lem [THEN iffD1] spec_total_def)
  then show ?thesis by (simp add: total_size_def s3 spec_total_def)
qed

text \<open>
  C6. The claim: for a page size above 0 the computed total is a multiple of the page
  size and strictly increases with each segment size. Both parts fail. A kernel of 1 byte
  and one of 2 bytes give the same total, since both take one page. And the total is
  computed modulo \<open>2 ^ 32\<close>: with a page size of 3, a kernel of 4294967290 bytes and a
  ramdisk of 3 bytes it is 2, which is no multiple of 3.
\<close>

theorem total_size_not_strict_counterexample:
  "(1::u32) < 2 \<and> \<not> total_size 2048 1 0 0 < total_size 2048 2 0 0
   \<and> \<not> unat (3::u32) dvd unat (total_size 3 4294967290 3 0)"
  by (simp add: total_size_def npages_def)

text \<open>
  C6, amended. When the page size is not 0 and the layout of the larger sizes stays below
  \<open>2 ^ 32\<close>, the computed total is the total of the specification, it is a multiple of
  the page size, and it does not decrease when segment sizes grow.
\<close>

theorem total_size_multiple_and_monotone:
  assumes "psize \<noteq> 0"
    and "k \<le> k'" and "r \<le> r'" and "s \<le> s'"
    and "spec_total (unat psize) (unat k') (unat r') (unat s') < 2 ^ 32"
  shows "unat (total_size psize k r s) = spec_total (unat psize) (unat k) (unat r) (unat s)
    \<and> unat psize dvd unat (total_size psize k r s)
    \<and> total_size psize k r s \<le> total_size psize k' r' s'"
proof -
  have le: "spec_total (unat psize) (unat k) (unat r) (unat s)
      \<le> spec_total (unat psize) (unat k') (unat r') (unat s')"
    using assms(2-4) by (intro spec_total_mono) (simp_all add: word_le_nat_alt)
  then have fit: "spec_total (unat psize) (unat k) (unat r) (unat s) < 2 ^ 32"
    using assms(5) by linarith
  have a: "unat (total_size psize k r s) = spec_total (unat psize) (unat k) (unat r) (unat s)"
    using assms(1) fit by (rule unat_total_size)
  have b: "unat (total_size psize k' r' s')
      = spec_total (unat psize) (unat k') (unat r') (unat s')"
    using assms(1,5) by (rule unat_total_size)
  have c: "unat psize dvd unat (total_size psize k r s)"
    unfolding a spec_total_def by simp
  show ?thesis using a b c le by (simp add: word_le_nat_alt)
qed

theorem total_size_multiple_and_monotone_witness:
  "(2048::u32) \<noteq> 0 \<and> (5000::u32) \<le> 5001 \<and> spec_total 2048 5001 3000 0 < 2 ^ 32
   \<and> unat (total_size 2048 5000 3000 0) = 12288
   \<and> (2048::nat) dvd unat (total_size 2048 5000 3000 0)
   \<and> total_size 2048 5000 3000 0 \<le> total_size 2048 5001 3000 0"
  using total_size_multiple_and_monotone [of 2048 5000 5001 3000 3000 0 0]
  by (simp add: spec_total_def spec_pages_def)

subsection \<open>Header validation\<close>

lemma c_str_no_nul: "NUL \<notin> set s \<Longrightarrow> c_str s = s"
  by (auto simp: c_str_def)

lemma strncmp_eq_array:
  assumes t: "length tag = n" and nn: "NUL \<notin> set tag" and m: "length m = n"
  shows "strncmp_eq m tag n \<longleftrightarrow> m = tag"
proof
  assume "m = tag"
  then show "strncmp_eq m tag n" by (simp add: strncmp_eq_def)
next
  assume "strncmp_eq m tag n"
  then have eq: "take n (c_str m) = tag"
    using t nn by (simp add: strncmp_eq_def c_str_no_nul)
  have "length (take n (c_str m)) = n" using eq t by simp
  then have "n \<le> length (c_str m)" by simp
  moreover have "length (c_str m) \<le> length m"
    unfolding c_str_def by (rule length_takeWhile_le)
  ultimately have len: "length (c_str m) = length m" using m by simp
  have "c_str m = take (length (c_str m)) m"
    unfolding c_str_def by (rule takeWhile_eq_take)
  then have "c_str m = m" using len by simp
  then show "m = tag" using eq m by simp
qed

text \<open>
  C5, with the total as the program computes it. With a magic literal of
  \<^verbatim>\<open>BOOT_MAGIC_SIZE\<close> bytes without NUL and a magic field of that size,
  \<^verbatim>\<open>check_boot_img_header\<close> returns non-zero exactly when the magic differs from the
  literal, or the kernel size is 0, or the page size is 0, or the total computed in 32-bit
  unsigned arithmetic exceeds the size of the image. That total is the total of the layout,
  one page for the header and the pages of the three segments, whenever the layout is
  below \<open>2 ^ 32\<close> bytes; so for such headers the function fails exactly when the magic
  differs, the kernel size is 0 or the layout exceeds the size of the image. A ramdisk
  size of 0 alone only produces the message: when the other checks pass the result is 0.
\<close>

theorem check_boot_img_header_fails_iff:
  assumes "length (BOOT_MAGIC bh) = BOOT_MAGIC_SIZE bh"
    and "NUL \<notin> set (BOOT_MAGIC bh)"
    and "length (magic (header img)) = BOOT_MAGIC_SIZE bh"
  shows "(snd (check_boot_img_header bh img) \<noteq> 0 \<longleftrightarrow>
            magic (header img) \<noteq> BOOT_MAGIC bh
          \<or> kernel_size (header img) = 0
          \<or> page_size (header img) = 0
          \<or> img_size img < hdr_total_size (header img))
    \<and> (page_size (header img) \<noteq> 0
        \<and> spec_total (unat (page_size (header img))) (unat (kernel_size (header img)))
              (unat (ramdisk_size (header img))) (unat (second_size (header img))) < 2 ^ 32
        \<longrightarrow> (snd (check_boot_img_header bh img) \<noteq> 0 \<longleftrightarrow>
               magic (header img) \<noteq> BOOT_MAGIC bh
             \<or> kernel_size (header img) = 0
             \<or> unat (img_size img)
                 < spec_total (unat (page_size (header img))) (unat (kernel_size (header img)))
                     (unat (ramdisk_size (header img))) (unat (second_size (header img)))))
    \<and> (ramdisk_size (header img) = 0 \<and> snd (check_boot_img_header bh img) = 0
          \<longrightarrow> check_boot_img_header bh img = ([RamdiskSizeNull], 0))
    \<and> (snd (check_boot_img_header bh img) = 0 \<or> snd (check_boot_img_header bh img) = 1)"
proof -
  have a: "snd (check_boot_img_header bh img) \<noteq> 0 \<longleftrightarrow>
            magic (header img) \<noteq> BOOT_MAGIC bh
          \<or> kernel_size (header img) = 0
          \<or> page_size (header img) = 0
          \<or> img_size img < hdr_total_size (header img)"
    using strncmp_eq_array [OF assms]
    by (simp add: check_boot_img_header_def hdr_total_size_def Let_def)
  have b: "ramdisk_size (header img) = 0 \<and> snd (check_boot_img_header bh img) = 0
          \<longrightarrow> check_boot_img_header bh img = ([RamdiskSizeNull], 0)"
    using strncmp_eq_array [OF assms]
    by (simp add: check_boot_img_header_def hdr_total_size_def Let_def)
  have c: "snd (check_boot_img_header bh img) = 0 \<or> snd (check_boot_img_header bh img) = 1"
    by (simp add: check_boot_img_header_def hdr_total_size_def Let_def)
  have d: "(img_size img < hdr_total_size (header img)) \<longleftrightarrow>
      unat (img_size img)
        < spec_total (unat (page_size (header img))) (unat (kernel_size (header img)))
            (unat (ramdisk_size (header img))) (unat (second_size (header img)))"
    if "page_size (header img) \<noteq> 0"
      and "spec_total (unat (page_size (header img))) (unat (kernel_size (header img)))
              (unat (ramdisk_size (header img))) (unat (second_size (header img))) < 2 ^ 32"
    using unat_total_size [OF that] by (simp add: hdr_total_size_def word_less_nat_alt)
  show ?thesis using a b c d by blast
qed

text \<open>
  C5, as stated with the total size of the layout, fails: for a kernel size of 4294967295
  and a page size of 2048 the layout takes 4294969344 bytes, the sum
  \<^verbatim>\<open>kernel_size + page_size - 1\<close> wraps to 2046, the computed total is 2048, and the
  header passes in an image of 4096 bytes.
\<close>

theorem check_accepts_wrapped_layout_counterexample:
  "snd (check_boot_img_header android_h
          (img0\<lparr>header := hdr0\<lparr>kernel_size := 4294967295\<rparr>, img_size := 4096\<rparr>)) = 0
   \<and> spec_total 2048 4294967295 0 0 = 4294969344
   \<and> unat (hdr_total_size (hdr0\<lparr>kernel_size := 4294967295\<rparr>)) = 2048"
  by (simp add: check_boot_img_header_def android_h_def hdr0_def strncmp_eq_def c_str_def
      hdr_total_size_def total_size_def npages_def spec_total_def spec_pages_def Let_def)

text \<open>
  The theorem at a kernel of 3000 bytes and a page size of 2048, a layout of 6144 bytes: the
  header passes in an image of 8192 bytes and fails in one of 4096 bytes.
\<close>

theorem check_boot_img_header_fails_iff_witness:
  "length (BOOT_MAGIC android_h) = BOOT_MAGIC_SIZE android_h
   \<and> NUL \<notin> set (BOOT_MAGIC android_h)
   \<and> length (magic (header (img0\<lparr>header := (header img0)\<lparr>kernel_size := 3000\<rparr>, img_size := 8192\<rparr>)))
       = BOOT_MAGIC_SIZE android_h
   \<and> spec_total 2048 3000 0 0 = 6144
   \<and> check_boot_img_header android_h
        (img0\<lparr>header := (header img0)\<lparr>kernel_size := 3000\<rparr>, img_size := 8192\<rparr>)
       = ([RamdiskSizeNull], 0)
   \<and> snd (check_boot_img_header android_h
        (img0\<lparr>header := (header img0)\<lparr>kernel_size := 3000\<rparr>, img_size := 4096\<rparr>)) \<noteq> 0"
  using check_boot_img_header_fails_iff [of android_h
      "img0\<lparr>header := (header img0)\<lparr>kernel_size := 3000\<rparr>, img_size := 8192\<rparr>"]
    check_boot_img_header_fails_iff [of android_h
      "img0\<lparr>header := (header img0)\<lparr>kernel_size := 3000\<rparr>, img_size := 4096\<rparr>"]
  by (simp add: android_h_def img0_def new_bootimg_def parse_args_files_def hdr_total_size_def
      total_size_def npages_def spec_total_def spec_pages_def)

subsection \<open>Configuration lines\<close>

lemma nul_c_str: "NUL \<notin> set (c_str s)"
  unfolding c_str_def by (auto dest: set_takeWhileD)

lemma nul_takeWhile: "NUL \<notin> set s \<Longrightarrow> NUL \<notin> set (takeWhile P s)"
  by (auto dest: set_takeWhileD)

lemma nul_dropWhile: "NUL \<notin> set s \<Longrightarrow> NUL \<notin> set (dropWhile P s)"
  by (auto dest: set_dropWhileD)

lemma strspn_drop: "NUL \<notin> set s \<Longrightarrow> drop (strspn s a) s = dropWhile (\<lambda>c. c \<in> set a) s"
  by (simp add: strspn_def c_str_no_nul dropWhile_eq_drop)

lemma strcspn_drop: "NUL \<notin> set s \<Longrightarrow> drop (strcspn s r) s = dropWhile (\<lambda>c. c \<notin> set r) s"
  by (simp add: strcspn_def c_str_no_nul dropWhile_eq_drop)

lemma strcspn_take: "NUL \<notin> set s \<Longrightarrow> take (strcspn s r) s = takeWhile (\<lambda>c. c \<notin> set r) s"
  by (simp add: strcspn_def c_str_no_nul takeWhile_eq_take [symmetric])

lemma blank_set: "(\<lambda>c. c \<in> set [CHR '' '', TAB]) = is_blank"
  by (auto simp: is_blank_def fun_eq_iff)

lemma key_char_set: "(\<lambda>c. c \<notin> set [CHR '' '', CHR ''='', TAB]) = is_key_char"
  by (auto simp: is_key_char_def fun_eq_iff)

lemma strspn_blank:
  "NUL \<notin> set s \<Longrightarrow> drop (strspn s [CHR '' '', TAB]) s = dropWhile is_blank s"
  using strspn_drop [of s "[CHR '' '', TAB]"] unfolding blank_set by simp

lemma strcspn_key_drop:
  "NUL \<notin> set s \<Longrightarrow> drop (strcspn s [CHR '' '', CHR ''='', TAB]) s = dropWhile is_key_char s"
  using strcspn_drop [of s "[CHR '' '', CHR ''='', TAB]"] unfolding key_char_set by simp

lemma strcspn_key_take:
  "NUL \<notin> set s \<Longrightarrow> take (strcspn s [CHR '' '', CHR ''='', TAB]) s = takeWhile is_key_char s"
  using strcspn_take [of s "[CHR '' '', CHR ''='', TAB]"] unfolding key_char_set by simp

lemma update_header_entry_unfold:
  "update_header_entry bh lb img cmd =
     (case entry_rest cmd of
        [] \<Rightarrow> Inl (BadConfigEntry (dropWhile is_blank (entry_line cmd)))
      | c # p4 \<Rightarrow>
          if c \<noteq> CHR ''='' then Inl (BadConfigEntry (dropWhile is_blank (entry_line cmd)))
          else
            let val = dropWhile is_blank p4;
                valuenum = (of_nat (strtoul lb val) :: u32);
                h = header img;
                token = entry_token cmd
            in if token = ''cmdline'' then
                 (let len = length val mod 2 ^ 32
                  in if BOOT_ARGS_SIZE bh \<le> len then Inl (CmdlineTooLong len)
                     else if BOOT_ARGS_SIZE bh \<le> length val then Inl Undefined
                     else Inr (img\<lparr>header := h\<lparr>cmdline :=
                            val @ replicate (BOOT_ARGS_SIZE bh - length val) NUL\<rparr>\<rparr>))
               else if take 8 token = ''bootsize'' then
                 (if is_blkdev img \<and> img_size img \<noteq> valuenum then Inl BlkdevResize
                  else Inr (img\<lparr>img_size := valuenum\<rparr>))
               else if take 8 token = ''pagesize'' then
                 Inr (img\<lparr>header := h\<lparr>page_size := valuenum\<rparr>\<rparr>)
               else if take 10 token = ''kerneladdr'' then
                 Inr (img\<lparr>header := h\<lparr>kernel_addr := valuenum\<rparr>\<rparr>)
               else if take 11 token = ''ramdiskaddr'' then
                 Inr (img\<lparr>header := h\<lparr>ramdisk_addr := valuenum\<rparr>\<rparr>)
               else if take 10 token = ''secondaddr'' then
                 Inr (img\<lparr>header := h\<lparr>second_addr := valuenum\<rparr>\<rparr>)
               else if take 8 token = ''tagsaddr'' then
                 Inr (img\<lparr>header := h\<lparr>tags_addr := valuenum\<rparr>\<rparr>)
               else Inl (BadConfigEntry token))"
proof -
  define line where "line = takeWhile (\<lambda>c. c \<noteq> NEWLINE) (c_str cmd)"
  have n0: "NUL \<notin> set line"
    unfolding line_def by (intro nul_takeWhile nul_c_str)
  have n1: "NUL \<notin> set (dropWhile is_blank line)" using n0 by (rule nul_dropWhile)
  have n2: "NUL \<notin> set (dropWhile is_key_char (dropWhile is_blank line))"
    using n1 by (rule nul_dropWhile)
  have nt: "NUL \<notin> set (takeWhile is_key_char (dropWhile is_blank line))"
    using n1 by (rule nul_takeWhile)
  note e1 = strspn_blank [OF n0] and e2 = strcspn_key_take [OF n1]
    and e3 = strcspn_key_drop [OF n1] and e4 = strspn_blank [OF n2]
  have e5: "drop (strspn p4 [CHR '' '', TAB]) p4 = dropWhile is_blank p4"
    if a: "dropWhile is_blank (dropWhile is_key_char (dropWhile is_blank line)) = CHR ''='' # p4"
    for p4
  proof -
    have "NUL \<notin> set (dropWhile is_blank (dropWhile is_key_char (dropWhile is_blank line)))"
      using n2 by (rule nul_dropWhile)
    then have "NUL \<notin> set p4" unfolding a by simp
    then show ?thesis by (rule strspn_blank)
  qed
  let ?T = "takeWhile is_key_char (dropWhile is_blank line)"
  have c1: "strncmp_eq ?T lit n = (take n ?T = take n lit)" if "NUL \<notin> set lit" for n lit
    using nt that by (simp add: strncmp_eq_def c_str_no_nul)
  have lit: "c_str ''cmdline'' = ''cmdline''" by (simp add: c_str_def)
  have c0: "strcmp_eq ?T ''cmdline'' = (?T = ''cmdline'')"
    by (simp add: strcmp_eq_def c_str_no_nul [OF nt] lit)
  have k1: "strncmp_eq ?T ''bootsize'' 8 = (take 8 ?T = ''bootsize'')"
    using c1 [of "''bootsize''" 8] by simp
  have k2: "strncmp_eq ?T ''pagesize'' 8 = (take 8 ?T = ''pagesize'')"
    using c1 [of "''pagesize''" 8] by simp
  have k3: "strncmp_eq ?T ''kerneladdr'' 10 = (take 10 ?T = ''kerneladdr'')"
    using c1 [of "''kerneladdr''" 10] by simp
  have k4: "strncmp_eq ?T ''ramdiskaddr'' 11 = (take 11 ?T = ''ramdiskaddr'')"
    using c1 [of "''ramdiskaddr''" 11] by simp
  have k5: "strncmp_eq ?T ''secondaddr'' 10 = (take 10 ?T = ''secondaddr'')"
    using c1 [of "''secondaddr''" 10] by simp
  have k6: "strncmp_eq ?T ''tagsaddr'' 8 = (take 8 ?T = ''tagsaddr'')"
    using c1 [of "''tagsaddr''" 8] by simp
  show ?thesis
  proof (cases "dropWhile is_blank (dropWhile is_key_char (dropWhile is_blank line))")
    case Nil
    then show ?thesis
      unfolding update_header_entry_def entry_rest_def entry_token_def entry_line_def
          line_def [symmetric]
      by (simp only: Let_def e1 e2 e3 e4 list.case)
  next
    case (Cons c p4)
    show ?thesis
    proof (cases "c = CHR ''=''")
      case False
      with Cons show ?thesis
        unfolding update_header_entry_def entry_rest_def entry_token_def entry_line_def
          line_def [symmetric]
        by (simp only: Let_def e1 e2 e3 e4 list.case simp_thms if_True if_False)
    next
      case True
      note v = e5 [OF Cons [unfolded True]]
      show ?thesis
        unfolding update_header_entry_def entry_rest_def entry_token_def entry_line_def
          line_def [symmetric]
        by (simp only: Let_def e1 e2 e3 e4 Cons True list.case v c0 k1 k2 k3 k4 k5 k6
            not_True_eq_False if_False simp_thms)
    qed
  qed
qed

lemma trim_sandwich:
  assumes A: "\<forall>x\<in>set A. is_blank x" and B: "\<forall>x\<in>set B. is_blank x"
    and T: "\<forall>x\<in>set T. \<not> is_blank x"
  shows "trim (A @ T @ B) = T"
proof -
  have 1: "dropWhile is_blank (A @ T @ B) = dropWhile is_blank (T @ B)"
    using A by (simp add: dropWhile_append)
  show ?thesis
  proof (cases T)
    case Nil
    have "\<forall>x\<in>set (A @ B). is_blank x" using A B by auto
    then have d: "dropWhile is_blank (A @ B) = []" by (simp only: dropWhile_eq_Nil_conv)
    have "trim (A @ B) = []" by (simp only: trim_def d rev.simps dropWhile.simps)
    then show ?thesis unfolding Nil by simp
  next
    case (Cons t ts)
    then have "\<not> is_blank t" using T by simp
    then have 2: "dropWhile is_blank (T @ B) = T @ B" unfolding Cons by simp
    have "\<forall>x\<in>set (rev B). is_blank x" using B by simp
    then have 3: "dropWhile is_blank (rev B @ rev T) = dropWhile is_blank (rev T)"
      by (simp add: dropWhile_append)
    have "\<And>x. x \<in> set (rev T) \<Longrightarrow> \<not> is_blank x" using T by simp
    then have 4: "dropWhile is_blank (rev T) = rev T" by (rule dropWhile_id)
    show ?thesis unfolding trim_def 1 2 by (simp only: rev_append 3 4 rev_rev_ident)
  qed
qed

lemma entry_line_split:
  "entry_line cmd = takeWhile is_blank (entry_line cmd) @ entry_token cmd
     @ takeWhile is_blank (dropWhile is_key_char (dropWhile is_blank (entry_line cmd)))
     @ entry_rest cmd"
  by (simp add: entry_token_def entry_rest_def)

lemma spec_key_token:
  assumes "entry_rest cmd = CHR ''='' # p4"
  shows "spec_key cmd = entry_token cmd"
proof -
  let ?A = "takeWhile is_blank (entry_line cmd)"
  let ?B = "takeWhile is_blank (dropWhile is_key_char (dropWhile is_blank (entry_line cmd)))"
  let ?T = "entry_token cmd"
  have A: "\<forall>x\<in>set ?A. is_blank x" by (auto dest: set_takeWhileD)
  have B: "\<forall>x\<in>set ?B. is_blank x" by (auto dest: set_takeWhileD)
  have T: "\<forall>x\<in>set ?T. is_key_char x" unfolding entry_token_def by (auto dest: set_takeWhileD)
  then have T': "\<forall>x\<in>set ?T. \<not> is_blank x" by (auto simp: is_key_char_def is_blank_def)
  have nb: "x \<noteq> CHR ''=''" if "is_blank x" for x using that by (auto simp: is_blank_def)
  have nk: "x \<noteq> CHR ''=''" if "is_key_char x" for x using that by (simp add: is_key_char_def)
  have ne: "\<forall>x\<in>set (?A @ ?T @ ?B). x \<noteq> CHR ''=''"
    unfolding set_append using A B T nb nk by blast
  have "entry_line cmd = (?A @ ?T @ ?B) @ CHR ''='' # p4"
    unfolding append_assoc by (rule entry_line_split [of cmd, unfolded assms])
  then have "takeWhile (\<lambda>c. c \<noteq> CHR ''='') (entry_line cmd)
      = takeWhile (\<lambda>c. c \<noteq> CHR ''='') ((?A @ ?T @ ?B) @ CHR ''='' # p4)"
    by (rule arg_cong)
  also have "\<dots> = takeWhile (\<lambda>c. c \<noteq> CHR ''='') (?A @ ?T @ ?B)"
    by (rule takeWhile_tail) simp
  also have "\<dots> = ?A @ ?T @ ?B" using ne by (simp only: takeWhile_eq_all_conv)
  finally show ?thesis unfolding spec_key_def by (simp only: trim_sandwich [OF A B T'])
qed

lemma set_dropWhile_subset: "set (dropWhile P xs) \<subseteq> set xs"
  by (auto dest: set_dropWhileD)

lemma entry_rest_in_line: "set (entry_rest cmd) \<subseteq> set (entry_line cmd)"
  unfolding entry_rest_def
  by (intro order_trans [OF set_dropWhile_subset] set_dropWhile_subset)

text \<open>
  C7, amended. A line without \<^verbatim>\<open>=\<close>, or whose key is not \<^verbatim>\<open>cmdline\<close> and does not
  begin with one of \<^verbatim>\<open>bootsize\<close>, \<^verbatim>\<open>pagesize\<close>, \<^verbatim>\<open>kerneladdr\<close>,
  \<^verbatim>\<open>ramdiskaddr\<close>, \<^verbatim>\<open>secondaddr\<close>, \<^verbatim>\<open>tagsaddr\<close>, is rejected as a bad config
  entry. The key is the text before the first \<^verbatim>\<open>=\<close> with blanks trimmed.
\<close>

theorem unknown_key_is_bad_config_entry:
  assumes "CHR ''='' \<notin> set (entry_line cmd)
     \<or> (spec_key cmd \<noteq> ''cmdline'' \<and> (\<forall>(k, n)\<in>set numeric_keys. take n (spec_key cmd) \<noteq> k))"
  shows "\<exists>t. update_header_entry bh lb img cmd = Inl (BadConfigEntry t)"
proof (cases "entry_rest cmd")
  case Nil
  then show ?thesis by (simp add: update_header_entry_unfold)
next
  case (Cons c p4)
  show ?thesis
  proof (cases "c = CHR ''=''")
    case False
    with Cons show ?thesis by (simp add: update_header_entry_unfold)
  next
    case True
    have "CHR ''='' \<in> set (entry_rest cmd)" unfolding Cons True by simp
    then have "CHR ''='' \<in> set (entry_line cmd)"
      using entry_rest_in_line [of cmd] by (rule rev_subsetD)
    with assms have k0: "spec_key cmd \<noteq> ''cmdline''
      \<and> (\<forall>(k, n)\<in>set numeric_keys. take n (spec_key cmd) \<noteq> k)" by simp
    then have k: "spec_key cmd \<noteq> ''cmdline''"
      "\<forall>(k, n)\<in>set numeric_keys. take n (spec_key cmd) \<noteq> k" by simp_all
    have t: "spec_key cmd = entry_token cmd" using Cons True by (intro spec_key_token) simp
    have f: "(entry_token cmd = ''cmdline'') = False"
      "(take 8 (entry_token cmd) = ''bootsize'') = False"
      "(take 8 (entry_token cmd) = ''pagesize'') = False"
      "(take 10 (entry_token cmd) = ''kerneladdr'') = False"
      "(take 11 (entry_token cmd) = ''ramdiskaddr'') = False"
      "(take 10 (entry_token cmd) = ''secondaddr'') = False"
      "(take 8 (entry_token cmd) = ''tagsaddr'') = False"
      using k unfolding t by (simp_all add: numeric_keys_def)
    have "update_header_entry bh lb img cmd = Inl (BadConfigEntry (entry_token cmd))"
      by (simp only: update_header_entry_unfold Cons True list.case Let_def f if_False
          simp_thms)
    then show ?thesis by blast
  qed
qed

subsection \<open>The configuration round trip\<close>

lemma hex_char_cases:
  "\<forall>d\<in>set [0..<16]. digit_val (hex_char d) = Some d \<and> hex_char d \<in> set ''0123456789abcdef''"
  by (simp add: upt_rec hex_char_def digit_val_def)

lemma digit_val_hex_char: "d < 16 \<Longrightarrow> digit_val (hex_char d) = Some d"
  using hex_char_cases by simp

lemma hex_char_in: "d < 16 \<Longrightarrow> hex_char d \<in> set ''0123456789abcdef''"
  using hex_char_cases by simp

lemma hex_digits_set: "set (hex_digits n) \<subseteq> set ''0123456789abcdef''"
proof (induction n rule: hex_digits.induct)
  case (1 n)
  show ?case
  proof (cases "n < 16")
    case True
    then show ?thesis using hex_char_in [of n] by (subst hex_digits.simps) simp
  next
    case False
    have "n mod 16 < 16" by simp
    then have "hex_char (n mod 16) \<in> set ''0123456789abcdef''" by (rule hex_char_in)
    then show ?thesis using False 1 by (subst hex_digits.simps) simp
  qed
qed

lemma strtoul_digits_hex:
  "strtoul_digits 16 acc (hex_digits n @ rest)
     = strtoul_digits 16 (acc * 16 ^ length (hex_digits n) + n) rest"
proof (induction n arbitrary: acc rest rule: hex_digits.induct)
  case (1 n)
  show ?case
  proof (cases "n < 16")
    case True
    then show ?thesis
      by (subst (1 2) hex_digits.simps) (simp add: digit_val_hex_char)
  next
    case False
    have m: "n mod 16 < 16" by simp
    have "strtoul_digits 16 acc (hex_digits n @ rest)
        = strtoul_digits 16 acc (hex_digits (n div 16) @ (hex_char (n mod 16) # rest))"
      using False by (subst hex_digits.simps) simp
    also have "\<dots> = strtoul_digits 16 (acc * 16 ^ length (hex_digits (n div 16)) + n div 16)
        (hex_char (n mod 16) # rest)"
      using False by (rule 1)
    also have "\<dots> = strtoul_digits 16
        ((acc * 16 ^ length (hex_digits (n div 16)) + n div 16) * 16 + n mod 16) rest"
      using m by (simp add: digit_val_hex_char)
    also have "(acc * 16 ^ length (hex_digits (n div 16)) + n div 16) * 16 + n mod 16
        = acc * 16 ^ length (hex_digits n) + n"
      using False by (subst (2) hex_digits.simps) (simp add: algebra_simps)
    finally show ?thesis .
  qed
qed

lemma hex_digits_no_nul: "NUL \<notin> set (hex_digits n)"
  using hex_digits_set [of n] by auto

lemma strtoul_hex:
  assumes "n < 2 ^ lb"
  shows "strtoul lb (''0x'' @ hex_digits n) = n"
proof -
  have cs: "c_str (''0x'' @ hex_digits n) = ''0x'' @ hex_digits n"
    by (rule c_str_no_nul) (simp add: hex_digits_no_nul)
  have d: "strtoul_digits 16 0 (hex_digits n) = n"
    using strtoul_digits_hex [of 0 n "[]"] by simp
  show ?thesis
    unfolding strtoul_def cs using assms
    by (simp add: isspace_def strtoul_sign_def strtoul_base_def d)
qed

lemma strtoul_hex_Cons: "n < 2 ^ lb \<Longrightarrow> strtoul lb (CHR ''0'' # CHR ''x'' # hex_digits n) = n"
  using strtoul_hex [of n lb] by simp

lemma hex_digits_no_newline: "NEWLINE \<notin> set (hex_digits n)"
  using hex_digits_set [of n] by auto

lemma entry_line_terminated:
  assumes "NUL \<notin> set s" and "NEWLINE \<notin> set s"
  shows "entry_line (s @ [NEWLINE]) = s"
proof -
  have "NUL \<notin> set (s @ [NEWLINE])" using assms by simp
  then have "c_str (s @ [NEWLINE]) = s @ [NEWLINE]" by (rule c_str_no_nul)
  moreover have "takeWhile (\<lambda>c. c \<noteq> NEWLINE) (s @ [NEWLINE]) = s"
    using assms(2) by (induction s) auto
  ultimately show ?thesis by (simp add: entry_line_def)
qed

lemma entry_line_hex:
  assumes "NUL \<notin> set pre" and "NEWLINE \<notin> set pre"
  shows "entry_line (pre @ hex_digits n @ [NEWLINE]) = pre @ hex_digits n"
  using entry_line_terminated [of "pre @ hex_digits n"] assms
  by (simp add: hex_digits_no_nul hex_digits_no_newline)

lemma pagesize_line:
  assumes "n < 2 ^ lb"
  shows "update_header_entry bh lb img (''pagesize = 0x'' @ hex_digits n @ [NEWLINE])
    = Inr (img\<lparr>header := (header img)\<lparr>page_size := of_nat n\<rparr>\<rparr>)"
proof -
  have l: "entry_line (''pagesize = 0x'' @ hex_digits n @ [NEWLINE]) = ''pagesize = 0x'' @ hex_digits n"
    by (rule entry_line_hex) simp_all
  have t: "entry_token (''pagesize = 0x'' @ hex_digits n @ [NEWLINE]) = ''pagesize''"
    unfolding entry_token_def l by (simp add: is_blank_def is_key_char_def)
  have r: "entry_rest (''pagesize = 0x'' @ hex_digits n @ [NEWLINE]) = ''= 0x'' @ hex_digits n"
    unfolding entry_rest_def l by (simp add: is_blank_def is_key_char_def)
  show ?thesis
    unfolding update_header_entry_unfold t r using assms
    by (simp add: is_blank_def strtoul_hex_Cons)
qed

lemma kerneladdr_line:
  assumes "n < 2 ^ lb"
  shows "update_header_entry bh lb img (''kerneladdr = 0x'' @ hex_digits n @ [NEWLINE])
    = Inr (img\<lparr>header := (header img)\<lparr>kernel_addr := of_nat n\<rparr>\<rparr>)"
proof -
  have l: "entry_line (''kerneladdr = 0x'' @ hex_digits n @ [NEWLINE]) = ''kerneladdr = 0x'' @ hex_digits n"
    by (rule entry_line_hex) simp_all
  have t: "entry_token (''kerneladdr = 0x'' @ hex_digits n @ [NEWLINE]) = ''kerneladdr''"
    unfolding entry_token_def l by (simp add: is_blank_def is_key_char_def)
  have r: "entry_rest (''kerneladdr = 0x'' @ hex_digits n @ [NEWLINE]) = ''= 0x'' @ hex_digits n"
    unfolding entry_rest_def l by (simp add: is_blank_def is_key_char_def)
  show ?thesis
    unfolding update_header_entry_unfold t r using assms
    by (simp add: is_blank_def strtoul_hex_Cons)
qed

lemma ramdiskaddr_line:
  assumes "n < 2 ^ lb"
  shows "update_header_entry bh lb img (''ramdiskaddr = 0x'' @ hex_digits n @ [NEWLINE])
    = Inr (img\<lparr>header := (header img)\<lparr>ramdisk_addr := of_nat n\<rparr>\<rparr>)"
proof -
  have l: "entry_line (''ramdiskaddr = 0x'' @ hex_digits n @ [NEWLINE]) = ''ramdiskaddr = 0x'' @ hex_digits n"
    by (rule entry_line_hex) simp_all
  have t: "entry_token (''ramdiskaddr = 0x'' @ hex_digits n @ [NEWLINE]) = ''ramdiskaddr''"
    unfolding entry_token_def l by (simp add: is_blank_def is_key_char_def)
  have r: "entry_rest (''ramdiskaddr = 0x'' @ hex_digits n @ [NEWLINE]) = ''= 0x'' @ hex_digits n"
    unfolding entry_rest_def l by (simp add: is_blank_def is_key_char_def)
  show ?thesis
    unfolding update_header_entry_unfold t r using assms
    by (simp add: is_blank_def strtoul_hex_Cons)
qed

lemma secondaddr_line:
  assumes "n < 2 ^ lb"
  shows "update_header_entry bh lb img (''secondaddr = 0x'' @ hex_digits n @ [NEWLINE])
    = Inr (img\<lparr>header := (header img)\<lparr>second_addr := of_nat n\<rparr>\<rparr>)"
proof -
  have l: "entry_line (''secondaddr = 0x'' @ hex_digits n @ [NEWLINE]) = ''secondaddr = 0x'' @ hex_digits n"
    by (rule entry_line_hex) simp_all
  have t: "entry_token (''secondaddr = 0x'' @ hex_digits n @ [NEWLINE]) = ''secondaddr''"
    unfolding entry_token_def l by (simp add: is_blank_def is_key_char_def)
  have r: "entry_rest (''secondaddr = 0x'' @ hex_digits n @ [NEWLINE]) = ''= 0x'' @ hex_digits n"
    unfolding entry_rest_def l by (simp add: is_blank_def is_key_char_def)
  show ?thesis
    unfolding update_header_entry_unfold t r using assms
    by (simp add: is_blank_def strtoul_hex_Cons)
qed

lemma tagsaddr_line:
  assumes "n < 2 ^ lb"
  shows "update_header_entry bh lb img (''tagsaddr = 0x'' @ hex_digits n @ [NEWLINE])
    = Inr (img\<lparr>header := (header img)\<lparr>tags_addr := of_nat n\<rparr>\<rparr>)"
proof -
  have l: "entry_line (''tagsaddr = 0x'' @ hex_digits n @ [NEWLINE]) = ''tagsaddr = 0x'' @ hex_digits n"
    by (rule entry_line_hex) simp_all
  have t: "entry_token (''tagsaddr = 0x'' @ hex_digits n @ [NEWLINE]) = ''tagsaddr''"
    unfolding entry_token_def l by (simp add: is_blank_def is_key_char_def)
  have r: "entry_rest (''tagsaddr = 0x'' @ hex_digits n @ [NEWLINE]) = ''= 0x'' @ hex_digits n"
    unfolding entry_rest_def l by (simp add: is_blank_def is_key_char_def)
  show ?thesis
    unfolding update_header_entry_unfold t r using assms
    by (simp add: is_blank_def strtoul_hex_Cons)
qed

lemma c_str_padded: "NUL \<notin> set s \<Longrightarrow> c_str (s @ replicate k NUL) = s"
  by (induction s) (auto simp: c_str_def)

lemma cmdline_line:
  assumes nl: "NEWLINE \<notin> set (c_str cl)"
    and hd: "c_str cl = [] \<or> \<not> is_blank (hd (c_str cl))"
    and len: "length (c_str cl) < BOOT_ARGS_SIZE bh"
  shows "update_header_entry bh lb img (''cmdline = '' @ c_str cl @ [NEWLINE])
    = Inr (img\<lparr>header := (header img)\<lparr>cmdline :=
        c_str cl @ replicate (BOOT_ARGS_SIZE bh - length (c_str cl)) NUL\<rparr>\<rparr>)"
proof -
  let ?s = "c_str cl"
  have "entry_line ((''cmdline = '' @ ?s) @ [NEWLINE]) = ''cmdline = '' @ ?s"
    using nl by (intro entry_line_terminated) (simp_all add: nul_c_str)
  then have l: "entry_line (''cmdline = '' @ ?s @ [NEWLINE]) = ''cmdline = '' @ ?s" by simp
  have t: "entry_token (''cmdline = '' @ ?s @ [NEWLINE]) = ''cmdline''"
    unfolding entry_token_def l by (simp add: is_blank_def is_key_char_def)
  have r: "entry_rest (''cmdline = '' @ ?s @ [NEWLINE]) = ''= '' @ ?s"
    unfolding entry_rest_def l by (simp add: is_blank_def is_key_char_def)
  have v: "dropWhile is_blank ?s = ?s" using hd by (cases ?s) simp_all
  have m: "length ?s mod 2 ^ 32 \<le> length ?s" by (rule mod_less_eq_dividend)
  have nm: "\<not> BOOT_ARGS_SIZE bh \<le> length ?s mod 2 ^ 32" using len m by linarith
  show ?thesis
    unfolding update_header_entry_unfold t r using len nm
    by (simp add: v is_blank_def Let_def)
qed

text \<open>
  C8, amended. With an \<^verbatim>\<open>unsigned long\<close> of at least 32 bits, each of the five
  numeric lines of the configuration file, parsed again, sets its field to the value of
  the header that was written. The command line is recovered when it has no newline,
  does not begin with a blank and fits the field with its terminator. The lines are
  page size, the four addresses, then the command line; there is no line for the size.
\<close>

theorem config_round_trip:
  assumes "32 \<le> lb"
  shows "update_header_entry bh lb img (config_lines h ! 0)
        = Inr (img\<lparr>header := (header img)\<lparr>page_size := page_size h\<rparr>\<rparr>)
    \<and> update_header_entry bh lb img (config_lines h ! 1)
        = Inr (img\<lparr>header := (header img)\<lparr>kernel_addr := kernel_addr h\<rparr>\<rparr>)
    \<and> update_header_entry bh lb img (config_lines h ! 2)
        = Inr (img\<lparr>header := (header img)\<lparr>ramdisk_addr := ramdisk_addr h\<rparr>\<rparr>)
    \<and> update_header_entry bh lb img (config_lines h ! 3)
        = Inr (img\<lparr>header := (header img)\<lparr>second_addr := second_addr h\<rparr>\<rparr>)
    \<and> update_header_entry bh lb img (config_lines h ! 4)
        = Inr (img\<lparr>header := (header img)\<lparr>tags_addr := tags_addr h\<rparr>\<rparr>)
    \<and> (NEWLINE \<notin> set (c_str (cmdline h))
         \<and> (c_str (cmdline h) = [] \<or> \<not> is_blank (hd (c_str (cmdline h))))
         \<and> length (c_str (cmdline h)) < BOOT_ARGS_SIZE bh
        \<longrightarrow> (\<exists>img'. update_header_entry bh lb img (config_lines h ! 5) = Inr img'
               \<and> c_str (cmdline (header img')) = c_str (cmdline h)
               \<and> length (cmdline (header img')) = BOOT_ARGS_SIZE bh))
    \<and> map spec_key (config_lines h)
        = [''pagesize'', ''kerneladdr'', ''ramdiskaddr'', ''secondaddr'', ''tagsaddr'', ''cmdline'']"
proof -
  have p: "(2::nat) ^ 32 \<le> 2 ^ lb" using assms by (intro power_increasing) simp_all
  have w: "unat w < 2 ^ lb" for w :: u32
  proof -
    have "unat w < 2 ^ 32" using unsigned_less [of w] by simp
    then show ?thesis using p by linarith
  qed
  have n: "config_lines h ! 0 = ''pagesize = 0x'' @ hex_digits (unat (page_size h)) @ [NEWLINE]"
    "config_lines h ! 1 = ''kerneladdr = 0x'' @ hex_digits (unat (kernel_addr h)) @ [NEWLINE]"
    "config_lines h ! 2 = ''ramdiskaddr = 0x'' @ hex_digits (unat (ramdisk_addr h)) @ [NEWLINE]"
    "config_lines h ! 3 = ''secondaddr = 0x'' @ hex_digits (unat (second_addr h)) @ [NEWLINE]"
    "config_lines h ! 4 = ''tagsaddr = 0x'' @ hex_digits (unat (tags_addr h)) @ [NEWLINE]"
    "config_lines h ! 5 = ''cmdline = '' @ c_str (cmdline h) @ [NEWLINE]"
    by (simp_all add: config_lines_def)
  have l0: "update_header_entry bh lb img (config_lines h ! 0)
        = Inr (img\<lparr>header := (header img)\<lparr>page_size := page_size h\<rparr>\<rparr>)"
    unfolding n using pagesize_line [OF w, of bh img "page_size h"] by simp
  have l1: "update_header_entry bh lb img (config_lines h ! 1)
        = Inr (img\<lparr>header := (header img)\<lparr>kernel_addr := kernel_addr h\<rparr>\<rparr>)"
    unfolding n using kerneladdr_line [OF w, of bh img "kernel_addr h"] by simp
  have l2: "update_header_entry bh lb img (config_lines h ! 2)
        = Inr (img\<lparr>header := (header img)\<lparr>ramdisk_addr := ramdisk_addr h\<rparr>\<rparr>)"
    unfolding n using ramdiskaddr_line [OF w, of bh img "ramdisk_addr h"] by simp
  have l3: "update_header_entry bh lb img (config_lines h ! 3)
        = Inr (img\<lparr>header := (header img)\<lparr>second_addr := second_addr h\<rparr>\<rparr>)"
    unfolding n using secondaddr_line [OF w, of bh img "second_addr h"] by simp
  have l4: "update_header_entry bh lb img (config_lines h ! 4)
        = Inr (img\<lparr>header := (header img)\<lparr>tags_addr := tags_addr h\<rparr>\<rparr>)"
    unfolding n using tagsaddr_line [OF w, of bh img "tags_addr h"] by simp
  have k: "map spec_key (config_lines h)
        = [''pagesize'', ''kerneladdr'', ''ramdiskaddr'', ''secondaddr'', ''tagsaddr'', ''cmdline'']"
    by (simp add: config_lines_def spec_key_def entry_line_def c_str_def trim_def is_blank_def)
  have c: "\<exists>img'. update_header_entry bh lb img (config_lines h ! 5) = Inr img'
               \<and> c_str (cmdline (header img')) = c_str (cmdline h)
               \<and> length (cmdline (header img')) = BOOT_ARGS_SIZE bh"
    if "NEWLINE \<notin> set (c_str (cmdline h))"
      and "c_str (cmdline h) = [] \<or> \<not> is_blank (hd (c_str (cmdline h)))"
      and "length (c_str (cmdline h)) < BOOT_ARGS_SIZE bh"
    unfolding n cmdline_line [OF that] using that(3)
    by (simp add: c_str_padded nul_c_str)
  show ?thesis
    using c by (intro conjI impI l0 l1 l2 l3 l4 k) blast
qed

theorem unknown_key_is_bad_config_entry_witness:
  "spec_key ''name = x'' = ''name''
   \<and> (\<exists>t. update_header_entry android_h 64 img0 ''name = x'' = Inl (BadConfigEntry t))"
  using unknown_key_is_bad_config_entry [of "''name = x''" android_h 64 img0]
  by (simp add: spec_key_def entry_line_def c_str_def trim_def is_blank_def numeric_keys_def)

text \<open>
  C7. The claim: every key that is not exactly one of the seven names is rejected. It
  fails: the six numeric keys are compared with \<^verbatim>\<open>strncmp\<close> over the length of the
  name, so \<^verbatim>\<open>pagesizes = 4096\<close> is accepted and sets the page size.
\<close>

theorem prefix_key_accepted_counterexample:
  "spec_key ''pagesizes = 4096'' = ''pagesizes''
   \<and> ''pagesizes'' \<notin> set (''cmdline'' # map fst numeric_keys)
   \<and> update_header_entry android_h 64 img0 ''pagesizes = 4096''
       = Inr (img0\<lparr>header := (header img0)\<lparr>page_size := 4096\<rparr>\<rparr>)"
  by (simp add: update_header_entry_unfold entry_rest_def entry_token_def entry_line_def
      c_str_def is_blank_def is_key_char_def strtoul_def strtoul_sign_def strtoul_base_def
      isspace_def digit_val_def spec_key_def trim_def numeric_keys_def Let_def)

text \<open>
  C8. The claim: the round trip recovers the field for every recognised key. It fails
  for a command line that begins with a blank: the parser skips the blanks after
  \<^verbatim>\<open>=\<close>, so \<^verbatim>\<open>" quiet"\<close> comes back as \<^verbatim>\<open>"quiet"\<close>.
\<close>

theorem cmdline_leading_blank_counterexample:
  "c_str (cmdline (hdr0\<lparr>cmdline := '' quiet'' @ replicate 506 NUL\<rparr>)) = '' quiet''
   \<and> update_header_entry android_h 64 img0
         (config_lines (hdr0\<lparr>cmdline := '' quiet'' @ replicate 506 NUL\<rparr>) ! 5)
       = Inr (img0\<lparr>header := (header img0)\<lparr>cmdline := ''quiet'' @ replicate 507 NUL\<rparr>\<rparr>)
   \<and> c_str (''quiet'' @ replicate 507 NUL) = ''quiet''"
  by (simp add: update_header_entry_unfold entry_rest_def entry_token_def entry_line_def
      c_str_def is_blank_def is_key_char_def config_lines_def hdr0_def android_h_def Let_def)

theorem config_round_trip_witness:
  "(32::nat) \<le> 64
   \<and> NEWLINE \<notin> set (c_str (cmdline (hdr0\<lparr>cmdline := ''quiet'' @ replicate 507 NUL\<rparr>)))
   \<and> \<not> is_blank (hd (c_str (cmdline (hdr0\<lparr>cmdline := ''quiet'' @ replicate 507 NUL\<rparr>))))
   \<and> length (c_str (cmdline (hdr0\<lparr>cmdline := ''quiet'' @ replicate 507 NUL\<rparr>)))
       < BOOT_ARGS_SIZE android_h
   \<and> update_header_entry android_h 64 img0
         (config_lines (hdr0\<lparr>cmdline := ''quiet'' @ replicate 507 NUL\<rparr>) ! 0)
       = Inr (img0\<lparr>header := (header img0)\<lparr>page_size := 2048\<rparr>\<rparr>)
   \<and> (\<exists>img'. update_header_entry android_h 64 img0
          (config_lines (hdr0\<lparr>cmdline := ''quiet'' @ replicate 507 NUL\<rparr>) ! 5) = Inr img'
        \<and> c_str (cmdline (header img')) = ''quiet'')"
proof -
  let ?h = "hdr0\<lparr>cmdline := ''quiet'' @ replicate 507 NUL\<rparr>"
  have c: "c_str (cmdline ?h) = ''quiet''" by (simp add: c_str_def)
  have p: "page_size ?h = 2048" by (simp add: hdr0_def)
  have h1: "NEWLINE \<notin> set (c_str (cmdline ?h))" unfolding c by simp
  have h2: "\<not> is_blank (hd (c_str (cmdline ?h)))" unfolding c by (simp add: is_blank_def)
  have h3: "length (c_str (cmdline ?h)) < BOOT_ARGS_SIZE android_h"
    unfolding c by (simp add: android_h_def)
  have le: "(32::nat) \<le> 64" by simp
  note r = config_round_trip [OF le, of android_h img0 ?h]
  have r0: "update_header_entry android_h 64 img0 (config_lines ?h ! 0)
       = Inr (img0\<lparr>header := (header img0)\<lparr>page_size := 2048\<rparr>\<rparr>)"
    using r [THEN conjunct1] unfolding p .
  have r5: "\<exists>img'. update_header_entry android_h 64 img0 (config_lines ?h ! 5) = Inr img'
        \<and> c_str (cmdline (header img')) = ''quiet''"
    using r h1 h2 h3 unfolding c by blast
  show ?thesis using le h1 h2 h3 r0 r5 by blast
qed

section \<open>Properties of the update and create commands\<close>

subsection \<open>Successful steps of update_images\<close>

lemma bindE_Inr: "bindE m f = Inr y \<longleftrightarrow> (\<exists>x. m = Inr x \<and> f x = Inr y)"
  by (cases m) (simp_all add: bindE_def)

lemma bindE_Inl: "bindE m f = Inl e \<longleftrightarrow> m = Inl e \<or> (\<exists>x. m = Inr x \<and> f x = Inl e)"
  by (cases m) (simp_all add: bindE_def)

lemma bindE_simps [simp]: "bindE (Inl e) f = Inl e" "bindE (Inr x) f = f x"
  by (simp_all add: bindE_def)

lemma at_stream_Inr [simp]: "at_stream st m = Inr x \<longleftrightarrow> m = Inr x"
  by (cases m) (simp_all add: at_stream_def)

lemma at_stream_Inl [simp]: "at_stream st m = Inl (e, s) \<longleftrightarrow> m = Inl e \<and> s = st"
  by (cases m) (auto simp: at_stream_def)

lemma at_stream_simps [simp]: "at_stream st (Inl e) = Inl (e, st)" "at_stream st (Inr x) = Inr x"
  by (simp_all add: at_stream_def)

lemma flush_some_idle [simp]: "pending st = [] \<Longrightarrow> flush_some k st = st"
  by (simp add: flush_some_def)

lemma fflush_idle [simp]: "pending st = [] \<Longrightarrow> fflush st = st"
  by (simp add: fflush_def)

lemma fflush_fields [simp]: "pending (fflush st) = []" "is_dev (fflush st) = is_dev st"
  "eof (fflush st) = eof st" "pos (fflush st) = ftell st"
  by (simp_all add: fflush_def flush_some_def ftell_def Let_def)

lemma fflush_fflush [simp]: "fflush (fflush st) = fflush st"
  by simp

lemma at_exit_idle: "pending st = [] \<Longrightarrow> at_exit st = content st"
  by (simp add: at_exit_def)

lemma unat_of_nat_le: "unat (of_nat n :: u32) \<le> n"
  by (simp add: unat_of_nat)

lemma read_whole_file_Inr:
  "read_whole_file fs name what = Inr (sz, buf) \<longleftrightarrow>
     (\<exists>bytes. fs name = Some bytes \<and> sz = of_nat (length bytes) \<and> sz \<noteq> 0
        \<and> buf = take (unat sz) bytes)"
proof (cases "fs name")
  case None
  then show ?thesis by (simp add: read_whole_file_def)
next
  case (Some bytes)
  have le: "unat (of_nat (length bytes) :: u32) \<le> length bytes" by (rule unat_of_nat_le)
  show ?thesis
    using le
    by (auto simp: read_whole_file_def Some fread_def fopen_stream_def Let_def unat_eq_0)
qed

lemma read_whole_file_length:
  "read_whole_file fs name what = Inr (sz, buf) \<Longrightarrow> length buf = unat sz \<and> sz \<noteq> 0"
proof -
  assume "read_whole_file fs name what = Inr (sz, buf)"
  then obtain bytes where b: "sz = of_nat (length bytes)" "sz \<noteq> 0" "buf = take (unat sz) bytes"
    unfolding read_whole_file_Inr by blast
  have "unat sz \<le> length bytes" unfolding b(1) by (rule unat_of_nat_le)
  then show ?thesis using b by simp
qed

lemma fseekE_Inr:
  "fseekE lb name off st = Inr st1 \<longleftrightarrow>
     unat off < 2 ^ (lb - 1) \<and> st1 = (fflush st)\<lparr>pos := unat off, eof := False\<rparr>"
  by (auto simp: fseekE_def fseek_def)

lemma carry_over_Inr:
  "carry_over lb img off sz what = Inr (buf, st) \<longleftrightarrow>
     unat off < 2 ^ (lb - 1) \<and> sz \<noteq> 0
       \<and> unat off + unat sz \<le> length (at_exit (stream img))
       \<and> buf = take (unat sz) (drop (unat off) (at_exit (stream img)))
       \<and> st = (fflush (stream img))\<lparr>pos := unat off + unat sz, eof := False\<rparr>"
proof -
  have p: "0 < unat sz" if "sz \<noteq> 0" using that by (simp add: unat_gt_0)
  show ?thesis
    using p
    by (auto simp: carry_over_def bindE_Inr fseekE_Inr fread_def Let_def unat_eq_0 at_exit_def)
qed

lemma carry_over_zero: "\<exists>st. carry_over lb img off 0 what = Inl (Perror (fname img), st)"
  by (auto simp: carry_over_def fseekE_def fseek_def fread_def Let_def)

lemma update_images_kernel_Inr:
  "update_images_kernel fs img = Inr img1 \<longleftrightarrow>
     (kernel_fname img = None \<and> img1 = img)
   \<or> (\<exists>kf bytes. kernel_fname img = Some kf \<and> fs kf = Some bytes
        \<and> (of_nat (length bytes) :: u32) \<noteq> 0
        \<and> img1 = img\<lparr>header := (header img)\<lparr>kernel_size := of_nat (length bytes)\<rparr>,
                      kernel := Some (take (unat (of_nat (length bytes) :: u32)) bytes)\<rparr>)"
  by (cases "kernel_fname img")
    (auto simp: update_images_kernel_def bindE_Inr read_whole_file_Inr)

lemma update_images_ramdisk_Inr:
  "update_images_ramdisk lb fs roffset rsize img = Inr img1 \<longleftrightarrow>
     (\<exists>rf bytes. ramdisk_fname img = Some rf \<and> fs rf = Some bytes
        \<and> (of_nat (length bytes) :: u32) \<noteq> 0
        \<and> img1 = img\<lparr>header := (header img)\<lparr>ramdisk_size := of_nat (length bytes)\<rparr>,
                      ramdisk := Some (take (unat (of_nat (length bytes) :: u32)) bytes)\<rparr>)
   \<or> (ramdisk_fname img = None \<and> kernel img = None \<and> img1 = img)
   \<or> (ramdisk_fname img = None \<and> kernel img \<noteq> None
        \<and> unat roffset < 2 ^ (lb - 1) \<and> rsize \<noteq> 0
        \<and> unat roffset + unat rsize \<le> length (at_exit (stream img))
        \<and> img1 = img\<lparr>stream := (fflush (stream img))\<lparr>pos := unat roffset + unat rsize, eof := False\<rparr>,
                      ramdisk := Some (take (unat rsize)
                                   (drop (unat roffset) (at_exit (stream img))))\<rparr>)"
  by (cases "ramdisk_fname img")
    (auto simp: update_images_ramdisk_def bindE_Inr read_whole_file_Inr carry_over_Inr)

lemma update_images_second_Inr:
  "update_images_second lb fs soffset ssize img = Inr img1 \<longleftrightarrow>
     (\<exists>sf bytes. second_fname img = Some sf \<and> fs sf = Some bytes
        \<and> (of_nat (length bytes) :: u32) \<noteq> 0
        \<and> img1 = img\<lparr>header := (header img)\<lparr>second_size := of_nat (length bytes)\<rparr>,
                      second := Some (take (unat (of_nat (length bytes) :: u32)) bytes)\<rparr>)
   \<or> (second_fname img = None \<and> (ramdisk img = None \<or> second_size (header img) = 0)
        \<and> img1 = img)
   \<or> (second_fname img = None \<and> ramdisk img \<noteq> None \<and> second_size (header img) \<noteq> 0
        \<and> unat soffset < 2 ^ (lb - 1) \<and> ssize \<noteq> 0
        \<and> unat soffset + unat ssize \<le> length (at_exit (stream img))
        \<and> img1 = img\<lparr>stream := (fflush (stream img))\<lparr>pos := unat soffset + unat ssize, eof := False\<rparr>,
                      second := Some (take (unat ssize)
                                  (drop (unat soffset) (at_exit (stream img))))\<rparr>)"
  by (cases "second_fname img")
    (auto simp: update_images_second_def bindE_Inr read_whole_file_Inr carry_over_Inr)

lemma update_images_total_Inr:
  "update_images_total psize img = Inr img1 \<longleftrightarrow>
     (img_size img = 0 \<and> img1 = img\<lparr>img_size := total_size psize (kernel_size (header img))
          (ramdisk_size (header img)) (second_size (header img))\<rparr>)
   \<or> (img_size img \<noteq> 0
        \<and> total_size psize (kernel_size (header img)) (ramdisk_size (header img))
              (second_size (header img)) \<le> img_size img
        \<and> img1 = img)"
  by (auto simp: update_images_total_def Let_def not_less)

lemma update_images_Inr:
  "update_images lb fs img = Inr img' \<longleftrightarrow>
     page_size (header img) \<noteq> 0
   \<and> (\<exists>img1 img2 img3.
         update_images_kernel fs img = Inr img1
       \<and> update_images_ramdisk lb fs (update_images_roffset (header img))
            (ramdisk_size (header img)) img1 = Inr img2
       \<and> update_images_second lb fs (update_images_soffset (header img))
            (second_size (header img)) img2 = Inr img3
       \<and> update_images_total (page_size (header img)) img3 = Inr img')"
  by (auto simp: update_images_def Let_def bindE_Inr)

subsection \<open>What the configuration leaves alone\<close>

lemma same_segments_refl: "same_segments a a"
  by (simp add: same_segments_def)

lemma same_segments_trans: "same_segments a b \<Longrightarrow> same_segments b c \<Longrightarrow> same_segments a c"
  by (simp add: same_segments_def)

lemma update_header_entry_frame:
  assumes "update_header_entry bh lb img cmd = Inr img'"
  shows "same_segments img img'"
proof (cases "entry_rest cmd")
  case Nil
  with assms show ?thesis by (simp add: update_header_entry_unfold)
next
  case (Cons c p4)
  with assms show ?thesis
    by (auto simp: update_header_entry_unfold Let_def same_segments_def split: if_splits)
qed

lemma update_header_lines_frame:
  "update_header_lines bh lb ls img = Inr img' \<Longrightarrow> same_segments img img'"
proof (induction ls arbitrary: img)
  case Nil
  then show ?case by (simp add: same_segments_refl)
next
  case (Cons l ls)
  then obtain img1 where 1: "update_header_entry bh lb img l = Inr img1"
    and 2: "update_header_lines bh lb ls img1 = Inr img'"
    by (auto simp: bindE_Inr)
  show ?case
    using update_header_entry_frame [OF 1] Cons.IH [OF 2] by (rule same_segments_trans)
qed

lemma update_header_frame:
  assumes "update_header bh lb fs config_args img = Inr img'"
  shows "same_segments img img'"
proof -
  from assms obtain img1 where
    1: "(case config_fname img of None \<Rightarrow> Inr img
         | Some cf \<Rightarrow> (case fs cf of None \<Rightarrow> Inl (Perror cf)
             | Some txt \<Rightarrow> update_header_lines bh lb (getlines txt) img)) = Inr img1"
    and 2: "(if length (c_str config_args) = 0 then Inr img1
          else update_header_lines bh lb (getlines (c_str config_args)) img1) = Inr img'"
    unfolding update_header_def bindE_Inr by blast
  have a: "same_segments img img1"
    using 1 by (auto split: option.splits intro: same_segments_refl update_header_lines_frame)
  have b: "same_segments img1 img'"
    using 2 by (auto split: if_splits intro: same_segments_refl update_header_lines_frame)
  show ?thesis using a b by (rule same_segments_trans)
qed

lemma read_header_Inr:
  assumes "read_header bh img = Inr img1"
  shows "header img1 = hdr_of_bytes bh
             (take (sizeof_hdr bh) (drop (pos (stream img)) (content (stream img))))"
    and "kernel_fname img1 = kernel_fname img" and "ramdisk_fname img1 = ramdisk_fname img"
    and "second_fname img1 = second_fname img" and "fname img1 = fname img"
    and "snd (check_boot_img_header bh img1) = 0"
    and "content (stream img1) = content (stream img)"
    and "img_size img1 = of_nat (length (content (stream img)))"
    and "pending (stream img1) = pending (stream img)"
    and "is_dev (stream img1) = is_dev (stream img)"
    and "is_blkdev img1 = is_dev (stream img)"
    and "kernel img1 = kernel img" and "ramdisk img1 = ramdisk img"
    and "second img1 = second img"
  using assms
  by (auto simp: read_header_def fread_def Let_def split: if_splits)

subsection \<open>The stream at an abort\<close>

lemma fopen_file_fields [simp]: "content (fopen_file f) = file_bytes f"
  "pending (fopen_file f) = []" "pos (fopen_file f) = 0"
  by (cases f; simp add: fopen_file_def fopen_stream_def file_bytes_def)+

lemma at_exit_seek [simp]: "at_exit ((fflush st)\<lparr>pos := p, eof := e\<rparr>) = at_exit st"
  by (simp add: at_exit_def)

lemma read_header_Inl:
  assumes "read_header bh img = Inl (e, st)" and "pending (stream img) = []"
  shows "at_exit st = content (stream img)"
  using assms
  by (auto simp: read_header_def fread_def Let_def at_exit_def split: if_splits)

lemma carry_over_at_exit:
  "carry_over lb img off sz what = Inl (e, st) \<Longrightarrow> at_exit st = at_exit (stream img)"
  "carry_over lb img off sz what = Inr (buf, st') \<Longrightarrow> at_exit st' = at_exit (stream img)"
  by (auto simp: carry_over_def bindE_Inl bindE_Inr fseekE_def fseek_def fread_def Let_def
      at_exit_def split: if_splits option.splits)

lemma update_images_kernel_at_exit:
  "update_images_kernel fs img = Inl (e, st) \<Longrightarrow> st = stream img"
  "update_images_kernel fs img = Inr img1 \<Longrightarrow> stream img1 = stream img"
  by (auto simp: update_images_kernel_def bindE_Inl bindE_Inr split: option.splits)

lemma update_images_ramdisk_at_exit:
  "update_images_ramdisk lb fs ro rs img = Inl (e, st) \<Longrightarrow> at_exit st = at_exit (stream img)"
  "update_images_ramdisk lb fs ro rs img = Inr img1
     \<Longrightarrow> at_exit (stream img1) = at_exit (stream img)"
  by (auto simp: update_images_ramdisk_def bindE_Inl bindE_Inr carry_over_at_exit
      split: option.splits if_splits)

lemma update_images_second_at_exit:
  "update_images_second lb fs so ss img = Inl (e, st) \<Longrightarrow> at_exit st = at_exit (stream img)"
  "update_images_second lb fs so ss img = Inr img1
     \<Longrightarrow> at_exit (stream img1) = at_exit (stream img)"
  by (auto simp: update_images_second_def bindE_Inl bindE_Inr carry_over_at_exit
      split: option.splits if_splits)

lemma update_images_total_at_exit:
  "update_images_total psize img = Inl (e, st) \<Longrightarrow> st = stream img"
  "update_images_total psize img = Inr img1 \<Longrightarrow> stream img1 = stream img"
  by (auto simp: update_images_total_def Let_def split: if_splits)

lemma update_images_at_exit:
  assumes "update_images lb fs img = Inl (e, st)"
  shows "at_exit st = at_exit (stream img)"
proof (cases "page_size (header img) = 0")
  case True
  with assms show ?thesis by (simp add: update_images_def)
next
  case False
  let ?ro = "update_images_roffset (header img)" and ?so = "update_images_soffset (header img)"
  let ?rs = "ramdisk_size (header img)" and ?ss = "second_size (header img)"
  from assms False have a: "bindE (update_images_kernel fs img)
       (\<lambda>img1. bindE (update_images_ramdisk lb fs ?ro ?rs img1)
         (\<lambda>img2. bindE (update_images_second lb fs ?so ?ss img2)
           (update_images_total (page_size (header img))))) = Inl (e, st)"
    by (simp add: update_images_def Let_def)
  show ?thesis
  proof (cases "update_images_kernel fs img")
    case (Inl x)
    with a show ?thesis using update_images_kernel_at_exit(1) [of fs img e st] by simp
  next
    case 1: (Inr img1)
    note k = update_images_kernel_at_exit(2) [OF 1]
    show ?thesis
    proof (cases "update_images_ramdisk lb fs ?ro ?rs img1")
      case (Inl x)
      with a 1 show ?thesis
        using update_images_ramdisk_at_exit(1) [of lb fs ?ro ?rs img1 e st] k by simp
    next
      case 2: (Inr img2)
      note r = update_images_ramdisk_at_exit(2) [OF 2]
      show ?thesis
      proof (cases "update_images_second lb fs ?so ?ss img2")
        case (Inl x)
        with a 1 2 show ?thesis
          using update_images_second_at_exit(1) [of lb fs ?so ?ss img2 e st] k r by simp
      next
        case 3: (Inr img3)
        note s = update_images_second_at_exit(2) [OF 3]
        from a 1 2 3 have "update_images_total (page_size (header img)) img3 = Inl (e, st)"
          by simp
        then have "st = stream img3" by (rule update_images_total_at_exit(1))
        then show ?thesis using k r s by simp
      qed
    qed
  qed
qed

text \<open>
  A run of the command \<^verbatim>\<open>-u\<close> that is aborted before \<^verbatim>\<open>write_bootimg\<close> leaves
  the destination as it was.
\<close>

lemma main_update_Aborted:
  assumes "main_update pol bh lb fs config_args img (Some f) = Aborted e d"
  shows "d = Some (file_bytes f)"
proof -
  let ?chain = "bindE (read_header bh (img\<lparr>stream := fopen_file f\<rparr>))
      (\<lambda>img1. bindE (at_stream (stream img1) (update_header bh lb fs config_args img1))
         (update_images lb fs))"
  from assms obtain st where c: "?chain = Inl (e, st)" and d: "d = Some (at_exit st)"
    by (auto simp: main_update_def split: sum.splits)
  have "at_exit st = file_bytes f"
  proof (cases "read_header bh (img\<lparr>stream := fopen_file f\<rparr>)")
    case (Inl x)
    with c have "read_header bh (img\<lparr>stream := fopen_file f\<rparr>) = Inl (e, st)" by simp
    then show ?thesis using read_header_Inl by fastforce
  next
    case 1: (Inr img1)
    note h = read_header_Inr [OF 1]
    have x1: "at_exit (stream img1) = file_bytes f"
      using h(7,9) by (simp add: at_exit_idle)
    show ?thesis
    proof (cases "update_header bh lb fs config_args img1")
      case (Inl x)
      with c 1 show ?thesis using x1 by simp
    next
      case 2: (Inr img2)
      have s: "stream img2 = stream img1"
        using update_header_frame [OF 2] by (simp add: same_segments_def)
      from c 1 2 have "update_images lb fs img2 = Inl (e, st)" by simp
      then show ?thesis using update_images_at_exit s x1 by fastforce
    qed
  qed
  then show ?thesis using d by simp
qed

subsection \<open>A kernel update of an image without ramdisk\<close>

lemma not_Inr_is_Inl: "(\<And>y. m \<noteq> Inr y) \<Longrightarrow> \<exists>e. m = Inl e"
  by (cases m) auto

lemma update_images_ramdiskless_not_Inr:
  assumes "kernel_fname img = Some kf" and "ramdisk_fname img = None"
    and "ramdisk_size (header img) = 0"
  shows "update_images lb fs img \<noteq> Inr img'"
  using assms
  by (auto simp: update_images_Inr update_images_kernel_Inr update_images_ramdisk_Inr)

lemma update_images_ramdiskless_error:
  assumes "kernel_fname img = Some kf" and "ramdisk_fname img = None"
    and "ramdisk_size (header img) = 0" and "page_size (header img) \<noteq> 0"
    and "fs kf = Some kbytes" and "(of_nat (length kbytes) :: u32) \<noteq> 0"
  shows "\<exists>st. update_images lb fs img = Inl (Perror (fname img), st)"
proof -
  let ?img1 = "img\<lparr>header := (header img)\<lparr>kernel_size := of_nat (length kbytes)\<rparr>,
      kernel := Some (take (unat (of_nat (length kbytes) :: u32)) kbytes)\<rparr>"
  have 1: "update_images_kernel fs img = Inr ?img1"
    unfolding update_images_kernel_Inr using assms by simp
  have 2: "\<exists>st. update_images_ramdisk lb fs off 0 ?img1 = Inl (Perror (fname img), st)" for off
    using assms(2) carry_over_zero [of lb ?img1 off "''ramdisk''"]
    by (auto simp: update_images_ramdisk_def)
  obtain st where "update_images_ramdisk lb fs (update_images_roffset (header img)) 0 ?img1
      = Inl (Perror (fname img), st)" using 2 by blast
  then show ?thesis
    using assms(3,4) by (simp add: update_images_def Let_def 1)
qed

text \<open>
  C9. When a kernel file is named and no ramdisk file, and the ramdisk size of the header
  is 0, \<^verbatim>\<open>update_images\<close> aborts: the copy of the ramdisk from the open image reads 0
  bytes, \<^verbatim>\<open>fread\<close> returns 0 and the result is compared with 1. When the kernel file
  can be read the message is the one of \<^verbatim>\<open>abort_perror\<close> on the name of the image. So
  the command \<^verbatim>\<open>-u\<close> with \<^verbatim>\<open>-k\<close> alone aborts on every image whose header has a
  ramdisk size of 0, and leaves the image, a regular file or a block device, as it was.
\<close>

theorem kernel_update_of_ramdiskless_image_aborts:
  assumes k: "kernel_fname img = Some kf" and r: "ramdisk_fname img = None"
  shows "(ramdisk_size (header img) = 0 \<longrightarrow> (\<exists>e st. update_images lb fs img = Inl (e, st)))
    \<and> (ramdisk_size (header img) = 0 \<and> page_size (header img) \<noteq> 0 \<and> fs kf = Some kbytes
         \<and> (of_nat (length kbytes) :: u32) \<noteq> 0
        \<longrightarrow> (\<exists>st. update_images lb fs img = Inl (Perror (fname img), st)))
    \<and> (ramdisk_size (hdr_of_bytes bh (take (sizeof_hdr bh) (file_bytes f))) = 0
        \<longrightarrow> (\<exists>e. main_update pol bh lb fs config_args img (Some f)
                   = Aborted e (Some (file_bytes f))))"
proof (intro conjI impI)
  assume "ramdisk_size (header img) = 0"
  then have "\<exists>e. update_images lb fs img = Inl e"
    using update_images_ramdiskless_not_Inr [OF k r] by (intro not_Inr_is_Inl) simp
  then show "\<exists>e st. update_images lb fs img = Inl (e, st)" by auto
next
  assume "ramdisk_size (header img) = 0 \<and> page_size (header img) \<noteq> 0 \<and> fs kf = Some kbytes
         \<and> (of_nat (length kbytes) :: u32) \<noteq> 0"
  then show "\<exists>st. update_images lb fs img = Inl (Perror (fname img), st)"
    using update_images_ramdiskless_error [OF k r] by simp
next
  assume z: "ramdisk_size (hdr_of_bytes bh (take (sizeof_hdr bh) (file_bytes f))) = 0"
  let ?chain = "bindE (read_header bh (img\<lparr>stream := fopen_file f\<rparr>))
      (\<lambda>img1. bindE (at_stream (stream img1) (update_header bh lb fs config_args img1))
         (update_images lb fs))"
  have "?chain \<noteq> Inr img3" for img3
  proof
    assume "?chain = Inr img3"
    then obtain img1 img2 where
      1: "read_header bh (img\<lparr>stream := fopen_file f\<rparr>) = Inr img1"
      and 2: "update_header bh lb fs config_args img1 = Inr img2"
      and 3: "update_images lb fs img2 = Inr img3"
      by (auto simp: bindE_Inr)
    note h = read_header_Inr [OF 1]
    have s: "same_segments img1 img2" using 2 by (rule update_header_frame)
    have "kernel_fname img2 = Some kf" "ramdisk_fname img2 = None"
      "ramdisk_size (header img2) = 0"
      using h(1,2,3) s k r z by (simp_all add: same_segments_def)
    then show False using 3 update_images_ramdiskless_not_Inr by blast
  qed
  then obtain x where "?chain = Inl x" using not_Inr_is_Inl by blast
  then obtain e d where m: "main_update pol bh lb fs config_args img (Some f) = Aborted e d"
    by (cases x) (simp add: main_update_def)
  then show "\<exists>e. main_update pol bh lb fs config_args img (Some f)
      = Aborted e (Some (file_bytes f))"
    using main_update_Aborted [OF m] by blast
qed

subsection \<open>Reading the header of a sample image\<close>

lemma nat_bytes4:
  assumes "n < 2 ^ 32"
  shows "n mod 256 + 256 * (n div 256 mod 256 + 256 * (n div 65536 mod 256
      + 256 * (n div 16777216 mod 256))) = (n::nat)"
proof -
  have d2: "n div 65536 = n div 256 div 256" and d3: "n div 16777216 = n div 256 div 256 div 256"
    by (simp_all add: div_mult2_eq [symmetric])
  have "n div 16777216 < 256" using assms by simp
  then have m3: "n div 16777216 mod 256 = n div 16777216" by simp
  have s: "x mod 256 + 256 * (x div 256) = x" for x :: nat by simp
  show ?thesis
    unfolding m3 unfolding d2 d3 by (simp only: s)
qed

lemma le32_roundtrip: "le32_val (le32 w) = w"
proof -
  have b: "unat w < 2 ^ 32" using unsigned_less [of w] by simp
  have "unat w div 16777216 < 256" using b by simp
  then have m: "unat w div 16777216 mod 256 = unat w div 16777216" by simp
  have "foldr (\<lambda>c n. of_char c + 256 * n) (le32 w) 0 = unat w"
    using nat_bytes4 [OF b] by (simp add: le32_def m)
  then show ?thesis by (simp add: le32_val_def)
qed

lemma length_le32: "length (le32 w) = 4"
  by (simp add: le32_def)

lemma length_take_ge: "n \<le> length xs \<Longrightarrow> length (take n xs) = n"
  by simp

lemma android_hdr_bytes_length: "length (android_hdr_bytes h) = 608"
  unfolding android_hdr_bytes_def by (rule length_take_ge) simp

lemma android_hdr_roundtrip:
  assumes "length (magic h) = 8" and "length (cmdline h) = 512" and "length (reserved h) = 56"
  shows "android_hdr_of_bytes (android_hdr_bytes h) = h"
  using assms
  by (simp add: android_hdr_bytes_def android_hdr_of_bytes_def length_le32 le32_roundtrip)

lemma hdr0_wf: "length (magic (hdr0\<lparr>kernel_size := k, ramdisk_size := r, second_size := s\<rparr>)) = 8"
  "length (cmdline (hdr0\<lparr>kernel_size := k, ramdisk_size := r, second_size := s\<rparr>)) = 512"
  "length (reserved (hdr0\<lparr>kernel_size := k, ramdisk_size := r, second_size := s\<rparr>)) = 56"
  by (simp_all add: hdr0_def)

lemma sample_image_header:
  "take 608 (drop 0 (sample_image h n)) = android_hdr_bytes h"
  by (simp add: sample_image_def android_hdr_bytes_length)

lemma sample_image_length: "608 \<le> n \<Longrightarrow> length (sample_image h n) = n"
  by (simp add: sample_image_def android_hdr_bytes_length)

lemma read_header_sample:
  assumes "length (magic h) = 8" and "length (cmdline h) = 512" and "length (reserved h) = 56"
    and "608 \<le> n"
  shows "read_header android_h (img\<lparr>stream := fopen_stream (sample_image h n)\<rparr>)
    = (let img1 = img\<lparr>header := h,
                    stream := \<lparr>content = sample_image h n, pos = 608, eof = False,
                               pending = [], is_dev = False\<rparr>,
                    img_size := of_nat n, is_blkdev := False\<rparr>
       in if snd (check_boot_img_header android_h img1) \<noteq> 0
          then Inl (NotValidImage, stream img1)
          else Inr img1)"
  using assms(4) sample_image_header [of h n]
  by (simp add: read_header_def fread_def fopen_stream_def android_h_def Let_def
      sample_image_length android_hdr_roundtrip [OF assms(1-3)])

theorem kernel_update_of_ramdiskless_image_aborts_witness:
  "kernel_fname imgk = Some ''zImage'' \<and> ramdisk_fname imgk = None
   \<and> ramdisk_size (hdr_of_bytes android_h (take (sizeof_hdr android_h)
         (sample_image (hdr0\<lparr>kernel_size := 3000\<rparr>) 6144))) = 0
   \<and> read_header android_h
         (imgk\<lparr>stream := fopen_stream (sample_image (hdr0\<lparr>kernel_size := 3000\<rparr>) 6144)\<rparr>)
       = Inr (imgk\<lparr>header := hdr0\<lparr>kernel_size := 3000\<rparr>,
               stream := \<lparr>content = sample_image (hdr0\<lparr>kernel_size := 3000\<rparr>) 6144,
                          pos = 608, eof = False,
                               pending = [], is_dev = False\<rparr>,
               img_size := 6144, is_blkdev := False\<rparr>)
   \<and> (\<exists>e. main_update (block_buffered 4096) android_h 64 fs0 [] imgk
              (Some (Regular (sample_image (hdr0\<lparr>kernel_size := 3000\<rparr>) 6144)))
            = Aborted e (Some (sample_image (hdr0\<lparr>kernel_size := 3000\<rparr>) 6144)))
   \<and> (\<exists>st. update_images 64 fs0
         (imgk\<lparr>header := hdr0\<lparr>kernel_size := 3000\<rparr>,
               stream := \<lparr>content = sample_image (hdr0\<lparr>kernel_size := 3000\<rparr>) 6144,
                          pos = 608, eof = False,
                               pending = [], is_dev = False\<rparr>,
               img_size := 6144, is_blkdev := False\<rparr>)
        = Inl (Perror ''boot.img'', st))"
proof -
  let ?h = "hdr0\<lparr>kernel_size := 3000\<rparr>"
  let ?image = "sample_image ?h 6144"
  let ?img1 = "imgk\<lparr>header := ?h, stream := \<lparr>content = ?image, pos = 608, eof = False,
                               pending = [], is_dev = False\<rparr>,
               img_size := 6144, is_blkdev := False\<rparr>"
  have k: "kernel_fname imgk = Some ''zImage''" and r: "ramdisk_fname imgk = None"
    by (simp_all add: imgk_def parse_args_files_def)
  have k1: "kernel_fname ?img1 = Some ''zImage''" and r1: "ramdisk_fname ?img1 = None"
    using k r by simp_all
  have wf: "length (magic ?h) = 8" "length (cmdline ?h) = 512" "length (reserved ?h) = 56"
    by (simp_all add: hdr0_def)
  have d: "hdr_of_bytes android_h (take (sizeof_hdr android_h) ?image) = ?h"
    using sample_image_header [of ?h 6144] android_hdr_roundtrip [OF wf]
    by (simp add: android_h_def)
  have z: "ramdisk_size (hdr_of_bytes android_h (take (sizeof_hdr android_h) ?image)) = 0"
    unfolding d by (simp add: hdr0_def)
  have c: "snd (check_boot_img_header android_h ?img1) = 0"
    by (simp add: check_boot_img_header_def android_h_def hdr0_def imgk_def parse_args_files_def
        strncmp_eq_def c_str_def total_size_def npages_def Let_def)
  have rh: "read_header android_h (imgk\<lparr>stream := fopen_stream ?image\<rparr>) = Inr ?img1"
    using read_header_sample [OF wf, of 6144 imgk] c by (simp add: Let_def)
  have m: "\<exists>e. main_update (block_buffered 4096) android_h 64 fs0 [] imgk (Some (Regular ?image))
      = Aborted e (Some ?image)"
    using kernel_update_of_ramdiskless_image_aborts
      [OF k r, of 64 fs0 kbytes android_h "Regular ?image" "block_buffered 4096" "[]"] z
    by (simp add: file_bytes_def)
  have u: "\<exists>st. update_images 64 fs0 ?img1 = Inl (Perror ''boot.img'', st)"
    using kernel_update_of_ramdiskless_image_aborts
      [OF k1 r1, of 64 fs0 "replicate 3000 (CHR ''k'')" android_h "Regular ?image"
        "block_buffered 4096" "[]"]
    by (simp add: hdr0_def fs0_def imgk_def parse_args_files_def)
  show ?thesis using k r z rh m u by blast
qed

subsection \<open>The size check of update_images\<close>

lemma update_images_kernel_keeps:
  assumes "update_images_kernel fs img = Inr img1"
  shows "img_size img1 = img_size img" "page_size (header img1) = page_size (header img)"
    "stream img1 = stream img" "fname img1 = fname img"
    "ramdisk_size (header img1) = ramdisk_size (header img)"
    "second_size (header img1) = second_size (header img)"
  using assms by (auto simp: update_images_kernel_Inr)

lemma update_images_ramdisk_keeps:
  assumes "update_images_ramdisk lb fs ro rs img = Inr img1"
  shows "img_size img1 = img_size img" "page_size (header img1) = page_size (header img)"
    "at_exit (stream img1) = at_exit (stream img)" "fname img1 = fname img"
    "kernel_size (header img1) = kernel_size (header img)"
    "second_size (header img1) = second_size (header img)"
    "kernel img1 = kernel img"
    "is_dev (stream img1) = is_dev (stream img)"
  using assms by (auto simp: update_images_ramdisk_Inr)

lemma update_images_second_keeps:
  assumes "update_images_second lb fs so ss img = Inr img1"
  shows "img_size img1 = img_size img" "page_size (header img1) = page_size (header img)"
    "at_exit (stream img1) = at_exit (stream img)" "fname img1 = fname img"
    "kernel_size (header img1) = kernel_size (header img)"
    "ramdisk_size (header img1) = ramdisk_size (header img)"
    "kernel img1 = kernel img" "ramdisk img1 = ramdisk img"
    "is_dev (stream img1) = is_dev (stream img)"
  using assms by (auto simp: update_images_second_Inr)

lemma update_images_total_keeps:
  assumes "update_images_total psize img = Inr img1"
  shows "header img1 = header img" "stream img1 = stream img" "fname img1 = fname img"
    "kernel img1 = kernel img" "ramdisk img1 = ramdisk img" "second img1 = second img"
  using assms by (auto simp: update_images_total_Inr)

lemma update_images_keeps:
  assumes "update_images lb fs img = Inr img'"
  shows "at_exit (stream img') = at_exit (stream img)"
    and "page_size (header img') = page_size (header img)"
    and "page_size (header img) \<noteq> 0"
    and "is_dev (stream img') = is_dev (stream img)"
proof -
  from assms obtain img1 img2 img3 where p: "page_size (header img) \<noteq> 0"
    and 1: "update_images_kernel fs img = Inr img1"
    and 2: "update_images_ramdisk lb fs (update_images_roffset (header img))
            (ramdisk_size (header img)) img1 = Inr img2"
    and 3: "update_images_second lb fs (update_images_soffset (header img))
            (second_size (header img)) img2 = Inr img3"
    and 4: "update_images_total (page_size (header img)) img3 = Inr img'"
    unfolding update_images_Inr by blast
  show "at_exit (stream img') = at_exit (stream img)"
    using update_images_kernel_keeps(3) [OF 1] update_images_ramdisk_keeps(3) [OF 2]
      update_images_second_keeps(3) [OF 3] update_images_total_keeps(2) [OF 4] by simp
  show "page_size (header img') = page_size (header img)"
    using update_images_kernel_keeps(2) [OF 1] update_images_ramdisk_keeps(2) [OF 2]
      update_images_second_keeps(2) [OF 3] update_images_total_keeps(1) [OF 4] by simp
  show "page_size (header img) \<noteq> 0" by (rule p)
  show "is_dev (stream img') = is_dev (stream img)"
    using update_images_kernel_keeps(3) [OF 1] update_images_ramdisk_keeps(8) [OF 2]
      update_images_second_keeps(9) [OF 3] update_images_total_keeps(2) [OF 4] by simp
qed

lemma update_images_size:
  assumes "update_images lb fs img = Inr img'"
  shows "img_size img' = (if img_size img = 0 then hdr_total_size (header img') else img_size img)
    \<and> hdr_total_size (header img') \<le> img_size img'"
proof -
  from assms obtain img1 img2 img3 where
    1: "update_images_kernel fs img = Inr img1"
    and 2: "update_images_ramdisk lb fs (update_images_roffset (header img))
            (ramdisk_size (header img)) img1 = Inr img2"
    and 3: "update_images_second lb fs (update_images_soffset (header img))
            (second_size (header img)) img2 = Inr img3"
    and 4: "update_images_total (page_size (header img)) img3 = Inr img'"
    unfolding update_images_Inr by blast
  have s: "img_size img3 = img_size img"
    using update_images_kernel_keeps(1) [OF 1] update_images_ramdisk_keeps(1) [OF 2]
      update_images_second_keeps(1) [OF 3] by simp
  have p: "page_size (header img3) = page_size (header img)"
    using update_images_kernel_keeps(2) [OF 1] update_images_ramdisk_keeps(2) [OF 2]
      update_images_second_keeps(2) [OF 3] by simp
  show ?thesis
    using 4 s p by (auto simp: update_images_total_Inr hdr_total_size_def)
qed

lemma carry_over_not_TooBig: "carry_over lb img off sz what \<noteq> Inl (TooBig t s, st)"
  by (auto simp: carry_over_def fseekE_def fseek_def fread_def Let_def bindE_Inl
      split: option.splits if_splits)

lemma read_whole_file_not_TooBig: "read_whole_file fs name what \<noteq> Inl (TooBig t s)"
  by (auto simp: read_whole_file_def fread_def Let_def split: option.splits if_splits)

lemma update_images_kernel_not_TooBig: "update_images_kernel fs img \<noteq> Inl (TooBig t s, st)"
  by (auto simp: update_images_kernel_def bindE_Inl read_whole_file_not_TooBig
      split: option.splits)

lemma update_images_ramdisk_not_TooBig:
  "update_images_ramdisk lb fs ro rs img \<noteq> Inl (TooBig t s, st)"
  by (auto simp: update_images_ramdisk_def bindE_Inl read_whole_file_not_TooBig
      carry_over_not_TooBig split: option.splits if_splits)

lemma update_images_second_not_TooBig:
  "update_images_second lb fs so ss img \<noteq> Inl (TooBig t s, st)"
  by (auto simp: update_images_second_def bindE_Inl read_whole_file_not_TooBig
      carry_over_not_TooBig split: option.splits if_splits)

lemma update_images_TooBig:
  assumes "update_images lb fs img = Inl (TooBig t s, st)"
  shows "s = img_size img \<and> s \<noteq> 0 \<and> s < t"
proof -
  from assms have p: "page_size (header img) \<noteq> 0"
    by (auto simp: update_images_def Let_def split: if_splits)
  from assms p obtain img1 img2 img3 where
    1: "update_images_kernel fs img = Inr img1"
    and 2: "update_images_ramdisk lb fs (update_images_roffset (header img))
            (ramdisk_size (header img)) img1 = Inr img2"
    and 3: "update_images_second lb fs (update_images_soffset (header img))
            (second_size (header img)) img2 = Inr img3"
    and 4: "update_images_total (page_size (header img)) img3 = Inl (TooBig t s, st)"
    by (auto simp: update_images_def Let_def bindE_Inl update_images_kernel_not_TooBig
        update_images_ramdisk_not_TooBig update_images_second_not_TooBig)
  have s: "img_size img3 = img_size img"
    using update_images_kernel_keeps(1) [OF 1] update_images_ramdisk_keeps(1) [OF 2]
      update_images_second_keeps(1) [OF 3] by simp
  show ?thesis
    using 4 s by (auto simp: update_images_total_def Let_def split: if_splits)
qed

text \<open>
  The declared size of the image is used by \<^verbatim>\<open>update_images\<close> in its last step only:
  the run with a declared size of 0 gives the total, and the run with any other size
  aborts exactly when the size is below that total.
\<close>

lemma update_images_declared_size:
  assumes "update_images lb fs (img\<lparr>img_size := 0\<rparr>) = Inr imgz"
  shows "update_images lb fs (img\<lparr>img_size := s\<rparr>)
    = (if s = 0 then Inr imgz
       else if s < hdr_total_size (header imgz)
       then Inl (TooBig (hdr_total_size (header imgz)) s, stream imgz)
       else Inr (imgz\<lparr>img_size := s\<rparr>))"
proof -
  let ?ro = "update_images_roffset (header img)" and ?so = "update_images_soffset (header img)"
  let ?rs = "ramdisk_size (header img)" and ?ss = "second_size (header img)"
  let ?p = "page_size (header img)"
  from assms obtain img1 img2 img3 where p: "?p \<noteq> 0"
    and 1: "update_images_kernel fs (img\<lparr>img_size := 0\<rparr>) = Inr img1"
    and 2: "update_images_ramdisk lb fs ?ro ?rs img1 = Inr img2"
    and 3: "update_images_second lb fs ?so ?ss img2 = Inr img3"
    and 4: "update_images_total ?p img3 = Inr imgz"
    by (auto simp: update_images_Inr)
  have k1: "update_images_kernel fs (img\<lparr>img_size := s\<rparr>) = Inr (img1\<lparr>img_size := s\<rparr>)"
    using 1 unfolding update_images_kernel_Inr by auto
  have k2: "update_images_ramdisk lb fs ?ro ?rs (img1\<lparr>img_size := s\<rparr>) = Inr (img2\<lparr>img_size := s\<rparr>)"
    using 2 unfolding update_images_ramdisk_Inr by auto
  have k3: "update_images_second lb fs ?so ?ss (img2\<lparr>img_size := s\<rparr>) = Inr (img3\<lparr>img_size := s\<rparr>)"
    using 3 unfolding update_images_second_Inr by auto
  have z: "img_size img3 = 0"
    using update_images_kernel_keeps(1) [OF 1] update_images_ramdisk_keeps(1) [OF 2]
      update_images_second_keeps(1) [OF 3] by simp
  have pp: "page_size (header img3) = ?p"
    using update_images_kernel_keeps(2) [OF 1] update_images_ramdisk_keeps(2) [OF 2]
      update_images_second_keeps(2) [OF 3] by simp
  have i0: "imgz = img3\<lparr>img_size := hdr_total_size (header img3)\<rparr>"
    using 4 z pp by (simp add: update_images_total_def Let_def hdr_total_size_def)
  have t: "update_images_total ?p (img3\<lparr>img_size := s\<rparr>)
    = (if s = 0 then Inr imgz
       else if s < hdr_total_size (header imgz)
       then Inl (TooBig (hdr_total_size (header imgz)) s, stream imgz)
       else Inr (imgz\<lparr>img_size := s\<rparr>))"
    unfolding i0 using pp by (simp add: update_images_total_def Let_def hdr_total_size_def)
  show ?thesis
    using p unfolding t [symmetric] by (simp add: update_images_def Let_def k1 k2 k3)
qed

lemma update_images_TooBig_total:
  assumes "update_images lb fs img = Inl (TooBig t s, st)"
  shows "\<exists>imgz. update_images lb fs (img\<lparr>img_size := 0\<rparr>) = Inr imgz
    \<and> t = hdr_total_size (header imgz)"
proof -
  let ?ro = "update_images_roffset (header img)" and ?so = "update_images_soffset (header img)"
  let ?rs = "ramdisk_size (header img)" and ?ss = "second_size (header img)"
  let ?p = "page_size (header img)"
  from assms have p: "?p \<noteq> 0"
    by (auto simp: update_images_def Let_def split: if_splits)
  from assms p obtain img1 img2 img3 where
    1: "update_images_kernel fs img = Inr img1"
    and 2: "update_images_ramdisk lb fs ?ro ?rs img1 = Inr img2"
    and 3: "update_images_second lb fs ?so ?ss img2 = Inr img3"
    and 4: "update_images_total ?p img3 = Inl (TooBig t s, st)"
    by (auto simp: update_images_def Let_def bindE_Inl update_images_kernel_not_TooBig
        update_images_ramdisk_not_TooBig update_images_second_not_TooBig)
  have k1: "update_images_kernel fs (img\<lparr>img_size := 0\<rparr>) = Inr (img1\<lparr>img_size := 0\<rparr>)"
    using 1 unfolding update_images_kernel_Inr by auto
  have k2: "update_images_ramdisk lb fs ?ro ?rs (img1\<lparr>img_size := 0\<rparr>) = Inr (img2\<lparr>img_size := 0\<rparr>)"
    using 2 unfolding update_images_ramdisk_Inr by auto
  have k3: "update_images_second lb fs ?so ?ss (img2\<lparr>img_size := 0\<rparr>) = Inr (img3\<lparr>img_size := 0\<rparr>)"
    using 3 unfolding update_images_second_Inr by auto
  have pp: "page_size (header img3) = ?p"
    using update_images_kernel_keeps(2) [OF 1] update_images_ramdisk_keeps(2) [OF 2]
      update_images_second_keeps(2) [OF 3] by simp
  have t: "t = hdr_total_size (header img3)"
    using 4 pp by (auto simp: update_images_total_def Let_def hdr_total_size_def split: if_splits)
  have "update_images lb fs (img\<lparr>img_size := 0\<rparr>) = Inr (img3\<lparr>img_size := t\<rparr>)"
    using p pp unfolding t
    by (simp add: update_images_def Let_def k1 k2 k3 update_images_total_def hdr_total_size_def)
  then show ?thesis using t by auto
qed

lemma fopen_w_fields [simp]: "pending (fopen_w dest) = []"
  "content (fopen_w dest) = (case dest of Some (BlockDevice b) \<Rightarrow> b | _ \<Rightarrow> [])"
  by (auto simp: fopen_w_def fopen_stream_def split: option.splits disk_file.splits)

text \<open>
  A run of the command \<^verbatim>\<open>-t\<close> that is aborted after the image was opened and before
  \<^verbatim>\<open>write_bootimg\<close> leaves the destination as \<^verbatim>\<open>fopen\<close> made it.
\<close>

lemma main_create_Aborted:
  assumes "main_create pol blk bh lb fs config_args img dest = Aborted e d"
    and "check_if_block_device blk dest img = Inr imgz"
  shows "d = Some (case dest of Some (BlockDevice b) \<Rightarrow> b | _ \<Rightarrow> [])"
proof -
  let ?chain = "bindE (at_stream (fopen_w dest)
                   (update_header bh lb fs config_args (imgz\<lparr>stream := fopen_w dest\<rparr>)))
      (\<lambda>img1. bindE (update_images lb fs img1)
         (\<lambda>img2. if snd (check_boot_img_header bh img2) \<noteq> 0
                 then Inl (SanityChecksFailed, stream img2) else Inr img2))"
  from assms obtain st where c: "?chain = Inl (e, st)" and d: "d = Some (at_exit st)"
    by (auto simp: main_create_def split: sum.splits if_splits)
  have o: "at_exit (fopen_w dest) = content (fopen_w dest)" by (simp add: at_exit_idle)
  have "at_exit st = content (fopen_w dest)"
  proof (cases "update_header bh lb fs config_args (imgz\<lparr>stream := fopen_w dest\<rparr>)")
    case (Inl x)
    with c show ?thesis using o by simp
  next
    case 1: (Inr img1)
    have s: "stream img1 = fopen_w dest"
      using update_header_frame [OF 1] by (simp add: same_segments_def)
    show ?thesis
    proof (cases "update_images lb fs img1")
      case (Inl x)
      with c 1 have "update_images lb fs img1 = Inl (e, st)" by simp
      then show ?thesis using update_images_at_exit s o by fastforce
    next
      case 2: (Inr img2)
      with c 1 have "st = stream img2" by (simp split: if_splits)
      then show ?thesis using update_images_keeps(1) [OF 2] s o by simp
    qed
  qed
  then show ?thesis using d by simp
qed

lemma check_if_block_device_not_TooBig:
  "check_if_block_device blk dest img \<noteq> Inl (TooBig t s)"
  by (auto simp: check_if_block_device_def split: option.splits disk_file.splits if_splits)

lemmas eval_defs = update_images_def update_images_kernel_def update_images_ramdisk_def
  update_images_second_def update_images_total_def read_whole_file_def fread_def fopen_stream_def
  carry_over_def fseekE_def fseek_def total_size_def npages_def update_images_roffset_def
  update_images_soffset_def Let_def

text \<open>
  C3, amended. The total that \<^verbatim>\<open>update_images\<close> compares with the declared size is
  computed in 32-bit unsigned arithmetic from the updated header; it is the total of the
  layout when that is below \<open>2 ^ 32\<close>. When \<^verbatim>\<open>update_images\<close> succeeds, a declared size
  of 0 has become that total and any other size is unchanged and not below it. With a
  declared size that is not 0 and below the total of the header that the same run with
  a declared size of 0 produces, \<^verbatim>\<open>update_images\<close> aborts with the message that the
  update is too big, and it gives that message, with that total, in no other case. At
  that abort nothing has been written to the stream of the image. After the end of the
  program the command
  \<^verbatim>\<open>-u\<close> has left the destination, a regular file or a block device, as it was; the
  command \<^verbatim>\<open>-t\<close> has left a block device as it was, and a regular file empty, since
  the file was created or truncated when it was opened.
\<close>

theorem oversize_aborts_before_write:
  "(update_images lb fs img = Inr img1 \<longrightarrow>
      img_size img1 = (if img_size img = 0 then hdr_total_size (header img1) else img_size img)
      \<and> hdr_total_size (header img1) \<le> img_size img1
      \<and> (spec_total (unat (page_size (header img1))) (unat (kernel_size (header img1)))
            (unat (ramdisk_size (header img1))) (unat (second_size (header img1))) < 2 ^ 32
          \<longrightarrow> unat (hdr_total_size (header img1))
              = spec_total (unat (page_size (header img1))) (unat (kernel_size (header img1)))
                  (unat (ramdisk_size (header img1))) (unat (second_size (header img1)))))
   \<and> (update_images lb fs img = Inl (TooBig t s, st)
        \<longrightarrow> s = img_size img \<and> s \<noteq> 0 \<and> s < t \<and> at_exit st = at_exit (stream img)
          \<and> (\<exists>imgz. update_images lb fs (img\<lparr>img_size := 0\<rparr>) = Inr imgz
                \<and> t = hdr_total_size (header imgz)))
   \<and> (update_images lb fs (img\<lparr>img_size := 0\<rparr>) = Inr imgz \<and> img_size img \<noteq> 0
        \<and> img_size img < hdr_total_size (header imgz)
        \<longrightarrow> update_images lb fs img
            = Inl (TooBig (hdr_total_size (header imgz)) (img_size img), stream imgz))
   \<and> (main_update pol bh lb fs config_args img (Some f) = Aborted (TooBig t s) d
        \<longrightarrow> d = Some (file_bytes f))
   \<and> (main_create pol blk bh lb fs config_args img dest
         = Aborted (TooBig t s) d
        \<longrightarrow> d = Some (case dest of Some (BlockDevice b) \<Rightarrow> b | _ \<Rightarrow> []))"
proof (intro conjI impI)
  assume u: "update_images lb fs img = Inr img1"
  show "img_size img1 = (if img_size img = 0 then hdr_total_size (header img1) else img_size img)"
    using update_images_size [OF u] by (rule conjunct1)
  show "hdr_total_size (header img1) \<le> img_size img1"
    using update_images_size [OF u] by (rule conjunct2)
  assume fit: "spec_total (unat (page_size (header img1))) (unat (kernel_size (header img1)))
            (unat (ramdisk_size (header img1))) (unat (second_size (header img1))) < 2 ^ 32"
  have p: "page_size (header img1) \<noteq> 0" using update_images_keeps(2,3) [OF u] by simp
  show "unat (hdr_total_size (header img1))
      = spec_total (unat (page_size (header img1))) (unat (kernel_size (header img1)))
          (unat (ramdisk_size (header img1))) (unat (second_size (header img1)))"
    unfolding hdr_total_size_def using p fit by (rule unat_total_size)
next
  assume a: "update_images lb fs img = Inl (TooBig t s, st)"
  show "s = img_size img" "s \<noteq> 0" "s < t" "at_exit st = at_exit (stream img)"
    using update_images_TooBig [OF a] update_images_at_exit [OF a] by auto
  show "\<exists>imgz. update_images lb fs (img\<lparr>img_size := 0\<rparr>) = Inr imgz
      \<and> t = hdr_total_size (header imgz)"
    using a by (rule update_images_TooBig_total)
next
  assume a: "update_images lb fs (img\<lparr>img_size := 0\<rparr>) = Inr imgz \<and> img_size img \<noteq> 0
        \<and> img_size img < hdr_total_size (header imgz)"
  then have b: "update_images lb fs (img\<lparr>img_size := 0\<rparr>) = Inr imgz" by simp
  have "update_images lb fs (img\<lparr>img_size := img_size img\<rparr>)
      = Inl (TooBig (hdr_total_size (header imgz)) (img_size img), stream imgz)"
    using a unfolding update_images_declared_size [OF b] by simp
  then show "update_images lb fs img
      = Inl (TooBig (hdr_total_size (header imgz)) (img_size img), stream imgz)"
    by simp
next
  assume "main_update pol bh lb fs config_args img (Some f) = Aborted (TooBig t s) d"
  then show "d = Some (file_bytes f)" by (rule main_update_Aborted)
next
  assume a: "main_create pol blk bh lb fs config_args img dest
         = Aborted (TooBig t s) d"
  then obtain i0 where c: "check_if_block_device blk dest img = Inr i0"
    using check_if_block_device_not_TooBig [of blk dest img t s]
    by (cases "check_if_block_device blk dest img")
      (auto simp: main_create_def split: if_splits)
  show "d = Some (case dest of Some (BlockDevice b) \<Rightarrow> b | _ \<Rightarrow> [])"
    using main_create_Aborted [OF a c] .
qed

lemma update_header_no_config:
  "config_fname img = None \<Longrightarrow> update_header bh lb fs [] img = Inr img"
  by (simp add: update_header_def c_str_def)

lemma imgc_fields: "config_fname imgc = None" "kernel_fname imgc = Some ''zImage''"
  "ramdisk_fname imgc = Some ''initrd.img''" "second_fname imgc = None" "fname imgc = ''boot.img''"
  "kernel imgc = None" "ramdisk imgc = None" "second imgc = None" "img_size imgc = 0"
  "is_blkdev imgc = False"
  by (simp_all add: imgc_def parse_args_files_def new_bootimg_def)

lemma update_header_bootsize_example:
  "update_header android_h 64 fs0 ''bootsize = 0x800'' (imgc\<lparr>stream := st\<rparr>)
      = Inr (imgc\<lparr>stream := st, img_size := 2048\<rparr>)"
  by (simp add: update_header_def c_str_def update_header_entry_unfold entry_rest_def
      entry_token_def entry_line_def is_blank_def is_key_char_def strtoul_def
      strtoul_sign_def strtoul_base_def isspace_def digit_val_def Let_def imgc_def
      parse_args_files_def new_bootimg_def)

lemma update_images_too_big_example:
  "update_images 64 fs0 (imgc\<lparr>stream := st, img_size := 2048\<rparr>)
      = Inl (TooBig 10240 2048, st)"
  by (simp add: eval_defs imgc_def parse_args_files_def new_bootimg_def fs0_def)

lemma main_create_device_example:
  "main_create pol (Some \<lparr>blkid_type = None, unset_mode_is_blk = False\<rparr>) android_h 64 fs0 []
     imgc (Some (BlockDevice ''old image''))
     = Aborted (TooBig 10240 9) (Some ''old image'')"
proof -
  let ?st = "fopen_w (Some (BlockDevice ''old image''))"
  let ?img = "imgc\<lparr>is_blkdev := True, img_size := 9, stream := ?st\<rparr>"
  have uh: "update_header android_h 64 fs0 [] ?img = Inr ?img"
    by (rule update_header_no_config) (simp add: imgc_fields)
  have ui: "update_images 64 fs0 ?img = Inl (TooBig 10240 9, ?st)"
    by (simp add: eval_defs imgc_def parse_args_files_def new_bootimg_def fs0_def)
  show ?thesis
    by (simp add: main_create_def check_if_block_device_def imgc_fields uh ui at_exit_idle)
qed

lemma main_create_too_big_example:
  "main_create pol None android_h 64 fs0 ''bootsize = 0x800'' imgc dest
     = Aborted (TooBig 10240 2048) (Some (content (fopen_w dest)))"
  by (simp add: main_create_def check_if_block_device_def update_header_bootsize_example
      update_images_too_big_example imgc_fields at_exit_idle)

text \<open>
  C3. The claim: when the total exceeds a declared size the operation fails and the
  destination is left unchanged, in the update and in the create path. It fails in the
  create path on a regular file: the image is opened with mode \<^verbatim>\<open>w\<close> before the sizes
  are known, so an existing file is already empty when the size check aborts.
\<close>

theorem create_truncates_before_oversize_check_counterexample:
  "main_create (block_buffered 4096) None android_h 64 fs0 ''bootsize = 0x800'' imgc
       (Some (Regular ''old image''))
     = Aborted (TooBig 10240 2048) (Some [])"
  by (simp add: main_create_too_big_example fopen_w_def fopen_stream_def)

text \<open>
  The theorem at the command \<^verbatim>\<open>-t\<close> with \<^verbatim>\<open>-k zImage -r initrd.img\<close>, a layout of
  10240 bytes: without a declared size the size becomes 10240; with a declared size of
  2048 the run aborts and a block device keeps its bytes, as does a block device of 9
  bytes whose size a program compiled with \<^verbatim>\<open>HAS_BLKID\<close> takes as the declared
  size. The command \<^verbatim>\<open>-u\<close> on an image of 6144 bytes aborts and leaves the image as
  it was.
\<close>

theorem oversize_aborts_before_write_witness:
  "(\<exists>i. update_images 64 fs0 (imgc\<lparr>stream := fopen_stream []\<rparr>) = Inr i
        \<and> img_size i = hdr_total_size (header i) \<and> img_size i = 10240
        \<and> unat (hdr_total_size (header i)) = spec_total 2048 3000 3000 0)
   \<and> update_images 64 fs0 (imgc\<lparr>stream := fopen_stream [], img_size := 2048\<rparr>)
       = Inl (TooBig 10240 2048, fopen_stream [])
   \<and> main_update (block_buffered 4096) android_h 64 fs0 [] imgc
         (Some (Regular (sample_image (hdr0\<lparr>kernel_size := 3000\<rparr>) 6144)))
       = Aborted (TooBig 10240 6144) (Some (sample_image (hdr0\<lparr>kernel_size := 3000\<rparr>) 6144))
   \<and> main_create (block_buffered 4096) None android_h 64 fs0 ''bootsize = 0x800'' imgc
         (Some (BlockDevice ''old image''))
       = Aborted (TooBig 10240 2048) (Some ''old image'')
   \<and> main_create (block_buffered 4096) (Some \<lparr>blkid_type = None, unset_mode_is_blk = False\<rparr>)
         android_h 64 fs0 [] imgc (Some (BlockDevice ''old image''))
       = Aborted (TooBig 10240 9) (Some ''old image'')"
proof -
  let ?h = "hdr0\<lparr>kernel_size := 3000\<rparr>"
  let ?image = "sample_image ?h 6144"
  obtain i where i: "update_images 64 fs0 (imgc\<lparr>stream := fopen_stream []\<rparr>) = Inr i"
    and i2: "img_size i = 10240"
    and ih: "header i = (header imgc)\<lparr>kernel_size := 3000, ramdisk_size := 3000\<rparr>"
    by (simp add: eval_defs imgc_def parse_args_files_def new_bootimg_def fs0_def)
  note t = oversize_aborts_before_write [of 64 fs0 "imgc\<lparr>stream := fopen_stream []\<rparr>" i]
  have i3: "img_size i = hdr_total_size (header i)"
    using t i by (simp add: imgc_fields)
  have sp: "spec_total 2048 3000 3000 0 = 10240"
    by (simp add: spec_total_def spec_pages_def)
  have i4: "unat (hdr_total_size (header i)) = spec_total 2048 3000 3000 0"
    using t i unfolding ih
    by (simp add: imgc_def parse_args_files_def new_bootimg_def sp)
  have u: "update_images 64 fs0 (imgc\<lparr>stream := fopen_stream [], img_size := 2048\<rparr>)
       = Inl (TooBig 10240 2048, fopen_stream [])"
    by (rule update_images_too_big_example)
  have wf: "length (magic ?h) = 8" "length (cmdline ?h) = 512" "length (reserved ?h) = 56"
    by (simp_all add: hdr0_def)
  let ?st = "\<lparr>content = ?image, pos = 608, eof = False, pending = [], is_dev = False\<rparr>"
  let ?img1 = "imgc\<lparr>header := ?h, stream := ?st, img_size := 6144, is_blkdev := False\<rparr>"
  have c: "snd (check_boot_img_header android_h ?img1) = 0"
    by (simp add: check_boot_img_header_def android_h_def hdr0_def imgc_def parse_args_files_def
        strncmp_eq_def c_str_def total_size_def npages_def Let_def)
  have rh: "read_header android_h (imgc\<lparr>stream := fopen_stream ?image\<rparr>) = Inr ?img1"
    using read_header_sample [OF wf, of 6144 imgc] c by (simp add: Let_def)
  have uh: "update_header android_h 64 fs0 [] ?img1 = Inr ?img1"
    by (rule update_header_no_config) (simp add: imgc_fields)
  have ui: "update_images 64 fs0 ?img1 = Inl (TooBig 10240 6144, ?st)"
    by (simp add: eval_defs imgc_def parse_args_files_def new_bootimg_def fs0_def hdr0_def)
  have mu: "main_update (block_buffered 4096) android_h 64 fs0 [] imgc (Some (Regular ?image))
      = Aborted (TooBig 10240 6144) (Some ?image)"
    by (simp add: main_update_def fopen_file_def rh uh ui at_exit_idle)
  have mc: "main_create (block_buffered 4096) None android_h 64 fs0 ''bootsize = 0x800''
        imgc (Some (BlockDevice ''old image''))
      = Aborted (TooBig 10240 2048) (Some ''old image'')"
    by (simp add: main_create_too_big_example fopen_w_def fopen_stream_def)
  note md = main_create_device_example [of "block_buffered 4096"]
  show ?thesis using i i2 i3 i4 u mu mc md by blast
qed

section \<open>Properties of the written image\<close>

subsection \<open>Writes through the buffer of the stream\<close>

lemma length_overwrite: "length (overwrite old p new) = max (length old) (p + length new)"
  by (simp add: overwrite_def)



lemma overwrite_append: "overwrite (overwrite c p a) (p + length a) b = overwrite c p (a @ b)"
  by (auto simp: overwrite_def min_def drop_take add_ac)


text \<open>
  What the file will hold does not depend on when the buffer is passed on: a partial flush
  changes neither the bytes at the end of the program nor the position of the stream.
\<close>

lemma flush_some_view [simp]:
  "at_exit (flush_some k st) = at_exit st" "ftell (flush_some k st) = ftell st"
  "is_dev (flush_some k st) = is_dev st"
proof -
  show "at_exit (flush_some k st) = at_exit st"
  proof (cases "take k (pending st) = []")
    case True
    then show ?thesis by (simp add: flush_some_def)
  next
    case False
    have "overwrite (overwrite (content st) (pos st) (take k (pending st)))
        (pos st + length (take k (pending st))) (drop k (pending st))
      = overwrite (content st) (pos st) (pending st)"
      unfolding overwrite_append by simp
    moreover have "drop k (pending st) = [] \<Longrightarrow> take k (pending st) = pending st"
      by simp
    ultimately show ?thesis
      using False by (auto simp: at_exit_def fflush_def flush_some_def Let_def)
  qed
  show "ftell (flush_some k st) = ftell st"
    by (auto simp: flush_some_def ftell_def Let_def min_def)
  show "is_dev (flush_some k st) = is_dev st"
    by (simp add: flush_some_def Let_def)
qed

lemma fwrite_Inr:
  "fwrite pol buf sz st = Inr st' \<longleftrightarrow>
     (sz = 0 \<and> st' = st)
   \<or> (sz \<noteq> 0 \<and> (\<exists>b. buf = Some b \<and> sz \<le> length b
         \<and> st' = flush_some (pol st (take sz b))
                   (st\<lparr>pending := pending st @ take sz b\<rparr>)))"
  by (cases buf) (auto simp: fwrite_def)


lemma ftell_append: "ftell (st\<lparr>pending := pending st @ d\<rparr>) = ftell st + length d"
  by (simp add: ftell_def)


lemma fwrite_ftell:
  assumes "fwrite pol buf sz st = Inr st'"
  shows "ftell st' = ftell st + sz" and "is_dev st' = is_dev st"
  using assms by (auto simp: fwrite_Inr ftell_append)



lemma write_segment_Inr:
  "write_segment pol psize buf sz st = Inr st' \<longleftrightarrow>
     (\<exists>st1. fwrite pol buf (unat sz) st = Inr st1
        \<and> fwrite pol (Some (replicate (unat psize) NUL)) (unat (psize - sz mod psize)) st1
            = Inr st')"
  by (simp add: write_segment_def bindE_Inr)

lemma write_segment_ftell:
  assumes "write_segment pol psize buf sz st = Inr st'"
  shows "ftell st' = ftell st + unat sz + unat (psize - sz mod psize)"
    and "is_dev st' = is_dev st"
  using assms fwrite_ftell by (fastforce simp: write_segment_Inr)+



lemma fseekE_view:
  assumes "fseekE lb name off st = Inr st1"
  shows "at_exit st1 = at_exit st" and "ftell st1 = unat off" and "pending st1 = []"
    and "is_dev st1 = is_dev st"
  using assms by (auto simp: fseekE_Inr ftell_def)

subsection \<open>The file after ftruncate and the flush at the end of the program\<close>

lemma at_exit_ftruncate_length:
  assumes "\<not> is_dev st" and "unat len < 2 ^ (lb - 1)"
  shows "length (at_exit (ftruncate lb len st))
    = (if pending st = [] then unat len else max (unat len) (ftell st))"
  using assms
  by (auto simp: at_exit_def fflush_def flush_some_def ftruncate_def ftell_def Let_def
      length_overwrite)

lemma ftruncate_fields [simp]: "pending (ftruncate lb len st) = pending st"
  "pos (ftruncate lb len st) = pos st" "ftell (ftruncate lb len st) = ftell st"
  by (simp_all add: ftruncate_def ftell_def)



subsection \<open>The steps of write_bootimg\<close>

lemma bindE_InrE:
  assumes "bindE m f = Inr y"
  obtains x where "m = Inr x" and "f x = Inr y"
  using assms by (auto simp: bindE_Inr)

lemma write_bootimg_InrE:
  assumes "write_bootimg pol bh lb img = Inr img'"
  obtains st0 st1 st2 st3 st4 st5 where
    "page_size (header img) \<noteq> 0"
    "fseekE lb (fname img) 0 (stream img) = Inr st0"
    "fwrite pol (Some (hdr_bytes bh (header img))) (sizeof_hdr bh) st0 = Inr st1"
    "fwrite pol (Some (replicate (unat (page_size (header img))) NUL))
            (hdr_padding_len bh lb (page_size (header img))) st1 = Inr st2"
    "(if kernel img \<noteq> None
      then write_segment pol (page_size (header img)) (kernel img) (kernel_size (header img)) st2
      else Inr st2) = Inr st3"
    "(if ramdisk img \<noteq> None
      then bindE (fseekE lb (fname img) (write_bootimg_roffset (header img)) st3)
             (write_segment pol (page_size (header img)) (ramdisk img)
                (ramdisk_size (header img)))
      else Inr st3) = Inr st4"
    "(if second_size (header img) \<noteq> 0
      then bindE (fseekE lb (fname img) (write_bootimg_soffset (header img)) st4)
             (write_segment pol (page_size (header img)) (second img)
                (second_size (header img)))
      else Inr st4) = Inr st5"
    "img' = img\<lparr>stream := ftruncate lb (img_size img) st5\<rparr>"
proof -
  have p: "page_size (header img) \<noteq> 0"
  proof
    assume z: "page_size (header img) = 0"
    have "write_bootimg pol bh lb img = Inl Undefined"
      unfolding write_bootimg_def Let_def by (simp add: z)
    with assms show False by simp
  qed
  note c = assms [unfolded write_bootimg_def Let_def if_not_P [OF p]]
  show thesis
    using c
    apply (elim bindE_InrE)
    apply (rule that [OF p])
          apply assumption+
    apply simp
    done
qed

lemma ftruncate_is_dev [simp]: "is_dev (ftruncate lb len st) = is_dev st"
  by (simp add: ftruncate_def)

lemma seek_segment_ftell:
  assumes "bindE (fseekE lb name off st) (write_segment pol psize buf sz) = Inr st'"
  shows "ftell st' = unat off + unat sz + unat (psize - sz mod psize)"
    and "is_dev st' = is_dev st"
proof -
  from assms obtain st1 where 1: "fseekE lb name off st = Inr st1"
    and 2: "write_segment pol psize buf sz st1 = Inr st'"
    by (rule bindE_InrE)
  show "ftell st' = unat off + unat sz + unat (psize - sz mod psize)"
    using write_segment_ftell(1) [OF 2] fseekE_view(2) [OF 1] by simp
  show "is_dev st' = is_dev st"
    using write_segment_ftell(2) [OF 2] fseekE_view(4) [OF 1] by simp
qed

lemma write_bootimg_end:
  assumes "write_bootimg pol bh lb img = Inr img'"
  obtains st5 where "img' = img\<lparr>stream := ftruncate lb (img_size img) st5\<rparr>"
    and "ftell st5 = write_end bh lb img" and "is_dev st5 = is_dev (stream img)"
    and "page_size (header img) \<noteq> 0"
proof -
  let ?h = "header img" and ?p = "page_size (header img)"
  from assms obtain st0 st1 st2 st3 st4 st5 where
    p: "?p \<noteq> 0"
    and 0: "fseekE lb (fname img) 0 (stream img) = Inr st0"
    and 1: "fwrite pol (Some (hdr_bytes bh ?h)) (sizeof_hdr bh) st0 = Inr st1"
    and 2: "fwrite pol (Some (replicate (unat ?p) NUL)) (hdr_padding_len bh lb ?p) st1 = Inr st2"
    and 3: "(if kernel img \<noteq> None
      then write_segment pol ?p (kernel img) (kernel_size ?h) st2
      else Inr st2) = Inr st3"
    and 4: "(if ramdisk img \<noteq> None
      then bindE (fseekE lb (fname img) (write_bootimg_roffset ?h) st3)
             (write_segment pol ?p (ramdisk img) (ramdisk_size ?h))
      else Inr st3) = Inr st4"
    and 5: "(if second_size ?h \<noteq> 0
      then bindE (fseekE lb (fname img) (write_bootimg_soffset ?h) st4)
             (write_segment pol ?p (second img) (second_size ?h))
      else Inr st4) = Inr st5"
    and i: "img' = img\<lparr>stream := ftruncate lb (img_size img) st5\<rparr>"
    by (rule write_bootimg_InrE)
  have t2: "ftell st2 = sizeof_hdr bh + hdr_padding_len bh lb ?p" "is_dev st2 = is_dev (stream img)"
    using fseekE_view(2,4) [OF 0] fwrite_ftell [OF 1] fwrite_ftell [OF 2] by simp_all
  have t3: "ftell st3 = (if kernel img \<noteq> None
      then sizeof_hdr bh + hdr_padding_len bh lb ?p + unat (kernel_size ?h)
             + unat (?p - kernel_size ?h mod ?p)
      else sizeof_hdr bh + hdr_padding_len bh lb ?p)" "is_dev st3 = is_dev (stream img)"
    using 3 t2 write_segment_ftell [of pol ?p "kernel img" "kernel_size ?h" st2 st3]
    by (auto split: if_splits)
  have t4: "ftell st4 = (if ramdisk img \<noteq> None
      then unat (write_bootimg_roffset ?h) + unat (ramdisk_size ?h)
             + unat (?p - ramdisk_size ?h mod ?p)
      else ftell st3)" "is_dev st4 = is_dev (stream img)"
    using 4 t3(2) seek_segment_ftell [of lb "fname img" "write_bootimg_roffset ?h" st3 pol ?p
        "ramdisk img" "ramdisk_size ?h" st4]
    by (auto split: if_splits)
  have t5: "ftell st5 = (if second_size ?h \<noteq> 0
      then unat (write_bootimg_soffset ?h) + unat (second_size ?h)
             + unat (?p - second_size ?h mod ?p)
      else ftell st4)" "is_dev st5 = is_dev (stream img)"
    using 5 t4(2) seek_segment_ftell [of lb "fname img" "write_bootimg_soffset ?h" st4 pol ?p
        "second img" "second_size ?h" st5]
    by (auto split: if_splits)
  have te: "ftell st5 = write_end bh lb img"
    unfolding t5(1) t4(1) t3(1) by (simp add: write_end_def Let_def)
  show thesis by (rule that [OF i te t5(2) p])
qed

subsection \<open>The end of the last write against the total\<close>





subsection \<open>The layout without wrap-around\<close>




subsection \<open>The ramdisk that is carried over\<close>



subsection \<open>The length of the written file\<close>








subsection \<open>When write_bootimg succeeds\<close>

lemma fwrite_ok: "sz \<le> length b \<Longrightarrow> \<exists>st'. fwrite pol (Some b) sz st = Inr st'"
  by (simp add: fwrite_def)

lemma padding_le: "psize \<noteq> 0 \<Longrightarrow> unat (psize - sz mod psize) \<le> unat (psize :: u32)"
proof -
  assume "psize \<noteq> 0"
  then have "sz mod psize < psize" by (simp add: word_mod_less_divisor word_neq_0_conv)
  then have "unat (psize - sz mod psize) = unat psize - unat (sz mod psize)"
    by (simp add: unat_sub word_le_nat_alt word_less_nat_alt)
  then show ?thesis by simp
qed

lemma write_segment_ok:
  assumes "unat sz \<le> length b" and "psize \<noteq> 0"
  shows "\<exists>st'. write_segment pol psize (Some b) sz st = Inr st'"
proof -
  obtain st1 where 1: "fwrite pol (Some b) (unat sz) st = Inr st1"
    using fwrite_ok [OF assms(1)] by blast
  have "unat (psize - sz mod psize) \<le> length (replicate (unat psize) NUL)"
    using padding_le [OF assms(2)] by simp
  then obtain st2 where
    "fwrite pol (Some (replicate (unat psize) NUL)) (unat (psize - sz mod psize)) st1 = Inr st2"
    using fwrite_ok by blast
  then show ?thesis using 1 by (simp add: write_segment_def)
qed

lemma fseekE_ok: "unat off < 2 ^ (lb - 1) \<Longrightarrow> \<exists>st'. fseekE lb name off st = Inr st'"
  by (simp add: fseekE_def fseek_def)

lemma write_bootimg_ok:
  assumes p: "page_size (header img) \<noteq> 0"
    and hb: "sizeof_hdr bh \<le> length (hdr_bytes bh (header img))"
    and hp: "hdr_padding_len bh lb (page_size (header img)) \<le> unat (page_size (header img))"
    and k: "case kernel img of None \<Rightarrow> True
            | Some b \<Rightarrow> unat (kernel_size (header img)) \<le> length b"
    and r: "case ramdisk img of None \<Rightarrow> True
            | Some b \<Rightarrow> unat (ramdisk_size (header img)) \<le> length b
                \<and> unat (write_bootimg_roffset (header img)) < 2 ^ (lb - 1)"
    and s: "second_size (header img) = 0
            \<or> (case second img of None \<Rightarrow> False
                | Some b \<Rightarrow> unat (second_size (header img)) \<le> length b
                    \<and> unat (write_bootimg_soffset (header img)) < 2 ^ (lb - 1))"
  shows "\<exists>img'. write_bootimg pol bh lb img = Inr img'"
proof -
  let ?h = "header img" and ?p = "page_size (header img)"
  obtain st0 where 0: "fseekE lb (fname img) 0 (stream img) = Inr st0"
    using fseekE_ok [of 0 lb] by auto
  obtain st1 where 1: "fwrite pol (Some (hdr_bytes bh ?h)) (sizeof_hdr bh) st0 = Inr st1"
    using fwrite_ok [OF hb] by blast
  obtain st2 where 2: "fwrite pol (Some (replicate (unat ?p) NUL)) (hdr_padding_len bh lb ?p) st1
      = Inr st2"
    using fwrite_ok [of "hdr_padding_len bh lb ?p" "replicate (unat ?p) NUL"] hp by auto
  obtain st3 where 3: "(if kernel img \<noteq> None
      then write_segment pol ?p (kernel img) (kernel_size ?h) st2 else Inr st2) = Inr st3"
  proof (cases "kernel img")
    case None
    then show ?thesis using that by simp
  next
    case (Some b)
    then have "unat (kernel_size ?h) \<le> length b" using k by simp
    then obtain y where "write_segment pol ?p (Some b) (kernel_size ?h) st2 = Inr y"
      using write_segment_ok [OF _ p] by blast
    then show ?thesis using that Some by simp
  qed
  obtain st4 where 4: "(if ramdisk img \<noteq> None
      then bindE (fseekE lb (fname img) (write_bootimg_roffset ?h) st3)
             (write_segment pol ?p (ramdisk img) (ramdisk_size ?h))
      else Inr st3) = Inr st4"
  proof (cases "ramdisk img")
    case None
    then show ?thesis using that by simp
  next
    case (Some b)
    then have rb: "unat (ramdisk_size ?h) \<le> length b"
      "unat (write_bootimg_roffset ?h) < 2 ^ (lb - 1)" using r by simp_all
    obtain x where "fseekE lb (fname img) (write_bootimg_roffset ?h) st3 = Inr x"
      using fseekE_ok [OF rb(2)] by blast
    moreover obtain y where "write_segment pol ?p (Some b) (ramdisk_size ?h) x = Inr y"
      using write_segment_ok [OF rb(1) p] by blast
    ultimately show ?thesis using that Some by simp
  qed
  obtain st5 where 5: "(if second_size ?h \<noteq> 0
      then bindE (fseekE lb (fname img) (write_bootimg_soffset ?h) st4)
             (write_segment pol ?p (second img) (second_size ?h))
      else Inr st4) = Inr st5"
  proof (cases "second_size ?h = 0")
    case True
    then show ?thesis using that by simp
  next
    case False
    with s obtain b where b: "second img = Some b" "unat (second_size ?h) \<le> length b"
      "unat (write_bootimg_soffset ?h) < 2 ^ (lb - 1)"
      by (cases "second img") auto
    obtain x where "fseekE lb (fname img) (write_bootimg_soffset ?h) st4 = Inr x"
      using fseekE_ok [OF b(3)] by blast
    moreover obtain y where "write_segment pol ?p (Some b) (second_size ?h) x = Inr y"
      using write_segment_ok [OF b(2) p] by blast
    ultimately show ?thesis using that False b(1) by simp
  qed
  show ?thesis
    using p 0 1 2 3 4 5 unfolding write_bootimg_def Let_def by simp
qed

subsection \<open>The header and the ramdisk in the written file\<close>





subsection \<open>Runs on the sample image\<close>

lemma write_bootimg_length:
  assumes w: "write_bootimg pol bh lb img1 = Inr img2"
    and l: "unat (img_size img1) < 2 ^ (lb - 1)"
    and nd: "\<not> is_dev (stream img1)"
  shows "length (at_exit (stream img2))
           = (if pending (stream img2) = [] then unat (img_size img1)
              else max (unat (img_size img1)) (write_end bh lb img1))"
    and "header img2 = header img1"
proof -
  from w obtain st5 where i: "img2 = img1\<lparr>stream := ftruncate lb (img_size img1) st5\<rparr>"
    and e: "ftell st5 = write_end bh lb img1" and d: "is_dev st5 = is_dev (stream img1)"
    by (rule write_bootimg_end)
  have nd5: "\<not> is_dev st5" using d nd by simp
  show "length (at_exit (stream img2))
           = (if pending (stream img2) = [] then unat (img_size img1)
              else max (unat (img_size img1)) (write_end bh lb img1))"
    unfolding i using at_exit_ftruncate_length [OF nd5 l] e by simp
  show "header img2 = header img1" unfolding i by simp
qed








subsection \<open>The ramdisk carried over by a kernel update\<close>







subsection \<open>A last segment of whole pages\<close>

text \<open>
  The padding after a segment has \<^verbatim>\<open>psize - (size % psize)\<close> bytes, a whole page when
  the size is a multiple of the page size, so the last write then ends one page after the
  computed total. Whether these bytes reach the file before or after \<^verbatim>\<open>ftruncate\<close>
  depends on the buffer of the stream.
\<close>

lemma fwrite_pending_unbuffered:
  assumes "fwrite unbuffered buf sz st = Inr st'" and "pending st = []"
  shows "pending st' = []"
  using assms by (auto simp: fwrite_Inr flush_some_def unbuffered_def Let_def)

lemma fwrite_pending_block:
  assumes "fwrite (block_buffered b) buf sz st = Inr st'" and "length (pending st) < b"
  shows "length (pending st') = (length (pending st) + sz) mod b"
proof (cases "sz = 0")
  case True
  then show ?thesis using assms by (simp add: fwrite_Inr)
next
  case False
  with assms(1) obtain ba where ba: "sz \<le> length ba"
    and s0: "st' = flush_some ((length (pending st) + sz) div b * b)
               (st\<lparr>pending := pending st @ take sz ba\<rparr>)"
    by (auto simp: fwrite_Inr block_buffered_def min_def)
  define d where "d = take sz ba"
  have d: "length d = sz" using ba by (simp add: d_def)
  have s: "st' = flush_some ((length (pending st) + sz) div b * b)
               (st\<lparr>pending := pending st @ d\<rparr>)"
    using s0 by (simp add: d_def)
  let ?n = "length (pending st) + sz"
  have "?n div b * b \<le> ?n" by simp
  then have "length (pending st') = ?n - ?n div b * b"
    unfolding s using d by (auto simp: flush_some_def Let_def)
  then show ?thesis by (simp add: minus_div_mult_eq_mod)
qed

lemma write_segment_pending_unbuffered:
  assumes "write_segment unbuffered psize buf sz st = Inr st'" and "pending st = []"
  shows "pending st' = []"
  using assms fwrite_pending_unbuffered by (fastforce simp: write_segment_Inr)

lemma write_segment_pending_block:
  assumes "write_segment (block_buffered b) psize buf sz st = Inr st'"
    and "pending st = []" and "0 < b"
  shows "length (pending st')
    = (unat sz mod b + unat (psize - sz mod psize)) mod b"
proof -
  from assms(1) obtain st1 where 1: "fwrite (block_buffered b) buf (unat sz) st = Inr st1"
    and 2: "fwrite (block_buffered b) (Some (replicate (unat psize) NUL))
              (unat (psize - sz mod psize)) st1 = Inr st'"
    unfolding write_segment_Inr by blast
  have a: "length (pending st1) = unat sz mod b"
    using fwrite_pending_block [OF 1] assms(2,3) by simp
  then have "length (pending st1) < b" using assms(3) by simp
  then show ?thesis using fwrite_pending_block [OF 2] a by simp
qed

lemma write_bootimg_pending_ramdisk:
  assumes w: "write_bootimg pol bh lb img = Inr img'"
    and r: "ramdisk img \<noteq> None" and s: "second_size (header img) = 0"
  shows "\<exists>st st'. pending st = []
    \<and> write_segment pol (page_size (header img)) (ramdisk img) (ramdisk_size (header img)) st
         = Inr st'
    \<and> pending (stream img') = pending st'"
proof -
  let ?h = "header img"
  from w obtain st3 st4 st5 where
    4: "(if ramdisk img \<noteq> None
      then bindE (fseekE lb (fname img) (write_bootimg_roffset ?h) st3)
             (write_segment pol (page_size ?h) (ramdisk img) (ramdisk_size ?h))
      else Inr st3) = Inr st4"
    and 5: "(if second_size ?h \<noteq> 0
      then bindE (fseekE lb (fname img) (write_bootimg_soffset ?h) st4)
             (write_segment pol (page_size ?h) (second img) (second_size ?h))
      else Inr st4) = Inr st5"
    and i: "img' = img\<lparr>stream := ftruncate lb (img_size img) st5\<rparr>"
    by (rule write_bootimg_InrE)
  from 4 r obtain st where f: "fseekE lb (fname img) (write_bootimg_roffset ?h) st3 = Inr st"
    and ws: "write_segment pol (page_size ?h) (ramdisk img) (ramdisk_size ?h) st = Inr st4"
    by (auto simp: bindE_Inr)
  have "pending st = []" using f by (rule fseekE_view(3))
  moreover have "pending (stream img') = pending st4" unfolding i using 5 s by simp
  ultimately show ?thesis using ws by blast
qed

lemma update_header_page_3000:
  "update_header android_h 64 fs0 config_page_3000 (imgc\<lparr>stream := st\<rparr>)
   = Inr (imgc\<lparr>stream := st, header := (header imgc)\<lparr>page_size := 3000\<rparr>\<rparr>)"
  by (simp add: update_header_def c_str_def update_header_entry_unfold entry_rest_def
      entry_token_def entry_line_def is_blank_def is_key_char_def strtoul_def
      strtoul_sign_def strtoul_base_def isspace_def digit_val_def Let_def imgc_fields
      config_page_3000_def)

lemma update_images_page_3000:
  "\<exists>i1. update_images 64 fs0
           (imgc\<lparr>stream := fopen_w None, header := (header imgc)\<lparr>page_size := 3000\<rparr>\<rparr>) = Inr i1
     \<and> page_size (header i1) = 3000 \<and> kernel_size (header i1) = 3000
     \<and> ramdisk_size (header i1) = 3000 \<and> second_size (header i1) = 0
     \<and> img_size i1 = 9000 \<and> kernel i1 = Some (replicate 3000 (CHR ''k''))
     \<and> ramdisk i1 = Some (replicate 3000 (CHR ''r'')) \<and> second i1 = None
     \<and> \<not> is_dev (stream i1)
     \<and> snd (check_boot_img_header android_h i1) = 0"
  by (simp add: eval_defs imgc_def parse_args_files_def new_bootimg_def fs0_def fopen_w_def
      check_boot_img_header_def strncmp_eq_def c_str_def android_h_def)

lemma whole_page_segment_example:
  "written_length (main_create (block_buffered 4096) None android_h 64 fs0
      config_page_3000 imgc None) = Some 12000
   \<and> written_length (main_create unbuffered None android_h 64 fs0
      config_page_3000 imgc None) = Some 9000"
proof -
  let ?img = "imgc\<lparr>stream := fopen_w None, header := (header imgc)\<lparr>page_size := 3000\<rparr>\<rparr>"
  obtain i1 where u: "update_images 64 fs0 ?img = Inr i1"
    and hv: "page_size (header i1) = 3000" "kernel_size (header i1) = 3000"
      "ramdisk_size (header i1) = 3000" "second_size (header i1) = 0"
    and s: "img_size i1 = 9000"
    and k: "kernel i1 = Some (replicate 3000 (CHR ''k''))"
    and r: "ramdisk i1 = Some (replicate 3000 (CHR ''r''))" and n: "second i1 = None"
    and nd: "\<not> is_dev (stream i1)"
    and c: "snd (check_boot_img_header android_h i1) = 0"
    using update_images_page_3000 by blast
  have l: "unat (img_size i1) < 2 ^ (64 - 1)" unfolding s by simp
  have e: "write_end android_h 64 i1 = 12000"
    by (simp add: write_end_def hv r write_bootimg_roffset_def npages_def)
  have run: "written_length (main_create pol None android_h 64 fs0 config_page_3000
      imgc None) = Some (length (at_exit (stream i2)))"
    if "write_bootimg pol android_h 64 i1 = Inr i2" for pol i2
    by (simp add: main_create_def check_if_block_device_def imgc_fields
        update_header_page_3000 u c that written_length_def written_bytes_def)
  have ok: "\<exists>i2. write_bootimg pol android_h 64 i1 = Inr i2" for pol
    using write_bootimg_ok [of i1 android_h 64 pol]
    by (auto simp: hv k r n android_h_def android_hdr_bytes_length hdr_padding_len_def
        write_bootimg_roffset_def npages_def)
  obtain b2 where wb: "write_bootimg (block_buffered 4096) android_h 64 i1 = Inr b2"
    using ok by blast
  obtain st st' where "pending st = []"
    and "write_segment (block_buffered 4096) (page_size (header i1)) (ramdisk i1)
           (ramdisk_size (header i1)) st = Inr st'"
    and "pending (stream b2) = pending st'"
    using write_bootimg_pending_ramdisk [OF wb] r hv(4) by auto
  then have "length (pending (stream b2)) = 1904"
    using write_segment_pending_block [of 4096 "page_size (header i1)" "ramdisk i1"
        "ramdisk_size (header i1)" st st']
    by (simp add: hv)
  then have "pending (stream b2) \<noteq> []" by auto
  then have lb: "length (at_exit (stream b2)) = 12000"
    using write_bootimg_length(1) [OF wb l nd] by (simp add: s e)
  obtain u2 where wu: "write_bootimg unbuffered android_h 64 i1 = Inr u2"
    using ok by blast
  obtain st st' where "pending st = []"
    and "write_segment unbuffered (page_size (header i1)) (ramdisk i1)
           (ramdisk_size (header i1)) st = Inr st'"
    and "pending (stream u2) = pending st'"
    using write_bootimg_pending_ramdisk [OF wu] r hv(4) by auto
  then have "pending (stream u2) = []"
    using write_segment_pending_unbuffered by fastforce
  then have lu: "length (at_exit (stream u2)) = 9000"
    using write_bootimg_length(1) [OF wu l nd] by (simp add: s)
  show ?thesis using run [OF wb] run [OF wu] lb lu by simp
qed

lemma hdr_padding_len_wrap:
  assumes "unat psize < sizeof_hdr bh" and "sizeof_hdr bh \<le> 2 ^ lb"
  shows "hdr_padding_len bh lb psize = 2 ^ lb - (sizeof_hdr bh - unat psize)"
proof -
  have "unat psize + 2 ^ lb - sizeof_hdr bh < 2 ^ lb" using assms by linarith
  then have "hdr_padding_len bh lb psize = unat psize + 2 ^ lb - sizeof_hdr bh"
    by (simp add: hdr_padding_len_def)
  then show ?thesis using assms by linarith
qed

subsection \<open>The padding after the header\<close>

text \<open>
  C10, with the width of \<^verbatim>\<open>size_t\<close> in place of 32. For a page size that is not zero
  and below the size of the header record, the length of the padding after the header is
  the difference modulo \<^verbatim>\<open>2 ^ lb\<close>, where \<^verbatim>\<open>lb\<close> is the width of \<^verbatim>\<open>size_t\<close>: the
  subtraction is done in the type of \<^verbatim>\<open>sizeof\<close>. That length exceeds the page size, which
  is the size of the padding buffer, so \<^verbatim>\<open>write_bootimg\<close> reads beyond the buffer.
  Nothing rejects such a page size: the \<^verbatim>\<open>pagesize\<close> entry of the configuration stores it,
  and \<^verbatim>\<open>update_images\<close> does not fail with the error of a zero page size.
\<close>

theorem header_padding_length_wraps:
  assumes nz: "page_size (header img) \<noteq> 0"
    and small: "unat (page_size (header img)) < sizeof_hdr bh"
    and sz: "sizeof_hdr bh < 2 ^ lb" and lb: "32 \<le> lb"
    and rep: "length (hdr_bytes bh (header img)) = sizeof_hdr bh"
  shows "hdr_padding_len bh lb (page_size (header img))
        = 2 ^ lb - (sizeof_hdr bh - unat (page_size (header img)))
    \<and> unat (page_size (header img)) < hdr_padding_len bh lb (page_size (header img))
    \<and> write_bootimg pol bh lb img = Inl Undefined
    \<and> update_header_entry bh lb img0'
          (''pagesize = 0x'' @ hex_digits (unat (page_size (header img))) @ [NEWLINE])
        = Inr (img0'\<lparr>header := (header img0')\<lparr>page_size := page_size (header img)\<rparr>\<rparr>)
    \<and> update_images lb fs img \<noteq> Inl (PageSizeNull, st)"
proof -
  let ?p = "page_size (header img)"
  have w: "hdr_padding_len bh lb ?p = 2 ^ lb - (sizeof_hdr bh - unat ?p)"
    using small sz by (intro hdr_padding_len_wrap) simp_all
  have big: "unat ?p < hdr_padding_len bh lb ?p" unfolding w using small sz by linarith
  have s0: "fseekE lb (fname img) 0 (stream img)
      = Inr ((fflush (stream img))\<lparr>pos := 0, eof := False\<rparr>)"
    by (simp add: fseekE_def fseek_def)
  have h: "\<exists>st1. fwrite pol (Some (hdr_bytes bh (header img))) (sizeof_hdr bh)
      ((fflush (stream img))\<lparr>pos := 0, eof := False\<rparr>) = Inr st1"
    using rep by (simp add: fwrite_def)
  have pd: "fwrite pol (Some (replicate (unat ?p) NUL)) (hdr_padding_len bh lb ?p) st1
      = Inl Undefined"
    for st1
    using big by (simp add: fwrite_def)
  have wr: "write_bootimg pol bh lb img = Inl Undefined"
    using nz h by (auto simp: write_bootimg_def Let_def s0 pd)
  have p2: "(2::nat) ^ 32 \<le> 2 ^ lb" using lb by (intro power_increasing) simp_all
  have "unat ?p < 2 ^ 32" using unsigned_less [of ?p] by simp
  then have "unat ?p < 2 ^ lb" using p2 by linarith
  then have cfg: "update_header_entry bh lb img0'
          (''pagesize = 0x'' @ hex_digits (unat ?p) @ [NEWLINE])
        = Inr (img0'\<lparr>header := (header img0')\<lparr>page_size := ?p\<rparr>\<rparr>)"
    using pagesize_line [of "unat ?p" lb bh img0'] by simp
  have ui: "update_images lb fs img \<noteq> Inl (PageSizeNull, st)"
  proof
    assume a: "update_images lb fs img = Inl (PageSizeNull, st)"
    have rw: "read_whole_file fs name what \<noteq> Inl PageSizeNull" for name what
      by (auto simp: read_whole_file_def fread_def Let_def split: option.splits if_splits)
    have k: "update_images_kernel fs i \<noteq> Inl (PageSizeNull, st)" for i
      by (auto simp: update_images_kernel_def bindE_Inl rw split: option.splits if_splits)
    have c: "carry_over lb i off n what \<noteq> Inl (PageSizeNull, st)" for i off n what
      by (auto simp: carry_over_def fseekE_def fseek_def fread_def Let_def bindE_Inl
          split: option.splits if_splits)
    have r: "update_images_ramdisk lb fs ro rs i \<noteq> Inl (PageSizeNull, st)" for i ro rs
      by (auto simp: update_images_ramdisk_def bindE_Inl rw c split: option.splits if_splits)
    have s: "update_images_second lb fs so ss i \<noteq> Inl (PageSizeNull, st)" for i so ss
      by (auto simp: update_images_second_def bindE_Inl rw c split: option.splits if_splits)
    have t: "update_images_total ps i \<noteq> Inl (PageSizeNull, st)" for i ps
      by (auto simp: update_images_total_def Let_def)
    show False
      using a nz k r s t by (auto simp: update_images_def Let_def bindE_Inl)
  qed
  show ?thesis using w big wr cfg ui by blast
qed

text \<open>
  The theorem at a page size of 512 and the 608-byte header, with a \<^verbatim>\<open>size_t\<close> of 32
  bits: the padding length is \<^verbatim>\<open>2 ^ 32 - 96\<close>.
\<close>

theorem header_padding_length_wraps_witness:
  "hdr_padding_len android_h 32 (page_size (header (img_read\<lparr>header := hdr0\<lparr>page_size := 512\<rparr>\<rparr>)))
     = 4294967200
   \<and> write_bootimg (block_buffered 4096) android_h 32
        (img_read\<lparr>header := hdr0\<lparr>page_size := 512\<rparr>\<rparr>) = Inl Undefined
   \<and> update_header_entry android_h 32 img0 (''pagesize = 0x200'' @ [NEWLINE])
       = Inr (img0\<lparr>header := (header img0)\<lparr>page_size := 512\<rparr>\<rparr>)"
proof -
  let ?img = "img_read\<lparr>header := hdr0\<lparr>page_size := 512\<rparr>\<rparr>"
  have p: "page_size (header ?img) = 512" by simp
  have nz: "page_size (header ?img) \<noteq> 0" by simp
  have small: "unat (page_size (header ?img)) < sizeof_hdr android_h"
    by (simp add: android_h_def)
  have sz: "sizeof_hdr android_h < 2 ^ 32" by (simp add: android_h_def)
  have rep: "length (hdr_bytes android_h (header ?img)) = sizeof_hdr android_h"
    by (simp add: android_h_def android_hdr_bytes_length)
  have hx: "hex_digits 512 = ''200''"
    by (simp add: hex_digits.simps [of 512] hex_digits.simps [of 32] hex_digits.simps [of 2]
        hex_char_def)
  note t = header_padding_length_wraps [OF nz small sz order_refl rep,
      of "block_buffered 4096" img0 fs0 "fopen_stream []"]
  show ?thesis using t unfolding p by (simp add: android_h_def hx)
qed

text \<open>
  C10, as stated (the difference modulo \<^verbatim>\<open>2 ^ 32\<close>), fails where \<^verbatim>\<open>size_t\<close> has 64
  bits: for a page size of 512 and the 608-byte header the padding length is
  \<^verbatim>\<open>2 ^ 64 - 96\<close>, not \<^verbatim>\<open>2 ^ 32 - 96\<close>.
\<close>

theorem header_padding_length_64_counterexample:
  "hdr_padding_len android_h 64 512 = 18446744073709551520
   \<and> hdr_padding_len android_h 64 512 \<noteq> (512 + 2 ^ 32 - 608) mod 2 ^ 32
   \<and> (512 + 2 ^ 32 - 608) mod 2 ^ 32 = (4294967200::nat)"
  by (simp add: hdr_padding_len_def android_h_def)

end
